(* ===== verification/Prelude.thy ===== *)
theory Prelude
  imports Main "HOL-Library.Char_ord" "HOL-Library.List_Lexorder"
begin

text \<open>
  Shared vocabulary of the development: Go errors as values, the sequencing of
  checks and of fallible calls, the \<open>seen\<close>-map scans that the sources use to
  refuse duplicates, and the few table operations (lookup, insert with a
  uniqueness constraint, update, delete) the SQLite adapter is written in.
  Strings are Go strings, that is byte sequences; the order on them is the
  bytewise lexicographic order that Go's \<open><\<close> and SQLite's BINARY collation use.
\<close>

named_theorems result_simps \<open>inversion rules for checks and fallible calls\<close>
named_theorems table_simps \<open>membership and key facts for the table operations\<close>

section \<open>Errors\<close>

text \<open>
  The sentinel errors of \<open>internal/application/jobs.go\<close>, \<open>lifecycle.go\<close>,
  \<open>adapters/sqlite/auth.go\<close> and \<open>database/sql\<close> are constructors, so that a
  statement can name them as \<open>errors.Is\<close> does; \<open>Errorf\<close> carries the constant
  part of a message and \<open>Wrapped\<close> is \<open>fmt.Errorf("...: %w", err)\<close>.
\<close>

datatype go_error =
    Errorf string
  | Wrapped string go_error
  | ErrNoRows
  | ErrConstraint string
  | ErrNoJob
  | ErrJobNotFound
  | ErrNotFound
  | ErrLeaseLost
  | ErrInvalidFormationJob
  | ErrPolicyDenied string
  | ErrNoChange
  | ErrInvalidToken

text \<open>\<open>errors.Is\<close>: the sentinel anywhere down the chain of wrapped errors.\<close>

fun errors_is :: "go_error \<Rightarrow> go_error \<Rightarrow> bool" where
  "errors_is (Wrapped m e) target = (Wrapped m e = target \<or> errors_is e target)"
| "errors_is e target = (e = target)"

type_synonym check = "go_error option"

definition err_if :: "bool \<Rightarrow> string \<Rightarrow> check" where
  "err_if b m = (if b then Some (Errorf m) else None)"

lemma err_if_None [simp, result_simps]: "err_if b m = None \<longleftrightarrow> \<not> b"
  by (simp add: err_if_def)

lemma err_if_False [simp]: "err_if False m = None"
  by (simp add: err_if_def)

text \<open>A sequence of \<open>if err := ...; err != nil { return err }\<close> statements.\<close>

fun first_error :: "check list \<Rightarrow> check" where
  "first_error [] = None"
| "first_error (c # cs) = (case c of None \<Rightarrow> first_error cs | Some e \<Rightarrow> Some e)"

lemma first_error_None [simp, result_simps]:
  "first_error cs = None \<longleftrightarrow> (\<forall>c \<in> set cs. c = None)"
  by (induction cs) (auto split: option.splits)

declare first_error.simps [simp del]

lemma first_error_Nil [simp]: "first_error [] = None"
  by (simp add: first_error.simps)

definition wrap_check :: "string \<Rightarrow> check \<Rightarrow> check" where
  "wrap_check m c = map_option (Wrapped m) c"

lemma wrap_check_None [simp, result_simps]: "wrap_check m c = None \<longleftrightarrow> c = None"
  by (simp add: wrap_check_def)

text \<open>Checking every element in order; the index only occurs in messages.\<close>

definition check_all :: "('a \<Rightarrow> check) \<Rightarrow> 'a list \<Rightarrow> check" where
  "check_all f xs = first_error (map f xs)"

lemma check_all_None [simp, result_simps]:
  "check_all f xs = None \<longleftrightarrow> (\<forall>x \<in> set xs. f x = None)"
  by (simp add: check_all_def)

text \<open>
  The recurring loop over a slice with a \<open>seen\<close> map: tests made before the
  duplicate test, the duplicate test, tests made after it.
\<close>

fun scan_unique :: "('a \<Rightarrow> check) \<Rightarrow> string \<Rightarrow> ('a \<Rightarrow> check) \<Rightarrow> 'a list \<Rightarrow> 'a list \<Rightarrow> check" where
  "scan_unique pre dup post seen [] = None"
| "scan_unique pre dup post seen (x # xs) =
     first_error [pre x, err_if (x \<in> set seen) dup, post x,
                  scan_unique pre dup post (x # seen) xs]"

lemma scan_unique_None_gen:
  "scan_unique pre dup post seen xs = None \<longleftrightarrow>
     (\<forall>x \<in> set xs. pre x = None \<and> post x = None) \<and> distinct xs \<and> set xs \<inter> set seen = {}"
  by (induction xs arbitrary: seen) auto

lemma scan_unique_None [simp, result_simps]:
  "scan_unique pre dup post [] xs = None \<longleftrightarrow>
     (\<forall>x \<in> set xs. pre x = None \<and> post x = None) \<and> distinct xs"
  by (simp add: scan_unique_None_gen)

section \<open>Fallible calls\<close>

type_synonym 'a result = "go_error + 'a"

definition bind_result :: "'a result \<Rightarrow> ('a \<Rightarrow> 'b result) \<Rightarrow> 'b result" where
  "bind_result r f = (case r of Inl e \<Rightarrow> Inl e | Inr x \<Rightarrow> f x)"

definition guard_check :: "check \<Rightarrow> 'a result \<Rightarrow> 'a result" where
  "guard_check c r = (case c of Some e \<Rightarrow> Inl e | None \<Rightarrow> r)"

definition wrap_result :: "string \<Rightarrow> 'a result \<Rightarrow> 'a result" where
  "wrap_result m r = (case r of Inl e \<Rightarrow> Inl (Wrapped m e) | Inr x \<Rightarrow> Inr x)"

text \<open>Evaluation goes from the call into its continuation, as the sources do.\<close>

declare bind_result_def [code_unfold] guard_check_def [code_unfold]

lemma bind_result_simps [simp]:
  "bind_result (Inl e) f = Inl e" "bind_result (Inr x) f = f x"
  by (simp_all add: bind_result_def)

lemma guard_check_simps [simp]:
  "guard_check None r = r" "guard_check (Some e) r = Inl e"
  by (simp_all add: guard_check_def)

lemma guard_check_pass: "c = None \<Longrightarrow> guard_check c r = r"
  by simp

lemma wrap_result_simps [simp]:
  "wrap_result m (Inr x) = Inr x" "wrap_result m (Inl e) = Inl (Wrapped m e)"
  by (simp_all add: wrap_result_def)

lemma bind_result_Inr [result_simps]:
  "bind_result r f = Inr y \<longleftrightarrow> (\<exists>x. r = Inr x \<and> f x = Inr y)"
  by (simp add: bind_result_def split: sum.splits)

lemma guard_check_Inr [result_simps]: "guard_check c r = Inr y \<longleftrightarrow> c = None \<and> r = Inr y"
  by (simp add: guard_check_def split: option.splits)

lemma wrap_result_Inr [result_simps]: "wrap_result m r = Inr y \<longleftrightarrow> r = Inr y"
  by (simp add: wrap_result_def split: sum.splits)

text \<open>Running a fallible call over a list, threading a state, stopping at the first error.\<close>

fun fold_result :: "('a \<Rightarrow> 's \<Rightarrow> 's result) \<Rightarrow> 'a list \<Rightarrow> 's \<Rightarrow> 's result" where
  "fold_result f [] s = Inr s"
| "fold_result f (x # xs) s = bind_result (f x s) (fold_result f xs)"

lemma fold_result_invariant:
  assumes "fold_result f xs s = Inr t" and "P s"
    and "\<And>x s t. x \<in> set xs \<Longrightarrow> P s \<Longrightarrow> f x s = Inr t \<Longrightarrow> P t"
  shows "P t"
  using assms
proof (induction xs arbitrary: s)
  case Nil
  then show ?case by simp
next
  case (Cons x xs)
  from Cons.prems(1) obtain u where u: "f x s = Inr u" and t: "fold_result f xs u = Inr t"
    by (auto simp: bind_result_Inr)
  show ?case
  proof (rule Cons.IH [OF t])
    show "P u" using Cons.prems(2,3) u by (metis list.set_intros(1))
    show "\<And>y s t. y \<in> set xs \<Longrightarrow> P s \<Longrightarrow> f y s = Inr t \<Longrightarrow> P t"
      using Cons.prems(3) by (meson list.set_intros(2))
  qed
qed

section \<open>Tables\<close>

text \<open>
  A table is the list of its rows in insertion order. \<open>SELECT ... WHERE key = k\<close>
  on a unique key is \<open>find_row\<close>; an \<open>INSERT\<close> that would violate a uniqueness,
  foreign-key or check constraint fails and leaves the table unchanged;
  \<open>UPDATE ... WHERE p\<close> and \<open>DELETE ... WHERE p\<close> act on every matching row.
\<close>

definition find_row :: "('r \<Rightarrow> 'k) \<Rightarrow> 'k \<Rightarrow> 'r list \<Rightarrow> 'r option" where
  "find_row key k rows = find (\<lambda>r. key r = k) rows"

definition insert_row :: "string \<Rightarrow> bool \<Rightarrow> 'r \<Rightarrow> 'r list \<Rightarrow> 'r list result" where
  "insert_row constraint violated r rows =
     (if violated then Inl (ErrConstraint constraint) else Inr (rows @ [r]))"

definition update_rows :: "('r \<Rightarrow> bool) \<Rightarrow> ('r \<Rightarrow> 'r) \<Rightarrow> 'r list \<Rightarrow> 'r list" where
  "update_rows p f rows = map (\<lambda>r. if p r then f r else r) rows"

definition delete_rows :: "('r \<Rightarrow> bool) \<Rightarrow> 'r list \<Rightarrow> 'r list" where
  "delete_rows p rows = filter (\<lambda>r. \<not> p r) rows"

lemma insert_row_Inr [result_simps]:
  "insert_row c v r rows = Inr rows' \<longleftrightarrow> \<not> v \<and> rows' = rows @ [r]"
  by (auto simp: insert_row_def)

lemma find_row_SomeD: "find_row key k rows = Some r \<Longrightarrow> r \<in> set rows \<and> key r = k"
  by (auto simp: find_row_def find_Some_iff)

lemma find_row_None [table_simps]: "find_row key k rows = None \<longleftrightarrow> k \<notin> key ` set rows"
  by (auto simp: find_row_def find_None_iff)

lemma find_row_distinct:
  assumes "distinct (map key rows)" and "r \<in> set rows"
  shows "find_row key (key r) rows = Some r"
  using assms by (induction rows) (auto simp: find_row_def)

lemma find_row_eq_Some [table_simps]:
  "distinct (map key rows) \<Longrightarrow> find_row key k rows = Some r \<longleftrightarrow> r \<in> set rows \<and> key r = k"
  by (auto dest: find_row_SomeD simp: find_row_distinct)

lemma find_row_append [table_simps]:
  "find_row key k (rows @ [r]) =
     (case find_row key k rows of Some x \<Rightarrow> Some x | None \<Rightarrow> (if key r = k then Some r else None))"
  by (induction rows) (auto simp: find_row_def)

lemma find_row_update [table_simps]:
  "(\<And>r. key (f r) = key r) \<Longrightarrow>
     find_row key k (update_rows p f rows) =
       map_option (\<lambda>r. if p r then f r else r) (find_row key k rows)"
  by (induction rows) (auto simp: find_row_def update_rows_def)

lemma set_update_rows [table_simps]:
  "set (update_rows p f rows) = (\<lambda>r. if p r then f r else r) ` set rows"
  by (simp add: update_rows_def)

lemma map_key_update_rows [table_simps]:
  "(\<And>r. p r \<Longrightarrow> key (f r) = key r) \<Longrightarrow> map key (update_rows p f rows) = map key rows"
  by (simp add: update_rows_def)

lemma set_delete_rows [table_simps]: "set (delete_rows p rows) = {r \<in> set rows. \<not> p r}"
  by (auto simp: delete_rows_def)

lemma distinct_key_delete_rows [table_simps]:
  "distinct (map key rows) \<Longrightarrow> distinct (map key (delete_rows p rows))"
  by (simp add: delete_rows_def distinct_map_filter)

lemma length_update_rows [simp]: "length (update_rows p f rows) = length rows"
  by (simp add: update_rows_def)

section \<open>Lexicographic order of concatenations\<close>

lemma append_less_same_length:
  fixes xs ys us vs :: "'a::linorder list"
  assumes "length xs = length ys"
  shows "xs @ us < ys @ vs \<longleftrightarrow> xs < ys \<or> xs = ys \<and> us < vs"
  using assms by (induction xs ys rule: list_induct2) auto

lemma append_le_same_length:
  fixes xs ys us vs :: "'a::linorder list"
  assumes "length xs = length ys"
  shows "xs @ us \<le> ys @ vs \<longleftrightarrow> xs < ys \<or> xs = ys \<and> us \<le> vs"
  using append_less_same_length [OF assms] assms by (auto simp: order_le_less)

end
