(* ===== verification/GoText.thy ===== *)
theory GoText
  imports Prelude
begin

text \<open>
  The part of Go's \<open>strings\<close>, \<open>unicode/utf8\<close>, \<open>encoding/hex\<close> and \<open>regexp\<close> the
  program uses, over byte strings: rune decoding with the replacement of invalid
  bytes, \<open>strings.TrimSpace\<close>, \<open>strings.Fields\<close>, \<open>utf8.RuneCountInString\<close>, hex
  digits, and the three identifier patterns of \<open>internal/domain/validate.go\<close>.
  Unicode case tables and letter classes are not modelled: functions that need
  them take them as an argument.
\<close>

definition byte_of :: "char \<Rightarrow> int" where
  "byte_of c = of_char c"

lemma byte_of_bounds [simp]: "0 \<le> byte_of c" "byte_of c < 256"
  by (cases c; simp add: byte_of_def horner_sum_simps)+

lemma byte_of_nibbles [simp]:
  "0 \<le> byte_of c div 16" "byte_of c div 16 < 16" "0 \<le> byte_of c mod 16" "byte_of c mod 16 < 16"
  using byte_of_bounds [of c] by presburger+

section \<open>Runes\<close>

definition is_continuation :: "int \<Rightarrow> bool" where
  "is_continuation b \<longleftrightarrow> 128 \<le> b \<and> b \<le> 191"

text \<open>\<open>utf8.DecodeRuneInString\<close>: rune and width, U+FFFD with width 1 on an invalid byte.\<close>

fun decode_rune :: "int list \<Rightarrow> int \<times> nat" where
  "decode_rune [] = (65533, 0)"
| "decode_rune (b0 # bs) =
    (if b0 < 128 then (b0, 1)
     else if 194 \<le> b0 \<and> b0 \<le> 223 then
       (case bs of b1 # _ \<Rightarrow>
          (if is_continuation b1 then ((b0 - 192) * 64 + (b1 - 128), 2) else (65533, 1))
        | [] \<Rightarrow> (65533, 1))
     else if 224 \<le> b0 \<and> b0 \<le> 239 then
       (case bs of b1 # b2 # _ \<Rightarrow>
          (if (if b0 = 224 then 160 else 128) \<le> b1 \<and> b1 \<le> (if b0 = 237 then 159 else 191) \<and> is_continuation b2
           then ((b0 - 224) * 4096 + (b1 - 128) * 64 + (b2 - 128), 3) else (65533, 1))
        | _ \<Rightarrow> (65533, 1))
     else if 240 \<le> b0 \<and> b0 \<le> 244 then
       (case bs of b1 # b2 # b3 # _ \<Rightarrow>
          (if (if b0 = 240 then 144 else 128) \<le> b1 \<and> b1 \<le> (if b0 = 244 then 143 else 191) \<and>
              is_continuation b2 \<and> is_continuation b3
           then ((b0 - 240) * 262144 + (b1 - 128) * 4096 + (b2 - 128) * 64 + (b3 - 128), 4)
           else (65533, 1))
        | _ \<Rightarrow> (65533, 1))
     else (65533, 1))"

lemma decode_rune_width: "snd (decode_rune (b # bs)) \<ge> 1"
  by (auto split: list.splits)

declare decode_rune.simps [simp del]

text \<open>The runes of a string with the bytes each was read from.\<close>

function runes :: "string \<Rightarrow> (int \<times> string) list" where
  "runes [] = []"
| "runes (c # cs) =
     (let (r, n) = decode_rune (map byte_of (take 4 (c # cs)))
      in (r, c # take (n - 1) cs) # runes (drop (n - 1) cs))"
  by pat_completeness auto
termination
  by (relation "measure length") auto

declare runes.simps [simp del]

lemma runes_Nil [simp]: "runes [] = []"
  by (simp add: runes.simps)

lemma runes_eq_Nil [simp]: "runes s = [] \<longleftrightarrow> s = []"
  by (cases s) (auto simp: runes.simps split: prod.splits)

lemma runes_Cons:
  "\<exists>r k. runes (c # cs) = (r, c # take k cs) # runes (drop k cs)"
  by (auto simp: runes.simps split: prod.splits)

lemma concat_runes [simp]: "concat (map snd (runes s)) = s"
proof (induction s rule: length_induct)
  case (1 s)
  show ?case
  proof (cases s)
    case Nil
    then show ?thesis by simp
  next
    case (Cons c cs)
    obtain r k where rk: "runes (c # cs) = (r, c # take k cs) # runes (drop k cs)"
      using runes_Cons by blast
    have "concat (map snd (runes (drop k cs))) = drop k cs"
      using "1.IH" Cons by simp
    then show ?thesis using Cons rk by simp
  qed
qed

lemma length_runes_le: "length (runes s) \<le> length s"
proof (induction s rule: length_induct)
  case (1 s)
  show ?case
  proof (cases s)
    case Nil
    then show ?thesis by simp
  next
    case (Cons c cs)
    obtain r k where rk: "runes (c # cs) = (r, c # take k cs) # runes (drop k cs)"
      using runes_Cons by blast
    have "length (drop k cs) < length s"
      using Cons by simp
    then have "length (runes (drop k cs)) \<le> length (drop k cs)"
      using "1.IH" by blast
    then show ?thesis using Cons rk by simp
  qed
qed

definition rune_count :: "string \<Rightarrow> nat" where
  "rune_count s = length (runes s)"

lemma rune_count_0 [simp]: "rune_count s = 0 \<longleftrightarrow> s = []"
  by (simp add: rune_count_def)

section \<open>White space\<close>

definition is_space :: "int \<Rightarrow> bool" where
  "is_space r \<longleftrightarrow> (9 \<le> r \<and> r \<le> 13) \<or> r = 32 \<or> r = 133 \<or> r = 160 \<or> r = 5760 \<or>
     (8192 \<le> r \<and> r \<le> 8202) \<or> r = 8232 \<or> r = 8233 \<or> r = 8239 \<or> r = 8287 \<or> r = 12288"

text \<open>\<open>strings.TrimSpace\<close>.\<close>

definition trim_space :: "string \<Rightarrow> string" where
  "trim_space s =
     concat (map snd (rev (dropWhile (is_space \<circ> fst)
       (rev (dropWhile (is_space \<circ> fst) (runes s))))))"

definition is_blank :: "string \<Rightarrow> bool" where
  "is_blank s \<longleftrightarrow> trim_space s = ''''"

lemma trim_space_Nil [simp]: "trim_space [] = []"
  by (simp add: trim_space_def)

text \<open>\<open>strings.Fields\<close>: the maximal runs of non-space runes.\<close>

fun fields_acc :: "string \<Rightarrow> (int \<times> string) list \<Rightarrow> string list" where
  "fields_acc w [] = (if w = '''' then [] else [w])"
| "fields_acc w ((r, bs) # rs) =
     (if is_space r then (if w = '''' then fields_acc '''' rs else w # fields_acc '''' rs)
      else fields_acc (w @ bs) rs)"

definition fields :: "string \<Rightarrow> string list" where
  "fields s = fields_acc '''' (runes s)"

fun join :: "string \<Rightarrow> string list \<Rightarrow> string" where
  "join sep [] = ''''"
| "join sep [x] = x"
| "join sep (x # y # ys) = x @ sep @ join sep (y # ys)"

section \<open>Hexadecimal\<close>

definition hex_digit :: "int \<Rightarrow> char" where
  "hex_digit n = (if n < 10 then char_of (48 + n) else char_of (87 + n))"

definition hex_value :: "char \<Rightarrow> int option" where
  "hex_value c = (let b = byte_of c in
     if 48 \<le> b \<and> b \<le> 57 then Some (b - 48)
     else if 97 \<le> b \<and> b \<le> 102 then Some (b - 87)
     else if 65 \<le> b \<and> b \<le> 70 then Some (b - 55)
     else None)"

fun hex_encode :: "string \<Rightarrow> string" where
  "hex_encode [] = []"
| "hex_encode (c # cs) = hex_digit (byte_of c div 16) # hex_digit (byte_of c mod 16) # hex_encode cs"

text \<open>\<open>hex.DecodeString\<close>: fails on an odd length or a byte that is no hex digit.\<close>

fun hex_decode :: "string \<Rightarrow> string option" where
  "hex_decode [] = Some []"
| "hex_decode [c] = None"
| "hex_decode (c # d # cs) =
     (case (hex_value c, hex_value d, hex_decode cs) of
        (Some h, Some l, Some rest) \<Rightarrow> Some (char_of (16 * h + l) # rest)
      | _ \<Rightarrow> None)"

lemma byte_of_char_of: "0 \<le> n \<Longrightarrow> n < 256 \<Longrightarrow> byte_of (char_of n) = n"
  by (simp add: byte_of_def)

lemma char_of_byte_of: "char_of (byte_of c) = c"
  by (simp add: byte_of_def)

lemma hex_value_hex_digit: "0 \<le> n \<Longrightarrow> n < 16 \<Longrightarrow> hex_value (hex_digit n) = Some n"
  by (auto simp: hex_value_def hex_digit_def byte_of_char_of)

lemma length_hex_encode [simp]: "length (hex_encode s) = 2 * length s"
  by (induction s) auto

lemma hex_decode_encode [simp]: "hex_decode (hex_encode s) = Some s"
proof (induction s)
  case Nil
  then show ?case by simp
next
  case (Cons c s)
  then show ?case by (simp add: hex_value_hex_digit char_of_byte_of)
qed

section \<open>Identifier patterns\<close>

definition is_alnum :: "char \<Rightarrow> bool" where
  "is_alnum c \<longleftrightarrow> (let b = byte_of c in
     (48 \<le> b \<and> b \<le> 57) \<or> (65 \<le> b \<and> b \<le> 90) \<or> (97 \<le> b \<and> b \<le> 122))"

definition is_lower_alnum :: "char \<Rightarrow> bool" where
  "is_lower_alnum c \<longleftrightarrow> (let b = byte_of c in (48 \<le> b \<and> b \<le> 57) \<or> (97 \<le> b \<and> b \<le> 122))"

definition is_id_char :: "char \<Rightarrow> bool" where
  "is_id_char c \<longleftrightarrow> is_alnum c \<or> c \<in> set ''._:-''"

definition is_label_char :: "char \<Rightarrow> bool" where
  "is_label_char c \<longleftrightarrow> is_lower_alnum c \<or> c = CHR ''-''"

text \<open>\<open>^[A-Za-z0-9][A-Za-z0-9._:-]{0,127}$\<close>\<close>

definition id_pattern :: "string \<Rightarrow> bool" where
  "id_pattern s = (case s of [] \<Rightarrow> False
     | c # cs \<Rightarrow> is_alnum c \<and> list_all is_id_char cs \<and> length cs \<le> 127)"

text \<open>\<open>^x-[a-z0-9][a-z0-9-]{0,62}$\<close>\<close>

definition extension_label :: "string \<Rightarrow> bool" where
  "extension_label s = (case s of
       x # m # c # cs \<Rightarrow> x = CHR ''x'' \<and> m = CHR ''-'' \<and>
         is_lower_alnum c \<and> list_all is_label_char cs \<and> length cs \<le> 62
     | _ \<Rightarrow> False)"

text \<open>\<open>^[a-z0-9][a-z0-9-]{0,63}$\<close>\<close>

definition tag_pattern :: "string \<Rightarrow> bool" where
  "tag_pattern s = (case s of [] \<Rightarrow> False
     | c # cs \<Rightarrow> is_lower_alnum c \<and> list_all is_label_char cs \<and> length cs \<le> 63)"

lemma id_pattern_not_empty [simp]: "\<not> id_pattern []"
  by (simp add: id_pattern_def)

lemma hex_digit_id_char: "0 \<le> n \<Longrightarrow> n < 16 \<Longrightarrow> is_id_char (hex_digit n)"
  by (auto simp: is_id_char_def is_alnum_def hex_digit_def byte_of_char_of Let_def)

lemma hex_encode_id_chars: "list_all is_id_char (hex_encode s)"
proof (induction s)
  case Nil
  then show ?case by simp
next
  case (Cons c s)
  then show ?case by (simp add: hex_digit_id_char)
qed

text \<open>An identifier prefix, a hyphen and 12 digest bytes in hex is an identifier.\<close>

lemma id_pattern_digest:
  assumes "id_pattern prefix" and "length prefix + 2 * length d \<le> 127"
  shows "id_pattern (prefix @ ''-'' @ hex_encode d)"
proof (cases prefix)
  case Nil
  with assms show ?thesis by simp
next
  case (Cons c cs)
  have "is_id_char (CHR ''-'')" by (simp add: is_id_char_def)
  with Cons assms hex_encode_id_chars [of d] show ?thesis
    by (simp add: id_pattern_def)
qed

end
