(* ===== verification/GoTime.thy ===== *)
theory GoTime
  imports GoText
begin

text \<open>
  Instants and the text the SQLite adapter stores for them. A \<open>time.Time\<close> is its
  distance in nanoseconds from Go's zero time (January 1 of year 1, UTC), so
  \<open>IsZero\<close> is \<open>t = 0\<close> and \<open>After\<close> and \<open>Before\<close> are the order on \<open>int\<close>. The adapter
  writes instants with \<open>formatTime\<close> (\<open>internal/adapters/sqlite/records.go\<close>), which
  is \<open>UTC().Format(time.RFC3339Nano)\<close>, and every SQL comparison and \<open>ORDER BY\<close> on a
  time column compares that text. RFC3339Nano drops trailing zeros of the
  fraction, so text order and time order differ inside one second; the lemmas
  here say exactly where they agree.
\<close>

type_synonym gtime = int

definition is_zero_time :: "gtime \<Rightarrow> bool" where
  "is_zero_time t \<longleftrightarrow> t = 0"

definition nanos_per_sec :: int where
  "nanos_per_sec = 1000000000"

section \<open>The civil calendar\<close>

definition days_before_year :: "int \<Rightarrow> int" where
  "days_before_year y = 365 * (y - 1) + (y - 1) div 4 - (y - 1) div 100 + (y - 1) div 400"

definition is_leap :: "int \<Rightarrow> bool" where
  "is_leap y \<longleftrightarrow> y mod 4 = 0 \<and> (y mod 100 \<noteq> 0 \<or> y mod 400 = 0)"

lemma div_pred:
  fixes y n :: int
  assumes "0 < n"
  shows "y div n = (y - 1) div n + (if y mod n = 0 then 1 else 0)"
proof (cases "y mod n = 0")
  case True
  then have "y - 1 = (y div n - 1) * n + (n - 1)"
    by (simp add: algebra_simps minus_mod_eq_mult_div [symmetric])
  then have "(y - 1) div n = y div n - 1"
    using assms by (intro int_div_pos_eq [where r = "n - 1"]) (simp_all add: algebra_simps)
  with True show ?thesis by simp
next
  case False
  have "0 < y mod n" using False assms pos_mod_sign [of n y] by linarith
  moreover have "y mod n < n" using assms by simp
  moreover have "y - 1 = y div n * n + (y mod n - 1)" by simp
  ultimately have "(y - 1) div n = y div n"
    by (intro int_div_pos_eq [where r = "y mod n - 1"]) (simp_all add: algebra_simps)
  with False show ?thesis by simp
qed

lemma div_mod_less:
  fixes a b n :: int
  assumes "0 < n"
  shows "a < b \<longleftrightarrow> a div n < b div n \<or> a div n = b div n \<and> a mod n < b mod n"
proof (cases "a div n" "b div n" rule: linorder_cases)
  case less
  then have "\<not> b \<le> a" using zdiv_mono1 [of b a n] assms by auto
  with less show ?thesis by simp
next
  case equal
  then have "a div n * n = b div n * n" by simp
  then have "a < b \<longleftrightarrow> a mod n < b mod n"
    using div_mult_mod_eq [of a n] div_mult_mod_eq [of b n] by linarith
  with equal show ?thesis by auto
next
  case greater
  then have "\<not> a \<le> b" using zdiv_mono1 [of a b n] assms by auto
  with greater show ?thesis by simp
qed

lemma leap_day_count:
  assumes "R \<Longrightarrow> Q" and "Q \<Longrightarrow> P"
  shows "(365 + (if P then 1 else 0) - (if Q then 1 else 0) + (if R then 1 else 0) :: int) =
    (if P \<and> (\<not> Q \<or> R) then 366 else 365)"
  using assms by (cases P; cases Q; cases R) simp_all

lemma days_before_year_Suc:
  "days_before_year (y + 1) = days_before_year y + (if is_leap y then 366 else 365)"
proof -
  have m: "y mod 400 = 0 \<Longrightarrow> y mod 100 = 0" "y mod 100 = 0 \<Longrightarrow> y mod 4 = 0"
    using dvd_trans [of 100 400 y] dvd_trans [of 4 100 y]
    by (simp_all add: dvd_eq_mod_eq_0)
  have "days_before_year (y + 1) = 365 * y + y div 4 - y div 100 + y div 400"
    by (simp add: days_before_year_def)
  also have "\<dots> = days_before_year y + (365 + (if y mod 4 = 0 then 1 else 0)
      - (if y mod 100 = 0 then 1 else 0) + (if y mod 400 = 0 then 1 else 0))"
    unfolding days_before_year_def div_pred [of 4 y, simplified]
      div_pred [of 100 y, simplified] div_pred [of 400 y, simplified] by simp
  also have "(365 + (if y mod 4 = 0 then 1 else 0) - (if y mod 100 = 0 then 1 else 0)
      + (if y mod 400 = 0 then 1 else 0) :: int) = (if is_leap y then 366 else 365)"
    unfolding is_leap_def by (rule leap_day_count [OF m])
  finally show ?thesis .
qed

lemma days_before_year_less: "days_before_year y < days_before_year (y + 1)"
  by (simp add: days_before_year_Suc)

lemma days_before_year_mono: "y \<le> z \<Longrightarrow> days_before_year y \<le> days_before_year z"
proof (induction z rule: int_ge_induct)
  case base
  then show ?case by simp
next
  case (step z)
  then show ?case using days_before_year_less [of z] by simp
qed

lemma days_before_year_le_366: "1 \<le> y \<Longrightarrow> days_before_year y \<le> 366 * (y - 1)"
proof (induction y rule: int_ge_induct)
  case base
  then show ?case by (simp add: days_before_year_def)
next
  case (step y)
  then show ?case by (auto simp: days_before_year_Suc)
qed

text \<open>The year of a day number, searched upwards from a lower bound.\<close>

function year_from :: "int \<Rightarrow> int \<Rightarrow> int" where
  "year_from y d = (if days_before_year (y + 1) \<le> d then year_from (y + 1) d else y)"
  by pat_completeness auto
termination
proof (relation "measure (\<lambda>(y, d). nat (d + 1 - days_before_year y))")
  show "wf (measure (\<lambda>(y, d). nat (d + 1 - days_before_year y)))" by simp
  show "((y + 1, d), y, d) \<in> measure (\<lambda>(y, d). nat (d + 1 - days_before_year y))"
    if "days_before_year (y + 1) \<le> d" for y d
    using that days_before_year_less [of y] by simp
qed

declare year_from.simps [simp del]

lemma year_from_bounds:
  "days_before_year y \<le> d \<Longrightarrow>
     days_before_year (year_from y d) \<le> d \<and> d < days_before_year (year_from y d + 1) \<and> y \<le> year_from y d"
proof (induction y d rule: year_from.induct)
  case (1 y d)
  show ?case
  proof (cases "days_before_year (y + 1) \<le> d")
    case True
    with "1.IH" show ?thesis by (simp add: year_from.simps [of y d])
  next
    case False
    with "1.prems" show ?thesis by (simp add: year_from.simps [of y d])
  qed
qed

definition year_of_day :: "int \<Rightarrow> int" where
  "year_of_day d = year_from (d div 366 + 1) d"

lemma year_of_day_bounds:
  assumes "0 \<le> d"
  shows "days_before_year (year_of_day d) \<le> d" and "d < days_before_year (year_of_day d + 1)"
    and "1 \<le> year_of_day d"
proof -
  have "days_before_year (d div 366 + 1) \<le> 366 * (d div 366)"
    using days_before_year_le_366 [of "d div 366 + 1"] assms by simp
  also have "\<dots> \<le> d" by simp
  finally have "days_before_year (d div 366 + 1) \<le> d" .
  from year_from_bounds [OF this] assms
  show "days_before_year (year_of_day d) \<le> d" and "d < days_before_year (year_of_day d + 1)"
    and "1 \<le> year_of_day d"
    unfolding year_of_day_def by (auto simp: pos_imp_zdiv_nonneg_iff intro: order_trans [rotated])
qed

lemma year_of_day_mono:
  assumes "0 \<le> d" and "d \<le> e"
  shows "year_of_day d \<le> year_of_day e"
proof (rule ccontr)
  assume "\<not> ?thesis"
  then have "days_before_year (year_of_day e + 1) \<le> days_before_year (year_of_day d)"
    by (intro days_before_year_mono) simp
  also have "\<dots> \<le> e" using year_of_day_bounds(1) [OF assms(1)] assms(2) by simp
  finally show False using year_of_day_bounds(2) [of e] assms by simp
qed

definition month_lengths :: "int \<Rightarrow> int list" where
  "month_lengths y = [31, if is_leap y then 29 else 28, 31, 30, 31, 30, 31, 31, 30, 31, 30, 31]"

text \<open>Month (from 0) and day of the month (from 0) of a day of the year (from 0).\<close>

fun split_month :: "int list \<Rightarrow> int \<Rightarrow> int \<times> int" where
  "split_month [] d = (0, d)"
| "split_month (l # ls) d =
     (if d < l then (0, d) else (let (m, r) = split_month ls (d - l) in (m + 1, r)))"

lemma split_month_bounds:
  "0 \<le> d \<Longrightarrow> d < sum_list ls \<Longrightarrow> \<forall>l \<in> set ls. l \<le> 31 \<Longrightarrow>
     0 \<le> fst (split_month ls d) \<and> fst (split_month ls d) < int (length ls) \<and>
     0 \<le> snd (split_month ls d) \<and> snd (split_month ls d) < 31"
proof (induction ls arbitrary: d)
  case Nil
  then show ?case by simp
next
  case (Cons l ls)
  show ?case
  proof (cases "d < l")
    case True
    with Cons.prems show ?thesis by simp
  next
    case False
    with Cons.IH [of "d - l"] Cons.prems show ?thesis
      by (auto simp: split_beta)
  qed
qed

lemma split_month_fst_nonneg: "0 \<le> fst (split_month ls d)"
  by (induction ls arbitrary: d) (auto simp: split_beta)

lemma split_month_less:
  "d < e \<Longrightarrow> fst (split_month ls d) < fst (split_month ls e) \<or>
     fst (split_month ls d) = fst (split_month ls e) \<and> snd (split_month ls d) < snd (split_month ls e)"
proof (induction ls arbitrary: d e)
  case Nil
  then show ?case by simp
next
  case (Cons l ls)
  have ih: "fst (split_month ls (d - l)) < fst (split_month ls (e - l)) \<or>
      fst (split_month ls (d - l)) = fst (split_month ls (e - l)) \<and>
      snd (split_month ls (d - l)) < snd (split_month ls (e - l))"
    by (rule Cons.IH) (use Cons.prems in simp)
  show ?case
    using ih Cons.prems split_month_fst_nonneg [of ls "e - l"] by (auto simp: split_beta)
qed

section \<open>Decimal fields\<close>

definition digit_char :: "int \<Rightarrow> char" where
  "digit_char n = char_of (48 + nat n)"

lemma digit_char_less: "0 \<le> a \<Longrightarrow> a < 10 \<Longrightarrow> 0 \<le> b \<Longrightarrow> b < 10 \<Longrightarrow>
    digit_char a < digit_char b \<longleftrightarrow> a < b"
  by (auto simp: digit_char_def less_char_def)

lemma digit_char_eq: "0 \<le> a \<Longrightarrow> a < 10 \<Longrightarrow> 0 \<le> b \<Longrightarrow> b < 10 \<Longrightarrow>
    digit_char a = digit_char b \<longleftrightarrow> a = b"
proof
  assume a: "0 \<le> a" "a < 10" "0 \<le> b" "b < 10" and "digit_char a = digit_char b"
  then have "(of_char (digit_char a) :: nat) = of_char (digit_char b)" by simp
  with a show "a = b" by (simp add: digit_char_def)
qed simp

text \<open>The last \<open>w\<close> decimal digits.\<close>

fun digits :: "nat \<Rightarrow> int \<Rightarrow> string" where
  "digits 0 n = []"
| "digits (Suc w) n = digits w (n div 10) @ [digit_char (n mod 10)]"

lemma length_digits [simp]: "length (digits w n) = w"
  by (induction w arbitrary: n) auto

lemma digits_order:
  "0 \<le> a \<Longrightarrow> 0 \<le> b \<Longrightarrow> a < 10 ^ w \<Longrightarrow> b < 10 ^ w \<Longrightarrow>
     (digits w a < digits w b \<longleftrightarrow> a < b) \<and> (digits w a = digits w b \<longleftrightarrow> a = b)"
proof (induction w arbitrary: a b)
  case 0
  then show ?case by simp
next
  case (Suc w)
  have div: "0 \<le> a div 10" "0 \<le> b div 10" "a div 10 < 10 ^ w" "b div 10 < 10 ^ w"
    using Suc.prems by auto
  have mod: "0 \<le> a mod 10" "a mod 10 < 10" "0 \<le> b mod 10" "b mod 10 < 10" by auto
  note lt = div_mod_less [of 10 a b, simplified]
  have eq: "a = b \<longleftrightarrow> a div 10 = b div 10 \<and> a mod 10 = b mod 10"
    by (metis div_mult_mod_eq)
  have "digits (Suc w) a < digits (Suc w) b \<longleftrightarrow>
      a div 10 < b div 10 \<or> a div 10 = b div 10 \<and> a mod 10 < b mod 10"
    using Suc.IH [OF div] digit_char_less [OF mod] by (simp add: append_less_same_length)
  moreover have "digits (Suc w) a = digits (Suc w) b \<longleftrightarrow>
      a div 10 = b div 10 \<and> a mod 10 = b mod 10"
    using Suc.IH [OF div] digit_char_eq [OF mod] by simp
  ultimately show ?case unfolding lt eq by blast
qed

lemmas digits_less = digits_order [THEN conjunct1]
lemmas digits_eq = digits_order [THEN conjunct2]

text \<open>\<open>time.appendInt\<close>: at least \<open>w\<close> digits, more when the number needs them.\<close>

function decimal :: "int \<Rightarrow> string" where
  "decimal n = (if n < 10 then [digit_char n] else decimal (n div 10) @ [digit_char (n mod 10)])"
  by pat_completeness auto
termination
proof (relation "measure nat")
  show "(n div 10, n) \<in> measure nat" if "\<not> n < 10" for n
    using that by (simp add: nat_less_eq_zless)
qed simp

declare decimal.simps [simp del]

definition append_int :: "nat \<Rightarrow> int \<Rightarrow> string" where
  "append_int w n =
     (if n < 0 then ''-'' @ (if - n < 10 ^ w then digits w (- n) else decimal (- n))
      else if n < 10 ^ w then digits w n else decimal n)"

section \<open>formatTime\<close>

definition second_of :: "gtime \<Rightarrow> int" where
  "second_of t = t div nanos_per_sec"

definition nano_of :: "gtime \<Rightarrow> int" where
  "nano_of t = t mod nanos_per_sec"

text \<open>Year, month, day, hour, minute and second of a second count.\<close>

definition civil :: "int \<Rightarrow> int \<times> int \<times> int \<times> int \<times> int \<times> int" where
  "civil s =
     (let d = s div 86400; r = s mod 86400; y = year_of_day d;
          (m, k) = split_month (month_lengths y) (d - days_before_year y)
      in (y, m + 1, k + 1, r div 3600, r mod 3600 div 60, r mod 3600 mod 60))"

definition date_text :: "int \<times> int \<times> int \<times> int \<times> int \<times> int \<Rightarrow> string" where
  "date_text = (\<lambda>(y, mo, d, h, mi, s).
     append_int 4 y @ ''-'' @ append_int 2 mo @ ''-'' @ append_int 2 d @ ''T'' @
     append_int 2 h @ '':'' @ append_int 2 mi @ '':'' @ append_int 2 s)"

text \<open>The fraction of RFC3339Nano: nine digits without trailing zeros, nothing for 0.\<close>

definition strip_zeros :: "string \<Rightarrow> string" where
  "strip_zeros ds = rev (dropWhile (\<lambda>c. c = CHR ''0'') (rev ds))"

definition fraction_text :: "int \<Rightarrow> string" where
  "fraction_text n = (let f = strip_zeros (digits 9 n) in if f = '''' then '''' else ''.'' @ f)"

definition format_time :: "gtime \<Rightarrow> string" where
  "format_time t = date_text (civil (second_of t)) @ fraction_text (nano_of t) @ ''Z''"

text \<open>SQL comparisons of two time columns, or of a column with a bound time.\<close>

definition text_le :: "gtime \<Rightarrow> gtime \<Rightarrow> bool" where
  "text_le a b \<longleftrightarrow> format_time a \<le> format_time b"

definition text_less :: "gtime \<Rightarrow> gtime \<Rightarrow> bool" where
  "text_less a b \<longleftrightarrow> format_time a < format_time b"

lemma text_le_refl [simp]: "text_le a a"
  by (simp add: text_le_def)

lemma text_le_linear: "text_le a b \<or> text_le b a"
  by (auto simp: text_le_def)

lemma text_le_trans [trans]: "text_le a b \<Longrightarrow> text_le b c \<Longrightarrow> text_le a c"
  by (auto simp: text_le_def)

lemma text_less_iff_not_le: "text_less a b \<longleftrightarrow> \<not> text_le b a"
  by (auto simp: text_le_def text_less_def)

section \<open>Text order against time order\<close>

lemma append_int_digits: "0 \<le> n \<Longrightarrow> n < 10 ^ w \<Longrightarrow> append_int w n = digits w n"
  by (simp add: append_int_def)

definition civil_ok :: "int \<times> int \<times> int \<times> int \<times> int \<times> int \<Rightarrow> bool" where
  "civil_ok = (\<lambda>(y, mo, d, h, mi, s). 0 \<le> y \<and> y < 10000 \<and> 0 \<le> mo \<and> mo < 100 \<and> 0 \<le> d \<and> d < 100 \<and>
     0 \<le> h \<and> h < 100 \<and> 0 \<le> mi \<and> mi < 100 \<and> 0 \<le> s \<and> s < 100)"

fun lex6 :: "int \<times> int \<times> int \<times> int \<times> int \<times> int \<Rightarrow> int \<times> int \<times> int \<times> int \<times> int \<times> int \<Rightarrow> bool" where
  "lex6 (y, mo, d, h, mi, s) (y', mo', d', h', mi', s') \<longleftrightarrow>
     y < y' \<or> y = y' \<and> (mo < mo' \<or> mo = mo' \<and> (d < d' \<or> d = d' \<and> (h < h' \<or> h = h' \<and>
       (mi < mi' \<or> mi = mi' \<and> s < s'))))"

lemma length_date_text: "civil_ok c \<Longrightarrow> length (date_text c) = 19"
  by (auto simp: civil_ok_def date_text_def append_int_digits)

lemma date_text_less:
  assumes "civil_ok a" and "civil_ok b"
  shows "date_text a < date_text b \<longleftrightarrow> lex6 a b"
proof -
  obtain y mo d h mi s where a: "a = (y, mo, d, h, mi, s)" by (cases a)
  obtain y' mo' d' h' mi' s' where b: "b = (y', mo', d', h', mi', s')" by (cases b)
  have f: "(digits w m @ us < digits w n @ vs) \<longleftrightarrow> m < n \<or> m = n \<and> us < vs"
    if "0 \<le> m" "m < 10 ^ w" "0 \<le> n" "n < 10 ^ w" for w m n us vs
    using that by (simp add: append_less_same_length digits_less digits_eq)
  have l: "(digits w m < digits w n) \<longleftrightarrow> m < n"
    if "0 \<le> m" "m < 10 ^ w" "0 \<le> n" "n < 10 ^ w" for w m n
    using that by (simp add: digits_less)
  show ?thesis
    using assms unfolding a b civil_ok_def date_text_def
    by (simp add: append_int_digits f l)
qed

lemma civil_components:
  assumes "0 \<le> s" and "s < 86400 * days_before_year 10000"
  shows "civil_ok (civil s)"
proof -
  let ?d = "s div 86400"
  have d: "0 \<le> ?d" "?d < days_before_year 10000"
    using assms by (auto simp: pos_imp_zdiv_nonneg_iff) 
  have y: "1 \<le> year_of_day ?d" "year_of_day ?d < 10000"
  proof -
    show "1 \<le> year_of_day ?d" by (rule year_of_day_bounds(3) [OF d(1)])
    show "year_of_day ?d < 10000"
    proof (rule ccontr)
      assume "\<not> ?thesis"
      then have "days_before_year 10000 \<le> days_before_year (year_of_day ?d)"
        by (intro days_before_year_mono) simp
      with year_of_day_bounds(1) [OF d(1)] d(2) show False by simp
    qed
  qed
  let ?k = "?d - days_before_year (year_of_day ?d)"
  have "0 \<le> ?k" "?k < sum_list (month_lengths (year_of_day ?d))"
    using year_of_day_bounds(1,2) [OF d(1)] by (auto simp: days_before_year_Suc month_lengths_def)
  then have m: "0 \<le> fst (split_month (month_lengths (year_of_day ?d)) ?k) \<and>
      fst (split_month (month_lengths (year_of_day ?d)) ?k) < 12 \<and>
      0 \<le> snd (split_month (month_lengths (year_of_day ?d)) ?k) \<and>
      snd (split_month (month_lengths (year_of_day ?d)) ?k) < 31"
    using split_month_bounds [of ?k "month_lengths (year_of_day ?d)"]
    by (auto simp: month_lengths_def)
  have c: "0 \<le> r div 3600 \<and> r div 3600 < 24 \<and> 0 \<le> r mod 3600 div 60 \<and>
      r mod 3600 div 60 < 60 \<and> 0 \<le> r mod 3600 mod 60 \<and> r mod 3600 mod 60 < 60"
    if "0 \<le> r" "r < 86400" for r :: int
  proof -
    have "r div 3600 < 24" using that by (simp add: div_less_iff_less_mult)
    moreover have "r mod 3600 div 60 < 60"
      using pos_mod_bound [of 3600 r] by (simp add: div_less_iff_less_mult)
    ultimately show ?thesis using that by (simp add: pos_imp_zdiv_nonneg_iff)
  qed
  show ?thesis
    using y m c [of "s mod 86400"]
    unfolding civil_def civil_ok_def Let_def split_beta by simp
qed

lemma clock_less:
  fixes a b :: int
  assumes "a < b"
  shows "a div 3600 < b div 3600 \<or> a div 3600 = b div 3600 \<and>
    (a mod 3600 div 60 < b mod 3600 div 60 \<or> a mod 3600 div 60 = b mod 3600 div 60 \<and>
      a mod 3600 mod 60 < b mod 3600 mod 60)"
  using assms div_mod_less [of 3600 a b] div_mod_less [of 60 "a mod 3600" "b mod 3600"] by simp

lemma civil_less:
  assumes "0 \<le> s" and "s < t"
  shows "lex6 (civil s) (civil t)"
proof (cases "s div 86400 = t div 86400")
  case True
  have "s mod 86400 < t mod 86400"
    using assms True div_mod_less [of 86400 s t] by simp
  from clock_less [OF this] True show ?thesis
    unfolding civil_def Let_def split_beta lex6.simps by (simp only:) blast
next
  case False
  let ?d = "s div 86400" and ?e = "t div 86400"
  have d: "0 \<le> ?d" "?d < ?e"
    using assms False zdiv_mono1 [of s t 86400] by (auto simp: pos_imp_zdiv_nonneg_iff)
  have le: "year_of_day ?d \<le> year_of_day ?e"
    using d by (intro year_of_day_mono) auto
  show ?thesis
  proof (cases "year_of_day ?d = year_of_day ?e")
    case True
    let ?p = "split_month (month_lengths (year_of_day ?e)) (?d - days_before_year (year_of_day ?e))"
    let ?q = "split_month (month_lengths (year_of_day ?e)) (?e - days_before_year (year_of_day ?e))"
    have "fst ?p < fst ?q \<or> fst ?p = fst ?q \<and> snd ?p < snd ?q"
      by (rule split_month_less) (use d in simp)
    then show ?thesis
      unfolding civil_def Let_def split_beta lex6.simps
      by (simp only: True add_less_cancel_right add_right_cancel) blast
  next
    case False
    with le show ?thesis
      unfolding civil_def Let_def split_beta lex6.simps by simp
  qed
qed

definition storable :: "gtime \<Rightarrow> bool" where
  "storable t \<longleftrightarrow> 0 \<le> t \<and> second_of t < 86400 * days_before_year 10000"

lemma storable_second: "storable t \<Longrightarrow> 0 \<le> second_of t"
  by (simp add: storable_def second_of_def nanos_per_sec_def pos_imp_zdiv_nonneg_iff)

lemma lex6_asym: "lex6 a b \<Longrightarrow> \<not> lex6 b a"
  by (cases a; cases b) auto

lemma lex6_irrefl: "\<not> lex6 a a"
  by (cases a) auto

lemma storable_civil_ok: "storable t \<Longrightarrow> civil_ok (civil (second_of t))"
  using storable_second by (auto simp: storable_def intro: civil_components)

text \<open>Seconds first, then the fractions as text.\<close>

theorem format_time_less:
  assumes "storable t" and "storable u"
  shows "format_time t < format_time u \<longleftrightarrow>
    second_of t < second_of u \<or>
    second_of t = second_of u \<and> fraction_text (nano_of t) @ ''Z'' < fraction_text (nano_of u) @ ''Z''"
proof -
  let ?a = "civil (second_of t)" and ?b = "civil (second_of u)"
  have ok: "civil_ok ?a" "civil_ok ?b" using assms by (simp_all add: storable_civil_ok)
  have l: "length (date_text ?a) = length (date_text ?b)"
    using ok by (simp add: length_date_text)
  have lt: "date_text ?a < date_text ?b \<longleftrightarrow> second_of t < second_of u"
    unfolding date_text_less [OF ok]
    using civil_less storable_second assms lex6_asym lex6_irrefl
    by (metis linorder_neqE)
  have gt: "date_text ?b < date_text ?a \<longleftrightarrow> second_of u < second_of t"
    unfolding date_text_less [OF ok(2,1)]
    using civil_less storable_second assms lex6_asym lex6_irrefl
    by (metis linorder_neqE)
  have eq: "date_text ?a = date_text ?b \<longleftrightarrow> second_of t = second_of u"
    using lt gt by (metis linorder_neqE order_less_irrefl)
  show ?thesis
    unfolding format_time_def append_less_same_length [OF l] lt eq ..
qed

lemma text_le_seconds:
  assumes "storable t" "storable u" "second_of t < second_of u"
  shows "text_less t u" "text_le t u" "\<not> text_le u t" "\<not> text_less u t"
proof -
  show "text_less t u" using assms by (simp add: text_less_def format_time_less)
  then show "text_le t u" "\<not> text_le u t" "\<not> text_less u t"
    by (auto simp: text_le_def text_less_def)
qed


lemma strip_zeros_pad: "strip_zeros ds @ replicate (length ds - length (strip_zeros ds)) (CHR ''0'') = ds"
proof -
  let ?z = "takeWhile (\<lambda>c. c = CHR ''0'') (rev ds)"
  have "?z = replicate (length ?z) (CHR ''0'')"
    by (rule replicate_eqI [symmetric, THEN sym]) (auto dest: set_takeWhileD)
  moreover have "ds = strip_zeros ds @ rev ?z"
    unfolding strip_zeros_def by (metis rev_append rev_rev_ident takeWhile_dropWhile_id)
  moreover have "length ?z = length ds - length (strip_zeros ds)"
    using calculation(2) by (metis add_diff_cancel_left' length_append length_rev)
  ultimately show ?thesis by (metis rev_replicate)
qed

lemma strip_zeros_inject:
  "length ds = length es \<Longrightarrow> strip_zeros ds = strip_zeros es \<Longrightarrow> ds = es"
  by (metis strip_zeros_pad)

lemma nano_of_bounds: "0 \<le> nano_of t" "nano_of t < 10 ^ 9"
  by (simp_all add: nano_of_def nanos_per_sec_def)

lemma fraction_text_inject:
  assumes "fraction_text (nano_of t) @ ''Z'' = fraction_text (nano_of u) @ ''Z''"
  shows "nano_of t = nano_of u"
proof -
  have "strip_zeros (digits 9 (nano_of t)) = strip_zeros (digits 9 (nano_of u))"
    using assms by (auto simp: fraction_text_def Let_def split: if_splits)
  then have "digits 9 (nano_of t) = digits 9 (nano_of u)"
    by (rule strip_zeros_inject [rotated]) simp
  then show ?thesis
    using digits_eq [OF nano_of_bounds(1) nano_of_bounds(1) nano_of_bounds(2) nano_of_bounds(2)] by simp
qed

lemma split_time: "t = second_of t * nanos_per_sec + nano_of t"
  by (simp add: second_of_def nano_of_def)

text \<open>The stored text determines the instant.\<close>

lemma format_time_inject:
  assumes "storable t" and "storable u" and "format_time t = format_time u"
  shows "t = u"
proof -
  have "\<not> format_time t < format_time u" "\<not> format_time u < format_time t"
    using assms(3) by simp_all
  then have "second_of t = second_of u"
    using assms(1,2) by (auto simp: format_time_less)
  then have "fraction_text (nano_of t) @ ''Z'' = fraction_text (nano_of u) @ ''Z''"
    using assms(3) by (simp add: format_time_def)
  then have "nano_of t = nano_of u" by (rule fraction_text_inject)
  with \<open>second_of t = second_of u\<close> show ?thesis
    using split_time [of t] split_time [of u] by simp
qed

lemma second_of_less_or_eq: "t < u \<Longrightarrow> second_of t \<le> second_of u"
  by (simp add: second_of_def nanos_per_sec_def zdiv_mono1)

text \<open>Text order and time order disagree only inside one second.\<close>

lemma text_le_within_second:
  assumes "storable t" and "storable u" and "text_le t u"
  shows "second_of t \<le> second_of u" and "t < u + nanos_per_sec"
proof -
  show s: "second_of t \<le> second_of u"
    using assms text_le_seconds(3) [of u t] by (meson not_le)
  have "nano_of t < nanos_per_sec" "0 \<le> nano_of u"
    by (simp_all add: nano_of_def nanos_per_sec_def)
  with s show "t < u + nanos_per_sec"
    using split_time [of t] split_time [of u]
    by (simp add: nanos_per_sec_def)
qed

text \<open>Instants with as many fraction digits as each other keep their order.\<close>

definition whole_second :: "gtime \<Rightarrow> bool" where
  "whole_second t \<longleftrightarrow> storable t \<and> nano_of t = 0"

lemma whole_second_text:
  assumes "whole_second t" and "whole_second u"
  shows "text_less t u \<longleftrightarrow> t < u" and "text_le t u \<longleftrightarrow> t \<le> u"
proof -
  have lt: "text_less t u \<longleftrightarrow> second_of t < second_of u" if "whole_second t" "whole_second u" for t u
    using that by (auto simp: whole_second_def text_less_def format_time_less)
  have eq: "t < u \<longleftrightarrow> second_of t < second_of u" if "whole_second t" "whole_second u" for t u
  proof -
    have "nano_of t = 0" "nano_of u = 0" using that by (simp_all add: whole_second_def)
    then show ?thesis
      using split_time [of t] split_time [of u] unfolding nanos_per_sec_def by linarith
  qed
  show "text_less t u \<longleftrightarrow> t < u" using assms by (simp add: lt eq)
  show "text_le t u \<longleftrightarrow> t \<le> u"
    using assms text_less_iff_not_le [of u t] by (simp add: lt eq linorder_not_less [symmetric])
qed
end
