(* ===== verification/GoFloat.thy ===== *)
theory GoFloat
  imports Complex_Main Prelude "HOL-Library.Log_Nat"
begin

text \<open>
  IEEE 754 binary64 arithmetic as Go defines it for \<open>float64\<close>: the finite values
  are rationals, every operation is the exact result rounded to nearest, ties to
  even, with gradual underflow and overflow to infinity; comparisons with NaN are
  false. The two zeros are one value, which no code modelled here can observe.
  A \<open>float32\<close> vector component converts to \<open>float64\<close> exactly and is a \<open>f64\<close> too.
\<close>

datatype f64 = NaN | PInf | NInf | Fin rat

fun f64_less :: "f64 \<Rightarrow> f64 \<Rightarrow> bool" where
  "f64_less (Fin a) (Fin b) = (a < b)"
| "f64_less NInf (Fin b) = True"
| "f64_less NInf PInf = True"
| "f64_less (Fin a) PInf = True"
| "f64_less a b = False"

definition f64_eq :: "f64 \<Rightarrow> f64 \<Rightarrow> bool" where
  "f64_eq a b \<longleftrightarrow> a \<noteq> NaN \<and> a = b"

definition f64_le :: "f64 \<Rightarrow> f64 \<Rightarrow> bool" where
  "f64_le a b \<longleftrightarrow> f64_less a b \<or> f64_eq a b"

fun f64_finite :: "f64 \<Rightarrow> bool" where
  "f64_finite (Fin a) = True"
| "f64_finite a = False"

lemma f64_finite_iff: "f64_finite x \<longleftrightarrow> (\<exists>a. x = Fin a)"
  by (cases x) auto

lemma f64_eq_Fin [simp]: "f64_eq (Fin a) (Fin b) \<longleftrightarrow> a = b"
  by (simp add: f64_eq_def)

lemma f64_le_Fin [simp]: "f64_le (Fin a) (Fin b) \<longleftrightarrow> a \<le> b"
  by (auto simp: f64_le_def)

section \<open>Rounding\<close>

definition round_half_even :: "rat \<Rightarrow> int" where
  "round_half_even x =
     (let f = \<lfloor>x\<rfloor>; d = x - of_int f
      in if d < 1 / 2 then f else if d > 1 / 2 then f + 1 else if even f then f else f + 1)"

lemma round_half_even_of_int [simp]: "round_half_even (of_int n) = n"
  by (simp add: round_half_even_def)

lemma round_half_even_bounds: "\<lfloor>x\<rfloor> \<le> round_half_even x" "round_half_even x \<le> \<lfloor>x\<rfloor> + 1"
  by (auto simp: round_half_even_def Let_def)

lemma round_half_even_mono: "x \<le> y \<Longrightarrow> round_half_even x \<le> round_half_even y"
proof -
  assume le: "x \<le> y"
  then have f: "\<lfloor>x\<rfloor> \<le> \<lfloor>y\<rfloor>" by (rule floor_mono)
  show ?thesis
  proof (cases "\<lfloor>x\<rfloor> = \<lfloor>y\<rfloor>")
    case True
    with le show ?thesis by (auto simp: round_half_even_def Let_def)
  next
    case False
    with f have "\<lfloor>x\<rfloor> + 1 \<le> \<lfloor>y\<rfloor>" by simp
    then show ?thesis using round_half_even_bounds [of x] round_half_even_bounds [of y] by simp
  qed
qed

text \<open>\<open>ilog2 x\<close> is the exponent \<open>e\<close> with \<open>2 powi e \<le> x < 2 powi (e + 1)\<close>, for \<open>x > 0\<close>.\<close>

definition ilog2 :: "rat \<Rightarrow> int" where
  "ilog2 x = (let (n, d) = quotient_of x; e = bitlen n - bitlen d
              in if 2 powi e \<le> x then e else e - 1)"

lemma bitlen_powi:
  assumes "0 < n"
  shows "2 powi (bitlen n - 1) \<le> (of_int n :: rat)" and "(of_int n :: rat) < 2 powi bitlen n"
proof -
  have b: "1 \<le> bitlen n"
    using bitlen_nonneg [of n] bitlen_eq_zero_iff [of n] assms by linarith
  have "of_int (2 ^ nat (bitlen n - 1)) \<le> (of_int n :: rat)"
    and "(of_int n :: rat) < of_int (2 ^ nat (bitlen n))"
    using bitlen_bounds [OF assms] by (simp_all only: of_int_le_iff of_int_less_iff)
  then show "2 powi (bitlen n - 1) \<le> (of_int n :: rat)" and "(of_int n :: rat) < 2 powi bitlen n"
    using b by (simp_all add: power_int_def)
qed

lemma ilog2_bounds:
  assumes "0 < x"
  shows "2 powi ilog2 x \<le> x" and "x < 2 powi (ilog2 x + 1)"
proof -
  obtain n d where nd: "quotient_of x = (n, d)" by fastforce
  have d: "0 < d" using quotient_of_denom_pos [OF nd] .
  have x: "x = of_int n / of_int d" using quotient_of_div [OF nd] .
  then have n: "0 < n" using assms d by (simp add: zero_less_divide_iff)
  note pn = bitlen_powi [OF n] and pd = bitlen_powi [OF d]
  let ?e = "bitlen n - bitlen d"
  have "x < 2 powi bitlen n / 2 powi (bitlen d - 1)"
    unfolding x using pn pd d n by (intro frac_less) auto
  then have up: "x < 2 powi (?e + 1)"
    by (simp add: power_int_diff power_int_add field_simps)
  have "2 powi (bitlen n - 1) / 2 powi bitlen d < x"
    unfolding x using pn pd d n by (intro frac_less2) auto
  then have low: "2 powi (?e - 1) < x"
    by (simp add: power_int_diff power_int_add field_simps)
  show "2 powi ilog2 x \<le> x" "x < 2 powi (ilog2 x + 1)"
    using up low by (auto simp: ilog2_def nd Let_def)
qed


text \<open>The exponent of the last place: 53 significant bits, at least the subnormal place.\<close>

definition ulp_exp :: "rat \<Rightarrow> int" where
  "ulp_exp x = max (ilog2 x - 52) (- 1074)"

definition round_pos :: "rat \<Rightarrow> rat" where
  "round_pos x = (let k = ulp_exp x in of_int (round_half_even (x / 2 powi k)) * 2 powi k)"

definition f64_round :: "rat \<Rightarrow> f64" where
  "f64_round x =
     (if x = 0 then Fin 0
      else let r = round_pos \<bar>x\<bar>
           in if r \<ge> 2 ^ 1024 then (if 0 < x then PInf else NInf)
              else Fin (if 0 < x then r else - r))"

lemma power_int_less_cancel: "(2::rat) powi a < 2 powi b \<Longrightarrow> a < b"
  using power_int_increasing [of b a "2::rat"] by (meson linorder_not_less one_le_numeral zero_neq_numeral not_le)

lemma ilog2_mono: assumes "0 < x" and "x \<le> y" shows "ilog2 x \<le> ilog2 y"
proof -
  have "2 powi ilog2 x < (2 :: rat) powi (ilog2 y + 1)"
    using ilog2_bounds [OF assms(1)] ilog2_bounds [of y] assms by linarith
  then show ?thesis using power_int_less_cancel by fastforce
qed

lemma ulp_exp_mono: "0 < x \<Longrightarrow> x \<le> y \<Longrightarrow> ulp_exp x \<le> ulp_exp y"
  using ilog2_mono [of x y] by (auto simp: ulp_exp_def)

lemma round_pos_nonneg: assumes "0 < x" shows "0 \<le> round_pos x"
proof -
  have "0 \<le> x / 2 powi ulp_exp x" using assms by simp
  then have "0 \<le> \<lfloor>x / 2 powi ulp_exp x\<rfloor>" by simp
  then have "0 \<le> round_half_even (x / 2 powi ulp_exp x)"
    using round_half_even_bounds(1) order_trans by blast
  then show ?thesis by (simp add: round_pos_def Let_def)
qed

lemma round_pos_fixed:
  assumes "x = of_int m * 2 powi ulp_exp x"
  shows "round_pos x = x"
proof -
  have "x / 2 powi ulp_exp x = of_int m" using assms by (metis nonzero_mult_div_cancel_right power_int_not_zero zero_neq_numeral)
  then show ?thesis using assms by (simp add: round_pos_def Let_def)
qed

lemma round_pos_mono:
  assumes "0 < x" and "x \<le> y"
  shows "round_pos x \<le> round_pos y"
proof (cases "ulp_exp x = ulp_exp y")
  case True
  have "x / 2 powi ulp_exp y \<le> y / 2 powi ulp_exp y"
    using assms by (simp add: divide_right_mono)
  then show ?thesis
    by (simp add: round_pos_def Let_def True round_half_even_mono)
next
  case False
  let ?k = "ulp_exp x" and ?l = "ulp_exp y"
  have kl: "?k + 1 \<le> ?l" using ulp_exp_mono [OF assms] False by simp
  then have l: "?l = ilog2 y - 52" by (auto simp: ulp_exp_def)
  have "x < 2 powi (ilog2 x + 1)" by (rule ilog2_bounds) (rule assms(1))
  also have "\<dots> \<le> 2 powi (?k + 53)"
    by (rule power_int_increasing) (auto simp: ulp_exp_def)
  finally have "x / 2 powi ?k \<le> of_int (2 ^ 53)"
    by (simp add: power_int_add field_simps)
  then have "round_half_even (x / 2 powi ?k) \<le> 2 ^ 53"
    using round_half_even_mono round_half_even_of_int by metis
  then have a: "of_int (round_half_even (x / 2 powi ?k)) \<le> (2 ^ 53 :: rat)"
    by (metis of_int_le_iff of_int_numeral of_int_power)
  have "round_pos x \<le> 2 ^ 53 * 2 powi ?k"
    unfolding round_pos_def Let_def by (intro mult_right_mono a) simp
  also have "\<dots> = 2 ^ 52 * 2 powi (?k + 1)" by (simp add: power_int_add)
  also have "\<dots> \<le> 2 ^ 52 * 2 powi ?l"
    using kl by (intro mult_left_mono power_int_increasing) auto
  also have "\<dots> \<le> round_pos y"
  proof -
    have "2 powi ilog2 y \<le> y" using ilog2_bounds(1) [of y] assms by simp
    then have "of_int (2 ^ 52) \<le> y / 2 powi ?l"
      unfolding l by (simp add: power_int_diff field_simps)
    then have "2 ^ 52 \<le> round_half_even (y / 2 powi ?l)"
      using round_half_even_mono round_half_even_of_int by metis
    then have "(2 ^ 52 :: rat) \<le> of_int (round_half_even (y / 2 powi ?l))"
      by (metis of_int_le_iff of_int_numeral of_int_power)
    then show ?thesis
      unfolding round_pos_def Let_def by (intro mult_right_mono) auto
  qed
  finally show ?thesis .
qed

lemma ilog2_powi: "ilog2 (2 powi e) = e"
proof -
  have "2 powi ilog2 (2 powi e) \<le> (2::rat) powi e" by (rule ilog2_bounds) simp
  also have "(2::rat) powi e < 2 powi (e + 1)" by (simp add: power_int_add)
  finally have "ilog2 (2 powi e) < e + 1" by (rule power_int_less_cancel)
  moreover have "(2::rat) powi e < 2 powi (ilog2 (2 powi e) + 1)" by (rule ilog2_bounds) simp
  then have "e < ilog2 (2 powi e) + 1" by (rule power_int_less_cancel)
  ultimately show ?thesis by simp
qed

lemma round_pos_powi: assumes "- 1022 \<le> e" shows "round_pos (2 powi e) = 2 powi e"
proof (rule round_pos_fixed [where m = "2 ^ 52"])
  have "ulp_exp (2 powi e) = e - 52" using assms by (simp add: ulp_exp_def ilog2_powi)
  then show "(2::rat) powi e = of_int (2 ^ 52) * 2 powi ulp_exp (2 powi e)"
    by (simp add: power_int_diff)
qed

lemma round_pos_1 [simp]: "round_pos 1 = 1"
  using round_pos_powi [of 0] by simp

text \<open>Rounding keeps the unit interval.\<close>

lemma f64_round_unit:
  assumes "0 \<le> x" and "x \<le> 1"
  shows "\<exists>r. f64_round x = Fin r \<and> 0 \<le> r \<and> r \<le> 1"
proof (cases "x = 0")
  case True
  then show ?thesis by (simp add: f64_round_def)
next
  case False
  with assms have "0 < x" by simp
  then have "round_pos x \<le> 1" "0 \<le> round_pos x"
    using round_pos_mono [of x 1] assms round_pos_nonneg by auto
  moreover have "(1::rat) < 2 ^ 1024" by (rule one_less_power) auto
  ultimately show ?thesis using \<open>0 < x\<close> by (auto simp: f64_round_def Let_def)
qed

lemma f64_round_finite:
  assumes "\<bar>x\<bar> \<le> 2 powi 1023"
  shows "f64_finite (f64_round x)"
proof (cases "x = 0")
  case True
  then show ?thesis by (simp add: f64_round_def)
next
  case False
  then have "round_pos \<bar>x\<bar> \<le> 2 powi 1023"
    using round_pos_mono [of "\<bar>x\<bar>" "2 powi 1023"] assms round_pos_powi [of 1023] by simp
  also have "(2::rat) powi 1023 < 2 ^ 1024"
    by (metis power_int_numeral less_add_one one_less_numeral_iff power_strict_increasing_iff
        numeral_less_iff semiring_norm(76,78,80,81))
  finally show ?thesis using False by (simp add: f64_round_def Let_def)
qed

lemma f64_round_mono:
  assumes "f64_round x = Fin a" and "f64_round y = Fin b" and "x \<le> y"
  shows "a \<le> b"
  using assms round_pos_mono [of "\<bar>x\<bar>" "\<bar>y\<bar>"] round_pos_mono [of "\<bar>y\<bar>" "\<bar>x\<bar>"]
    round_pos_nonneg [of "\<bar>x\<bar>"] round_pos_nonneg [of "\<bar>y\<bar>"]
  by (auto simp: f64_round_def Let_def split: if_splits)

text \<open>For evaluation, overflow is read off the exponent.\<close>

lemma f64_round_code [code]:
  "f64_round x =
     (if x = 0 then Fin 0
      else let r = round_pos \<bar>x\<bar>
           in if 0 < r \<and> 1024 \<le> ilog2 r then (if 0 < x then PInf else NInf)
              else Fin (if 0 < x then r else - r))"
proof -
  have "2 ^ 1024 \<le> r \<longleftrightarrow> 0 < r \<and> 1024 \<le> ilog2 r" for r :: rat
  proof
    assume le: "2 ^ 1024 \<le> r"
    have "(0 :: rat) < 2 ^ 1024" by (rule zero_less_power) simp
    from this le have r: "0 < r" by (rule less_le_trans)
    have "(2 :: rat) powi 1024 < 2 powi (ilog2 r + 1)"
      using le ilog2_bounds(2) [OF r] unfolding power_int_numeral by (rule le_less_trans)
    then show "0 < r \<and> 1024 \<le> ilog2 r" using r power_int_less_cancel by fastforce
  next
    assume r: "0 < r \<and> 1024 \<le> ilog2 r"
    then have "(2 :: rat) powi 1024 \<le> 2 powi ilog2 r" by (intro power_int_increasing) auto
    also have "\<dots> \<le> r" by (rule ilog2_bounds) (use r in simp)
    finally show "2 ^ 1024 \<le> r" unfolding power_int_numeral .
  qed
  then show ?thesis unfolding f64_round_def Let_def by presburger
qed


section \<open>Arithmetic\<close>

definition f64_inf :: "bool \<Rightarrow> f64" where
  "f64_inf positive = (if positive then PInf else NInf)"

fun f64_add :: "f64 \<Rightarrow> f64 \<Rightarrow> f64" where
  "f64_add (Fin a) (Fin b) = f64_round (a + b)"
| "f64_add NaN y = NaN"
| "f64_add x NaN = NaN"
| "f64_add PInf NInf = NaN"
| "f64_add NInf PInf = NaN"
| "f64_add PInf y = PInf"
| "f64_add NInf y = NInf"
| "f64_add x PInf = PInf"
| "f64_add x NInf = NInf"

fun f64_neg :: "f64 \<Rightarrow> f64" where
  "f64_neg (Fin a) = Fin (- a)"
| "f64_neg PInf = NInf"
| "f64_neg NInf = PInf"
| "f64_neg NaN = NaN"

definition f64_sub :: "f64 \<Rightarrow> f64 \<Rightarrow> f64" where
  "f64_sub x y = f64_add x (f64_neg y)"

fun f64_mul :: "f64 \<Rightarrow> f64 \<Rightarrow> f64" where
  "f64_mul (Fin a) (Fin b) = f64_round (a * b)"
| "f64_mul NaN y = NaN"
| "f64_mul x NaN = NaN"
| "f64_mul (Fin a) y = (if a = 0 then NaN else f64_inf ((0 < a) = (y = PInf)))"
| "f64_mul x (Fin b) = (if b = 0 then NaN else f64_inf ((0 < b) = (x = PInf)))"
| "f64_mul x y = f64_inf (x = y)"

text \<open>A zero divisor counts as positive, as the norms and counts divided by are.\<close>

fun f64_div :: "f64 \<Rightarrow> f64 \<Rightarrow> f64" where
  "f64_div (Fin a) (Fin b) =
     (if b = 0 then (if a = 0 then NaN else f64_inf (0 < a)) else f64_round (a / b))"
| "f64_div NaN y = NaN"
| "f64_div x NaN = NaN"
| "f64_div (Fin a) y = Fin 0"
| "f64_div x (Fin b) = f64_inf ((0 \<le> b) = (x = PInf))"
| "f64_div x y = NaN"

text \<open>
  \<open>math.Sqrt\<close>: the correctly rounded root, from an integer root with at least 55
  bits and a sticky half.
\<close>

fun isqrt :: "nat \<Rightarrow> int \<Rightarrow> int \<Rightarrow> int" where
  "isqrt 0 r n = r"
| "isqrt (Suc i) r n = (if (r + 2 ^ i) ^ 2 \<le> n then isqrt i (r + 2 ^ i) n else isqrt i r n)"

fun f64_sqrt :: "f64 \<Rightarrow> f64" where
  "f64_sqrt (Fin q) =
     (if q < 0 then NaN else if q = 0 then Fin 0
      else let s = 54 - ilog2 q div 2; scaled = q * 4 powi s; r = isqrt 57 0 \<lfloor>scaled\<rfloor>;
               sticky = (if of_int (r * r) = scaled then 0 else 1 / 2)
           in f64_round ((of_int r + sticky) / 2 powi s))"
| "f64_sqrt PInf = PInf"
| "f64_sqrt x = NaN"

definition f64_of_int :: "int \<Rightarrow> f64" where
  "f64_of_int n = f64_round (of_int n)"

text \<open>Values with at most 53 significant bits are unchanged.\<close>

lemma f64_round_exact:
  assumes "0 < x" and "x = of_int m * 2 powi ulp_exp x" and "x < 2 ^ 1024"
  shows "f64_round x = Fin x"
  using assms round_pos_fixed [OF assms(2)] by (simp add: f64_round_def Let_def)

lemma f64_round_0 [simp]: "f64_round 0 = Fin 0"
  by (simp add: f64_round_def)

lemma f64_round_1 [simp]: "f64_round 1 = Fin 1"
proof -
  have "(1::rat) < 2 ^ 1024" by (rule one_less_power) auto
  then show ?thesis by (simp add: f64_round_def Let_def)
qed

section \<open>Bounds on rounded results\<close>

lemma round_pos_int:
  assumes "0 < n" and "n < 2 ^ 53" and "- 1022 \<le> e"
  shows "round_pos (of_int n * 2 powi e) = of_int n * 2 powi e"
proof -
  let ?x = "of_int n * 2 powi e :: rat"
  have pos: "0 < ?x" using assms(1) by simp
  have "2 powi ilog2 ?x \<le> ?x" by (rule ilog2_bounds [OF pos])
  also have "?x < 2 powi (53 + e)"
  proof -
    have "(of_int n :: rat) < 2 ^ 53" using assms(2) by (metis of_int_less_iff of_int_numeral of_int_power)
    then show ?thesis by (simp add: power_int_add)
  qed
  finally have "ilog2 ?x < 53 + e" by (rule power_int_less_cancel)
  then have k: "ulp_exp ?x \<le> e" using assms(3) by (simp add: ulp_exp_def)
  define u where "u = ulp_exp ?x"
  have shift: "(2 :: rat) ^ nat (e - u) = 2 powi (e - u)" using k by (simp add: power_int_def u_def)
  have "(2 :: rat) powi (e - u) * 2 powi u = 2 powi e" by (simp flip: power_int_add)
  then have "of_int (n * 2 ^ nat (e - u)) * 2 powi u = ?x" by (simp add: shift mult.assoc)
  then show ?thesis unfolding u_def by (rule round_pos_fixed [OF sym])
qed

lemma powi_less_1024: "a \<le> 1023 \<Longrightarrow> (2 :: rat) powi a < 2 ^ 1024"
proof -
  assume "a \<le> 1023"
  then have "(2 :: rat) powi a \<le> 2 powi 1023" by (intro power_int_increasing) auto
  also have "\<dots> < 2 powi 1024" by (rule power_int_strict_increasing) auto
  finally show ?thesis by simp
qed

lemma f64_round_between:
  assumes "2 powi a \<le> x" and "x \<le> 2 powi b" and "- 1022 \<le> a" and "b \<le> 1023"
  shows "\<exists>r. f64_round x = Fin r \<and> 2 powi a \<le> r \<and> r \<le> 2 powi b"
proof -
  have x: "0 < x" using assms(1) by (metis less_le_trans zero_less_numeral zero_less_power_int)
  have "(2 :: rat) powi a \<le> 2 powi b" using assms(1,2) by (rule order_trans)
  then have ab: "a \<le> b" using power_int_less_cancel [of b a] by (meson linorder_not_less power_int_strict_increasing one_less_numeral_iff semiring_norm(76))
  have "2 powi a \<le> round_pos x" "round_pos x \<le> 2 powi b"
    using round_pos_mono [of "2 powi a" x] round_pos_mono [of x "2 powi b"] x assms ab
      round_pos_powi [of a] round_pos_powi [of b] by auto
  moreover have "round_pos x < 2 ^ 1024"
    using calculation(2) powi_less_1024 [OF assms(4)] by (rule le_less_trans)
  ultimately show ?thesis using x by (auto simp: f64_round_def Let_def)
qed

lemma f64_round_within:
  assumes "\<bar>x\<bar> \<le> of_int n * 2 powi e" and "0 < n" "n < 2 ^ 53" and "- 1022 \<le> e" "e \<le> 900"
  shows "\<exists>r. f64_round x = Fin r \<and> \<bar>r\<bar> \<le> of_int n * 2 powi e"
proof (cases "x = 0")
  case True
  then show ?thesis using assms(2) by (simp add: f64_round_def)
next
  case False
  let ?B = "of_int n * 2 powi e :: rat"
  have "round_pos \<bar>x\<bar> \<le> ?B"
    using round_pos_mono [OF _ assms(1)] False round_pos_int [OF assms(2-4)] by simp
  moreover have "?B < 2 ^ 1024"
  proof -
    have "(of_int n :: rat) < 2 ^ 53" using assms(3) by (metis of_int_less_iff of_int_numeral of_int_power)
    then have "?B < 2 powi (53 + e)" by (simp add: power_int_add)
    also have "\<dots> < 2 ^ 1024" by (rule powi_less_1024) (use assms(5) in simp)
    finally show ?thesis .
  qed
  moreover have "0 \<le> round_pos \<bar>x\<bar>" using False by (intro round_pos_nonneg) simp
  ultimately show ?thesis using False by (auto simp: f64_round_def Let_def)
qed

section \<open>The integer root\<close>

lemma isqrt_bounds:
  assumes "0 \<le> r" and "r ^ 2 \<le> n" and "n < (r + 2 ^ i) ^ 2"
  shows "(isqrt i r n) ^ 2 \<le> n \<and> n < (isqrt i r n + 1) ^ 2 \<and> 0 \<le> isqrt i r n"
  using assms
proof (induction i arbitrary: r)
  case 0
  then show ?case by simp
next
  case (Suc i)
  have two: "r + 2 ^ Suc i = (r + 2 ^ i) + 2 ^ i" by simp
  show ?case
  proof (cases "(r + 2 ^ i) ^ 2 \<le> n")
    case True
    then show ?thesis using Suc.IH [of "r + 2 ^ i"] Suc.prems unfolding two by simp
  next
    case False
    then show ?thesis using Suc.IH [of r] Suc.prems by simp
  qed
qed

lemma f64_sqrt_bounds:
  assumes "0 < q" and "- 2000 \<le> ilog2 q" and "ilog2 q \<le> 2000"
  shows "\<exists>r. f64_sqrt (Fin q) = Fin r \<and> 2 powi (ilog2 q div 2) \<le> r \<and> r \<le> 2 powi (ilog2 q div 2 + 1)"
proof -
  define h where "h = ilog2 q div 2"
  define s where "s = 54 - h"
  let ?scaled = "q * 4 powi s"
  define n where "n = \<lfloor>?scaled\<rfloor>"
  define R where "R = isqrt 57 0 n"
  have e: "2 * h \<le> ilog2 q" "ilog2 q \<le> 2 * h + 1" by (simp_all add: h_def)
  have four: "(4 :: rat) powi k = 2 powi (2 * k)" for k
    using power_int_power [of "2::rat" 2 k] by simp
  have low: "2 powi 108 \<le> ?scaled"
  proof -
    have "2 powi 108 = (2 :: rat) powi (2 * h) * 2 powi (2 * s)" by (simp add: s_def flip: power_int_add)
    also have "\<dots> \<le> 2 powi ilog2 q * 2 powi (2 * s)" using e by (intro mult_right_mono power_int_increasing) auto
    also have "\<dots> \<le> q * 2 powi (2 * s)" using ilog2_bounds(1) [OF assms(1)] by (intro mult_right_mono) auto
    finally show ?thesis by (simp add: four)
  qed
  have high: "?scaled < 2 powi 110"
  proof -
    have "q < 2 powi (ilog2 q + 1)" by (rule ilog2_bounds [OF assms(1)])
    also have "\<dots> \<le> (2 :: rat) powi (2 * h + 2)" using e by (intro power_int_increasing) auto
    finally have "q * 2 powi (2 * s) < 2 powi (2 * h + 2) * 2 powi (2 * s)" by (intro mult_strict_right_mono) auto
    also have "\<dots> = 2 powi 110" by (simp add: s_def flip: power_int_add)
    finally show ?thesis by (simp add: four)
  qed
  have n: "2 ^ 108 \<le> n" "n < 2 ^ 110"
    using low high unfolding n_def by (simp_all add: le_floor_iff floor_less_iff)
  have R: "R ^ 2 \<le> n" "n < (R + 1) ^ 2" "0 \<le> R"
    using isqrt_bounds [of 0 n 57] n unfolding R_def by auto
  have "2 ^ 54 \<le> R"
  proof (rule ccontr)
    assume "\<not> 2 ^ 54 \<le> R"
    then have "(R + 1) ^ 2 \<le> (2 ^ 54) ^ 2" using R(3) by (intro power_mono) auto
    with R(2) n(1) show False by simp
  qed
  moreover have "R < 2 ^ 55"
  proof (rule ccontr)
    assume "\<not> R < 2 ^ 55"
    then have "(2 ^ 55) ^ 2 \<le> R ^ 2" by (intro power_mono) auto
    with R(1) n(2) show False by simp
  qed
  moreover define sticky where "sticky = (if of_int (R * R) = ?scaled then 0 else 1 / 2 :: rat)"
  ultimately have "2 powi 54 \<le> of_int R + sticky" "of_int R + sticky \<le> 2 powi 55"
  proof -
    assume R: "2 ^ 54 \<le> R" "R < 2 ^ 55"
    then have "R + 1 \<le> 2 ^ 55" by simp
    then have "(of_int (R + 1) :: rat) \<le> of_int (2 ^ 55)" "(of_int (2 ^ 54) :: rat) \<le> of_int R"
      using R by (simp_all only: of_int_le_iff)
    then show "2 powi 54 \<le> of_int R + sticky" "of_int R + sticky \<le> 2 powi 55"
      by (simp_all add: sticky_def)
  qed
  then have "2 powi 54 / 2 powi s \<le> (of_int R + sticky) / 2 powi s" "(of_int R + sticky) / 2 powi s \<le> 2 powi 55 / 2 powi s"
    by (simp_all add: divide_right_mono)
  moreover have "(2 :: rat) powi 54 / 2 powi s = 2 powi (54 - s)" "(2 :: rat) powi 55 / 2 powi s = 2 powi (55 - s)"
    by (rule power_int_diff [symmetric], simp)+
  moreover have "54 - s = h" "55 - s = h + 1" by (simp_all add: s_def)
  ultimately have "2 powi h \<le> (of_int R + sticky) / 2 powi s" "(of_int R + sticky) / 2 powi s \<le> 2 powi (h + 1)"
    by simp_all
  moreover have "- 1022 \<le> h" "h + 1 \<le> 1023" using assms(2,3) by (simp_all add: h_def)
  ultimately obtain r where r: "f64_round ((of_int R + sticky) / 2 powi s) = Fin r" "2 powi h \<le> r" "r \<le> 2 powi (h + 1)"
    using f64_round_between by blast
  have "f64_sqrt (Fin q) = f64_round ((of_int R + sticky) / 2 powi s)"
    using assms(1) by (simp add: Let_def s_def h_def R_def n_def sticky_def)
  with r show ?thesis unfolding h_def by auto
qed

end
