(* ===== verification/Domain.thy ===== *)
theory Domain
  imports GoTime GoFloat
begin

text \<open>
  The transport- and storage-independent model of \<open>internal/domain\<close>: identifiers,
  scopes, taxonomy, content, observations, memories and their versions, the three
  functional payloads, episodes, outcomes and working sets, each with its
  \<open>Validate\<close> method. A Go string type with named constants is a datatype with one
  constructor per constant and an \<open>...Other\<close> constructor for any other string, so
  that the \<open>default\<close> branches of the sources are branches here. A validation is a
  check: \<open>None\<close> is \<open>nil\<close>. Two methods range over a Go map of fields; the reported
  error is then the first failing field in some order, and the model reports them in
  the order written; whether a value is valid does not depend on it.
\<close>

type_synonym ident = string

section \<open>validate.go\<close>

definition validate_id :: "string \<Rightarrow> ident \<Rightarrow> bool \<Rightarrow> check" where
  "validate_id field value required =
     (if value = '''' \<and> \<not> required then None
      else err_if (\<not> id_pattern value) (field @ '' must be an opaque 1-128 character identifier''))"

definition validate_required_text :: "string \<Rightarrow> string \<Rightarrow> int \<Rightarrow> check" where
  "validate_required_text field value limit =
     (let value = trim_space value in
      if value = '''' then Some (Errorf (field @ '' is required''))
      else err_if (int (length value) > limit) (field @ '' exceeds the byte limit''))"

definition validate_labels :: "string \<Rightarrow> string list \<Rightarrow> string list \<Rightarrow> bool \<Rightarrow> check" where
  "validate_labels field values known required =
     (if required \<and> length values = 0 then Some (Errorf (field @ '' requires at least one label''))
      else scan_unique (\<lambda>_. None) (field @ '' contains duplicate label'')
        (\<lambda>value. if value \<in> set known then None
           else err_if (\<not> extension_label value) (field @ '' label is neither registered nor an x- extension''))
        [] values)"

record time_range =
  tr_from :: gtime
  tr_to :: "gtime option"

definition time_range_validate :: "string \<Rightarrow> time_range \<Rightarrow> check" where
  "time_range_validate field r = first_error
     [err_if (is_zero_time (tr_from r)) (field @ ''.from is required''),
      err_if (case tr_to r of None \<Rightarrow> False | Some t \<Rightarrow> \<not> tr_from r < t)
        (field @ ''.to must be after from'')]"

lemma validate_id_required [simp]: "validate_id f v True = None \<longleftrightarrow> id_pattern v"
  by (simp add: validate_id_def)

lemma validate_id_optional [simp]: "validate_id f v False = None \<longleftrightarrow> v = '''' \<or> id_pattern v"
  by (simp add: validate_id_def)

lemma validate_required_text_None [simp]:
  "validate_required_text f v m = None \<longleftrightarrow> \<not> is_blank v \<and> int (length (trim_space v)) \<le> m"
  by (auto simp: validate_required_text_def is_blank_def Let_def)

lemma validate_labels_None [simp]:
  "validate_labels f vs known required = None \<longleftrightarrow>
     (required \<longrightarrow> vs \<noteq> []) \<and> distinct vs \<and> (\<forall>v \<in> set vs. v \<in> set known \<or> extension_label v)"
  by (auto simp: validate_labels_def)

lemma time_range_validate_None [simp]:
  "time_range_validate f r = None \<longleftrightarrow>
     tr_from r \<noteq> 0 \<and> (\<forall>t. tr_to r = Some t \<longrightarrow> tr_from r < t)"
  by (auto simp: time_range_validate_def is_zero_time_def split: option.splits)

section \<open>scope.go\<close>

datatype visibility = VisibilityPrivate | VisibilityShared | VisibilityPublic | VisibilityOther string

record scope =
  sc_namespace :: ident
  sc_owner :: ident
  sc_subject :: ident
  sc_actor :: ident
  sc_context :: ident
  sc_visibility :: visibility

definition scope_validate :: "scope \<Rightarrow> check" where
  "scope_validate s = first_error
     [validate_id ''scope.namespace'' (sc_namespace s) True,
      validate_id ''scope.owner'' (sc_owner s) True,
      validate_id ''scope.subject'' (sc_subject s) True,
      validate_id ''scope.actor'' (sc_actor s) True,
      validate_id ''scope.context'' (sc_context s) False,
      (case sc_visibility s of
         VisibilityOther v \<Rightarrow> Some (Errorf ''scope.visibility is invalid'')
       | _ \<Rightarrow> None)]"

definition known_visibility :: "visibility \<Rightarrow> bool" where
  "known_visibility v \<longleftrightarrow> (\<forall>s. v \<noteq> VisibilityOther s)"

lemma scope_validate_None [simp]:
  "scope_validate s = None \<longleftrightarrow>
     id_pattern (sc_namespace s) \<and> id_pattern (sc_owner s) \<and> id_pattern (sc_subject s) \<and>
     id_pattern (sc_actor s) \<and> (sc_context s = '''' \<or> id_pattern (sc_context s)) \<and>
     known_visibility (sc_visibility s)"
  by (auto simp: scope_validate_def known_visibility_def split: visibility.splits)

section \<open>taxonomy.go\<close>

datatype memory_function =
  FunctionFactual | FunctionExperiential | FunctionWorking | FunctionOther string

text \<open>The Go conversion \<open>string(function)\<close>.\<close>

fun function_text :: "memory_function \<Rightarrow> string" where
  "function_text FunctionFactual = ''factual''"
| "function_text FunctionExperiential = ''experiential''"
| "function_text FunctionWorking = ''working''"
| "function_text (FunctionOther s) = s"

fun known_function :: "memory_function \<Rightarrow> bool" where
  "known_function (FunctionOther s) = False"
| "known_function f = True"

definition known_forms :: "string list" where
  "known_forms = [''token-flat'', ''token-planar'', ''token-hierarchical'', ''parametric'', ''latent'']"

definition known_functions :: "string list" where
  "known_functions = [''factual'', ''experiential'', ''working'']"

definition known_dynamics :: "string list" where
  "known_dynamics = [''formation'', ''evolution'', ''retrieval'']"

record taxonomy =
  tx_forms :: "string list"
  tx_functions :: "string list"
  tx_dynamics :: "string list"
  tx_tags :: "string list"

definition taxonomy_validate :: "taxonomy \<Rightarrow> check" where
  "taxonomy_validate t = first_error
     [validate_labels ''taxonomy.forms'' (tx_forms t) known_forms True,
      validate_labels ''taxonomy.functions'' (tx_functions t) known_functions True,
      validate_labels ''taxonomy.dynamics'' (tx_dynamics t) known_dynamics True,
      scan_unique (\<lambda>tag. err_if (\<not> tag_pattern tag) ''taxonomy tag is invalid'')
        ''taxonomy contains duplicate tag'' (\<lambda>_. None) [] (tx_tags t)]"

section \<open>content.go\<close>

datatype part_kind = PartText | PartArtifact | PartOther string

record artifact_ref =
  ar_digest :: string
  ar_media_type :: string
  ar_size :: int

definition has_prefix :: "string \<Rightarrow> string \<Rightarrow> bool" where
  "has_prefix p s \<longleftrightarrow> take (length p) s = p"

definition artifact_validate :: "artifact_ref \<Rightarrow> check" where
  "artifact_validate r =
     (if \<not> has_prefix ''sha256:'' (ar_digest r) then Some (Errorf ''artifact.digest must use sha256'')
      else case hex_decode (drop 7 (ar_digest r)) of
        None \<Rightarrow> Some (Errorf ''artifact.digest must contain 32-byte sha256 hex'')
      | Some decoded \<Rightarrow> first_error
          [err_if (length decoded \<noteq> 32) ''artifact.digest must contain 32-byte sha256 hex'',
           validate_required_text ''artifact.media_type'' (ar_media_type r) 255,
           err_if (ar_size r < 0) ''artifact.size cannot be negative''])"

record content_part =
  cp_kind :: part_kind
  cp_text :: string
  cp_artifact :: "artifact_ref option"

definition part_validate :: "content_part \<Rightarrow> check" where
  "part_validate p =
     (case cp_kind p of
        PartText \<Rightarrow>
          (if cp_artifact p \<noteq> None then Some (Errorf ''text part cannot contain an artifact'')
           else validate_required_text ''content.text'' (cp_text p) (2 ^ 20))
      | PartArtifact \<Rightarrow>
          (case cp_artifact p of
             None \<Rightarrow> Some (Errorf ''artifact part requires only artifact metadata'')
           | Some a \<Rightarrow> (if cp_text p \<noteq> '''' then Some (Errorf ''artifact part requires only artifact metadata'')
                        else artifact_validate a))
      | PartOther k \<Rightarrow> Some (Errorf ''content part kind is unsupported''))"

record content =
  co_parts :: "content_part list"

definition content_validate :: "content \<Rightarrow> check" where
  "content_validate c =
     (if length (co_parts c) = 0 then Some (Errorf ''content requires at least one part'')
      else check_all (\<lambda>p. wrap_check ''content.parts'' (part_validate p)) (co_parts c))"

definition plain_text :: "content \<Rightarrow> string" where
  "plain_text c = join [CHR 0x0A]
     (map (\<lambda>p. trim_space (cp_text p)) (filter (\<lambda>p. cp_kind p = PartText) (co_parts c)))"

lemma content_validate_parts: "content_validate c = None \<Longrightarrow> co_parts c \<noteq> []"
  by (auto simp: content_validate_def split: if_splits)

section \<open>factual.go\<close>

datatype epistemic =
  EpistemicObserved | EpistemicAsserted | EpistemicInferred | EpistemicContested |
  EpistemicUnknown | EpistemicOther string

record factual_memory =
  fm_claim_subject :: ident
  fm_predicate :: string
  fm_object :: content
  fm_epistemic :: epistemic
  fm_confidence :: "f64 option"

definition factual_validate :: "factual_memory \<Rightarrow> check" where
  "factual_validate f = first_error
     [validate_id ''factual.claim_subject'' (fm_claim_subject f) True,
      validate_required_text ''factual.predicate'' (fm_predicate f) 255,
      wrap_check ''factual.object'' (content_validate (fm_object f)),
      (case fm_epistemic f of
         EpistemicOther e \<Rightarrow> Some (Errorf ''factual.epistemic is invalid'')
       | _ \<Rightarrow> None),
      err_if (case fm_confidence f of None \<Rightarrow> False
              | Some c \<Rightarrow> f64_less c (Fin 0) \<or> f64_less (Fin 1) c)
        ''factual.confidence must be within [0,1]'']"

section \<open>experiential.go\<close>

record episode =
  ep_id :: ident
  ep_scope :: scope
  ep_task :: content
  ep_observation_ids :: "ident list"
  ep_started_at :: gtime
  ep_ended_at :: gtime

record outcome =
  oc_id :: ident
  oc_episode_id :: ident
  oc_source :: ident
  oc_kind :: string
  oc_value :: f64
  oc_evidence :: content
  oc_observed_at :: gtime

record lesson_evidence =
  le_episode_id :: ident
  le_outcome_ids :: "ident list"

record usage_feedback =
  uf_trace_id :: ident
  uf_source :: ident
  uf_value :: f64
  uf_recorded_at :: gtime

record experiential_memory =
  em_lesson :: content
  em_evidence :: "lesson_evidence list"
  em_feedback :: "usage_feedback list"

definition experiential_validate :: "experiential_memory \<Rightarrow> check" where
  "experiential_validate e = first_error
     [wrap_check ''experiential.lesson'' (content_validate (em_lesson e)),
      err_if (length (em_evidence e) = 0) ''experiential.evidence requires at least one episode'',
      check_all (\<lambda>v. first_error
          [validate_id ''experiential.evidence.episode_id'' (le_episode_id v) True,
           err_if (length (le_outcome_ids v) = 0) ''experiential lesson evidence requires an outcome''])
        (em_evidence e),
      check_all (\<lambda>f. first_error
          [validate_id ''experiential.feedback.trace_id'' (uf_trace_id f) True,
           validate_id ''experiential.feedback.source'' (uf_source f) True,
           err_if (f64_less (uf_value f) (Fin (- 1)) \<or> f64_less (Fin 1) (uf_value f))
             ''experiential feedback value must be within [-1,1]'',
           err_if (is_zero_time (uf_recorded_at f)) ''experiential feedback recorded_at is required''])
        (em_feedback e)]"

definition episode_validate :: "episode \<Rightarrow> check" where
  "episode_validate e = first_error
     [validate_id ''episode.id'' (ep_id e) True,
      scope_validate (ep_scope e),
      content_validate (ep_task e),
      err_if (is_zero_time (ep_started_at e) \<or> \<not> ep_started_at e < ep_ended_at e)
        ''episode requires ordered start and end times'',
      check_all (\<lambda>i. validate_id ''episode.observation_id'' i True) (ep_observation_ids e)]"

definition outcome_validate :: "outcome \<Rightarrow> check" where
  "outcome_validate o' = first_error
     [validate_id ''outcome.id'' (oc_id o') True,
      validate_id ''outcome.episode_id'' (oc_episode_id o') True,
      validate_id ''outcome.source'' (oc_source o') True,
      validate_required_text ''outcome.kind'' (oc_kind o') 64,
      content_validate (oc_evidence o'),
      err_if (is_zero_time (oc_observed_at o')) ''outcome.observed_at is required'']"

section \<open>working.go\<close>

record working_set =
  ws_id :: ident
  ws_scope :: scope
  ws_task_id :: ident
  ws_goal :: content
  ws_global_recall :: bool
  ws_expires_at :: "gtime option"
  ws_created_at :: gtime
  ws_updated_at :: gtime

record working_memory =
  wm_working_set_id :: ident
  wm_task_id :: ident
  wm_goal :: content
  wm_state :: content
  wm_compacted_from :: "ident list"

definition working_set_validate :: "working_set \<Rightarrow> check" where
  "working_set_validate w = first_error
     [validate_id ''working_set.id'' (ws_id w) True,
      scope_validate (ws_scope w),
      validate_id ''working_set.task_id'' (ws_task_id w) True,
      content_validate (ws_goal w),
      err_if (is_zero_time (ws_created_at w) \<or> ws_updated_at w < ws_created_at w)
        ''working set timestamps are invalid'',
      err_if (case ws_expires_at w of None \<Rightarrow> False | Some t \<Rightarrow> \<not> ws_created_at w < t)
        ''working set expiry must be after creation'']"

definition working_validate :: "working_memory \<Rightarrow> check" where
  "working_validate w = first_error
     [validate_id ''working.working_set_id'' (wm_working_set_id w) True,
      validate_id ''working.task_id'' (wm_task_id w) True,
      wrap_check ''working.goal'' (content_validate (wm_goal w)),
      wrap_check ''working.state'' (content_validate (wm_state w))]"

section \<open>observation.go\<close>

datatype evidence_class = EvidenceUntrusted | EvidenceTrusted | EvidencePolicy | EvidenceOther string

record observation =
  ob_id :: ident
  ob_scope :: scope
  ob_source_kind :: string
  ob_source_reference :: string
  ob_content :: content
  ob_evidence_class :: evidence_class
  ob_policy_authority :: string
  ob_captured_at :: gtime
  ob_metadata :: "string \<rightharpoonup> string"

text \<open>Indexing a Go map: the zero value for an absent key.\<close>

definition metadata_at :: "observation \<Rightarrow> string \<Rightarrow> string" where
  "metadata_at b k = (case ob_metadata b k of None \<Rightarrow> '''' | Some v \<Rightarrow> v)"

definition observation_validate :: "observation \<Rightarrow> check" where
  "observation_validate b = first_error
     [validate_id ''observation.id'' (ob_id b) True,
      scope_validate (ob_scope b),
      validate_required_text ''observation.source_kind'' (ob_source_kind b) 64,
      content_validate (ob_content b),
      err_if (is_zero_time (ob_captured_at b)) ''observation.captured_at is required'',
      (case ob_evidence_class b of
         EvidenceUntrusted \<Rightarrow> err_if (ob_policy_authority b \<noteq> '''') ''non-policy observation cannot name policy authority''
       | EvidenceTrusted \<Rightarrow> err_if (ob_policy_authority b \<noteq> '''') ''non-policy observation cannot name policy authority''
       | EvidencePolicy \<Rightarrow> validate_required_text ''observation.policy_authority'' (ob_policy_authority b) 128
       | EvidenceOther c \<Rightarrow> Some (Errorf ''observation.evidence_class is invalid''))]"

section \<open>memory.go\<close>

datatype memory_state = MemoryActive | MemoryArchived | MemoryForgotten | MemoryOther string

datatype version_state =
  VersionCurrent | VersionSuperseded | VersionArchived | VersionForgotten | VersionStale |
  VersionOther string

record evidence_ref =
  er_observation_id :: ident
  er_part_index :: int
  er_excerpt :: string

record memory =
  me_id :: ident
  me_scope :: scope
  me_function :: memory_function
  me_state :: memory_state
  me_current_version :: int
  me_created_at :: gtime

definition memory_validate :: "memory \<Rightarrow> check" where
  "memory_validate m = first_error
     [validate_id ''memory.id'' (me_id m) True,
      scope_validate (me_scope m),
      err_if (\<not> known_function (me_function m)) ''memory.function is invalid'',
      (case me_state m of MemoryOther s \<Rightarrow> Some (Errorf ''memory.state is invalid'') | _ \<Rightarrow> None),
      err_if (me_current_version m < 1) ''memory.current_version must be positive'',
      err_if (is_zero_time (me_created_at m)) ''memory.created_at is required'']"

record memory_payload =
  pl_factual :: "factual_memory option"
  pl_experiential :: "experiential_memory option"
  pl_working :: "working_memory option"

definition payload_count :: "memory_payload \<Rightarrow> nat" where
  "payload_count p =
     (if pl_factual p \<noteq> None then 1 else 0) + (if pl_experiential p \<noteq> None then 1 else 0) +
     (if pl_working p \<noteq> None then 1 else 0)"

definition payload_validate :: "memory_function \<Rightarrow> memory_payload \<Rightarrow> check" where
  "payload_validate f p =
     (if payload_count p \<noteq> 1 then Some (Errorf ''memory payload must contain exactly one function'')
      else case f of
        FunctionFactual \<Rightarrow>
          (case pl_factual p of None \<Rightarrow> Some (Errorf ''factual memory requires factual payload'')
           | Some m \<Rightarrow> factual_validate m)
      | FunctionExperiential \<Rightarrow>
          (case pl_experiential p of None \<Rightarrow> Some (Errorf ''experiential memory requires experiential payload'')
           | Some m \<Rightarrow> experiential_validate m)
      | FunctionWorking \<Rightarrow>
          (case pl_working p of None \<Rightarrow> Some (Errorf ''working memory requires working payload'')
           | Some m \<Rightarrow> working_validate m)
      | FunctionOther g \<Rightarrow> Some (Errorf ''memory function is invalid''))"

record memory_version =
  mv_id :: ident
  mv_memory_id :: ident
  mv_number :: int
  mv_state :: version_state
  mv_taxonomy :: taxonomy
  mv_valid_time :: time_range
  mv_system_time :: time_range
  mv_conflict_group :: ident
  mv_supersedes :: "ident list"
  mv_derived_from :: "ident list"
  mv_provenance :: "evidence_ref list"
  mv_payload :: memory_payload

definition version_validate :: "memory_function \<Rightarrow> memory_version \<Rightarrow> check" where
  "version_validate f v = first_error
     [validate_id ''memory_version.id'' (mv_id v) True,
      validate_id ''memory_version.memory_id'' (mv_memory_id v) True,
      err_if (mv_number v < 1) ''memory_version.number must be positive'',
      (case mv_state v of VersionOther s \<Rightarrow> Some (Errorf ''memory_version.state is invalid'') | _ \<Rightarrow> None),
      taxonomy_validate (mv_taxonomy v),
      time_range_validate ''memory_version.valid_time'' (mv_valid_time v),
      time_range_validate ''memory_version.system_time'' (mv_system_time v),
      validate_id ''memory_version.conflict_group'' (mv_conflict_group v) False,
      err_if (length (mv_provenance v) = 0) ''memory_version.provenance requires evidence'',
      check_all (\<lambda>e. first_error
          [validate_id ''memory_version.provenance.observation_id'' (er_observation_id e) True,
           err_if (er_part_index e < 0) ''memory_version.provenance.part_index cannot be negative''])
        (mv_provenance v),
      payload_validate f (mv_payload v)]"

section \<open>Which payload a function carries\<close>

lemma payload_count_1 [simp]:
  "payload_count p = Suc 0 \<longleftrightarrow>
     (\<exists>m. p = \<lparr>pl_factual = Some m, pl_experiential = None, pl_working = None\<rparr>) \<or>
     (\<exists>m. p = \<lparr>pl_factual = None, pl_experiential = Some m, pl_working = None\<rparr>) \<or>
     (\<exists>m. p = \<lparr>pl_factual = None, pl_experiential = None, pl_working = Some m\<rparr>)"
  by (cases p) (auto simp: payload_count_def)

text \<open>A payload that validates is the one of its function, and nothing else.\<close>

lemma payload_validate_cases:
  assumes "payload_validate f p = None"
  obtains (factual) m where "f = FunctionFactual"
      "p = \<lparr>pl_factual = Some m, pl_experiential = None, pl_working = None\<rparr>" "factual_validate m = None"
  | (experiential) m where "f = FunctionExperiential"
      "p = \<lparr>pl_factual = None, pl_experiential = Some m, pl_working = None\<rparr>" "experiential_validate m = None"
  | (working) m where "f = FunctionWorking"
      "p = \<lparr>pl_factual = None, pl_experiential = None, pl_working = Some m\<rparr>" "working_validate m = None"
  using assms by (auto simp: payload_validate_def split: if_splits memory_function.splits)

lemma payload_validate_function: "payload_validate f p = None \<Longrightarrow> known_function f"
  by (erule payload_validate_cases) auto

end
