(* ===== verification/Trace.thy ===== *)
theory Trace
  imports Domain
begin

text \<open>
  Operation records and retrieval traces (\<open>internal/domain/trace.go\<close>): what a
  lifecycle mutation leaves behind, and the auditable record of one recall with the
  validation that recomputes its selected-token sum.
\<close>

datatype operation_phase = PhaseObserve | PhasePropose | PhaseApply | PhaseOther string

record operation =
  op_id :: ident
  op_phase :: operation_phase
  op_kind :: string
  op_actor :: ident
  op_target_id :: ident
  op_proposal_id :: ident
  op_strategy_id :: string
  op_occurred_at :: gtime
  op_result :: string

record score_explanation =
  se_lexical :: "f64 option"
  se_semantic :: "f64 option"
  se_rrf :: "f64 option"
  se_trust :: f64
  se_total :: f64

record retrieval_candidate =
  rc_memory_id :: ident
  rc_version_id :: ident
  rc_conflict_group :: ident
  rc_selected :: bool
  rc_duplicate_of :: ident
  rc_estimated_tokens :: int
  rc_score :: score_explanation

record retrieval_authorization =
  ra_principal_id :: ident
  ra_private_owners :: "ident list"
  ra_allow_shared :: bool
  ra_allow_public :: bool

record retrieval_trace =
  rt_id :: ident
  rt_scope :: scope
  rt_query :: string
  rt_strategy_id :: string
  rt_strategy_hash :: string
  rt_fallback_reason :: string
  rt_authorization :: retrieval_authorization
  rt_functions :: "memory_function list"
  rt_include_global_working :: bool
  rt_valid_at :: gtime
  rt_system_at :: gtime
  rt_token_budget :: int
  rt_tokens_used :: int
  rt_candidates :: "retrieval_candidate list"
  rt_started_at :: gtime
  rt_completed_at :: gtime

definition score_validate :: "score_explanation \<Rightarrow> check" where
  "score_validate s = first_error
     [err_if (case se_lexical s of None \<Rightarrow> False | Some v \<Rightarrow> \<not> f64_finite v) ''lexical score is not finite'',
      err_if (case se_semantic s of None \<Rightarrow> False | Some v \<Rightarrow> \<not> f64_finite v) ''semantic score is not finite'',
      err_if (case se_rrf s of None \<Rightarrow> False | Some v \<Rightarrow> \<not> f64_finite v) ''rrf score is not finite'',
      err_if (\<not> f64_finite (se_trust s) \<or> f64_less (se_trust s) (Fin 0) \<or> f64_less (Fin 1) (se_trust s))
        ''trust score must be finite and within [0,1]'',
      err_if (\<not> f64_finite (se_total s)) ''total score is not finite'']"

definition candidate_validate :: "retrieval_candidate \<Rightarrow> check" where
  "candidate_validate c = first_error
     [wrap_check ''candidate'' (validate_id ''retrieval_candidate.memory_id'' (rc_memory_id c) True),
      wrap_check ''candidate'' (validate_id ''retrieval_candidate.version_id'' (rc_version_id c) True),
      wrap_check ''candidate'' (validate_id ''retrieval_candidate.conflict_group'' (rc_conflict_group c) False),
      wrap_check ''candidate'' (validate_id ''retrieval_candidate.duplicate_of'' (rc_duplicate_of c) False),
      err_if (rc_estimated_tokens c < 0 \<or> rc_selected c \<and> rc_duplicate_of c \<noteq> '''')
        ''candidate has invalid selection or token estimate'',
      wrap_check ''candidate score'' (score_validate (rc_score c))]"

definition selected_tokens :: "retrieval_candidate list \<Rightarrow> int" where
  "selected_tokens cs = sum_list (map rc_estimated_tokens (filter rc_selected cs))"

definition trace_validate :: "retrieval_trace \<Rightarrow> check" where
  "trace_validate t = first_error
     [validate_id ''retrieval_trace.id'' (rt_id t) True,
      scope_validate (rt_scope t),
      validate_required_text ''retrieval_trace.query'' (rt_query t) (2 ^ 20),
      validate_required_text ''retrieval_trace.strategy_id'' (rt_strategy_id t) 255,
      err_if (case hex_decode (rt_strategy_hash t) of None \<Rightarrow> True | Some d \<Rightarrow> length d \<noteq> 32)
        ''retrieval trace strategy_hash must be a SHA-256 hex digest'',
      validate_id ''retrieval_trace.authorization.principal_id'' (ra_principal_id (rt_authorization t)) True,
      err_if (length (ra_private_owners (rt_authorization t)) = 0)
        ''retrieval trace authorization requires private owners'',
      scan_unique (\<lambda>owner. validate_id ''retrieval_trace.authorization.private_owner'' owner True)
        ''retrieval trace authorization contains duplicate owner'' (\<lambda>_. None) []
        (ra_private_owners (rt_authorization t)),
      scan_unique (\<lambda>f. err_if (\<not> known_function f) ''retrieval trace function is invalid'')
        ''retrieval trace contains duplicate function'' (\<lambda>_. None) [] (rt_functions t),
      err_if (is_zero_time (rt_valid_at t) \<or> is_zero_time (rt_system_at t))
        ''retrieval trace requires valid_at and system_at'',
      err_if (rt_token_budget t < 0 \<or> rt_tokens_used t < 0 \<or> rt_tokens_used t > rt_token_budget t)
        ''retrieval trace token budget is invalid'',
      err_if (is_zero_time (rt_started_at t) \<or> rt_completed_at t < rt_started_at t)
        ''retrieval trace timestamps are invalid'',
      check_all candidate_validate (rt_candidates t),
      err_if (selected_tokens (rt_candidates t) \<noteq> rt_tokens_used t)
        ''retrieval trace selected token sum does not equal tokens_used'']"

end
