(* ===== verification/Proposals.thy ===== *)
theory Proposals
  imports Trace
begin

text \<open>
  The proposal protocol: typed create and evolution payloads and the proposal that
  carries one as JSON (\<open>internal/application/lifecycle.go\<close>, \<open>proposal.go\<close>), the
  owner policy (\<open>internal/policy/owner.go\<close>) and the lifecycle service that is the
  only way from a proposal to the repository.
\<close>

section \<open>Typed payloads\<close>

record memory_create =
  mc_scope :: scope
  mc_function :: memory_function
  mc_taxonomy :: taxonomy
  mc_payload :: memory_payload
  mc_provenance :: "evidence_ref list"
  mc_valid_time :: "time_range option"
  mc_conflict_group :: ident
  mc_derived_from :: "ident list"

datatype evolution_mode = EvolutionSupersede | EvolutionConflict | EvolutionRebuild | EvolutionOther string

record memory_evolution =
  ev_mode :: evolution_mode
  ev_taxonomy :: taxonomy
  ev_payload :: memory_payload
  ev_provenance :: "evidence_ref list"
  ev_valid_time :: time_range
  ev_conflict_group :: ident
  ev_derived_from :: "ident list"

definition working_task_matches :: "memory_create \<Rightarrow> bool" where
  "working_task_matches c \<longleftrightarrow>
     (case pl_working (mc_payload c) of None \<Rightarrow> True | Some w \<Rightarrow> sc_context (mc_scope c) = wm_task_id w)"

definition create_validate :: "memory_create \<Rightarrow> check" where
  "create_validate c = first_error
     [scope_validate (mc_scope c),
      taxonomy_validate (mc_taxonomy c),
      payload_validate (mc_function c) (mc_payload c),
      err_if (mc_function c = FunctionWorking \<and> \<not> working_task_matches c)
        ''working memory scope context must equal task id'',
      err_if (length (mc_provenance c) = 0) ''memory create provenance is required'',
      (case mc_valid_time c of None \<Rightarrow> None
       | Some r \<Rightarrow> time_range_validate ''memory_create.valid_time'' r)]"

definition evolution_validate :: "memory_function \<Rightarrow> memory_evolution \<Rightarrow> check" where
  "evolution_validate f e = first_error
     [(case ev_mode e of
         EvolutionSupersede \<Rightarrow> None
       | EvolutionConflict \<Rightarrow> None
       | EvolutionRebuild \<Rightarrow> err_if (length (ev_derived_from e) = 0) ''rebuild evolution requires dependencies''
       | EvolutionOther m \<Rightarrow> Some (Errorf ''evolution mode is invalid'')),
      taxonomy_validate (ev_taxonomy e),
      payload_validate f (ev_payload e),
      err_if (length (ev_provenance e) = 0) ''memory evolution provenance is required'',
      time_range_validate ''memory_evolution.valid_time'' (ev_valid_time e)]"

section \<open>The libraries a proposal passes through\<close>

text \<open>
  SHA-256 and the JSON codec, as the sources call them: \<open>json.Valid\<close>, the strict
  decoding (unknown fields and trailing documents refused) of a payload as each of
  the three types it is read as, and \<open>json.Marshal\<close> of the two typed payloads. No
  safety theorem assumes anything about them; \<open>digest_ok\<close> states the length of a digest,
  which the theorems about accepted proposals use.
\<close>

record lib =
  lb_sha256 :: "string \<Rightarrow> string"
  lb_json_valid :: "string \<Rightarrow> bool"
  lb_decode_create :: "string \<Rightarrow> memory_create result"
  lb_decode_evolution :: "string \<Rightarrow> memory_evolution result"
  lb_decode_empty :: "string \<Rightarrow> unit result"
  lb_encode_create :: "memory_create \<Rightarrow> string"
  lb_encode_evolution :: "memory_evolution \<Rightarrow> string"

definition digest_ok :: "lib \<Rightarrow> bool" where
  "digest_ok L \<longleftrightarrow> (\<forall>x. length (lb_sha256 L x) = 32)"

section \<open>proposal.go\<close>

datatype proposal_kind =
  ProposalCreate | ProposalUpdate | ProposalArchive | ProposalForget | ProposalConsolidate |
  ProposalOther string

fun kind_text :: "proposal_kind \<Rightarrow> string" where
  "kind_text ProposalCreate = ''create''"
| "kind_text ProposalUpdate = ''update''"
| "kind_text ProposalArchive = ''archive''"
| "kind_text ProposalForget = ''forget''"
| "kind_text ProposalConsolidate = ''consolidate''"
| "kind_text (ProposalOther s) = s"

record proposal =
  pr_id :: ident
  pr_namespace :: ident
  pr_observation_ids :: "ident list"
  pr_kind :: proposal_kind
  pr_target_id :: ident
  pr_payload :: string
  pr_strategy_id :: string
  pr_strategy_hash :: string
  pr_provider :: string
  pr_model :: string
  pr_created_at :: gtime
  pr_untrusted :: bool

definition targeted_check :: "proposal \<Rightarrow> check" where
  "targeted_check p = first_error
     [err_if ((pr_kind p = ProposalUpdate \<or> pr_kind p = ProposalConsolidate) \<and> length (pr_observation_ids p) = 0)
        ''proposal requires observation evidence'',
      err_if (pr_target_id p = '''') ''proposal requires a target'']"

definition proposal_validate :: "lib \<Rightarrow> proposal \<Rightarrow> check" where
  "proposal_validate L p = first_error
     [err_if (pr_id p = '''' \<or> pr_namespace p = '''' \<or> pr_strategy_id p = '''' \<or>
          (case hex_decode (pr_strategy_hash p) of None \<Rightarrow> True | Some d \<Rightarrow> length d \<noteq> 32) \<or>
          is_zero_time (pr_created_at p))
        ''proposal identity, evidence, strategy, hash, and timestamp are required'',
      (case pr_kind p of
         ProposalCreate \<Rightarrow> first_error
           [err_if (length (pr_observation_ids p) = 0) ''create proposal requires observation evidence'',
            err_if (pr_target_id p \<noteq> '''') ''create proposal cannot name an existing target'']
       | ProposalUpdate \<Rightarrow> targeted_check p
       | ProposalArchive \<Rightarrow> targeted_check p
       | ProposalForget \<Rightarrow> targeted_check p
       | ProposalConsolidate \<Rightarrow> targeted_check p
       | ProposalOther k \<Rightarrow> Some (Errorf ''proposal kind is invalid'')),
      err_if (\<not> lb_json_valid L (pr_payload p)) ''proposal payload must be valid JSON'']"

record policy_decision =
  pd_allow :: bool
  pd_reason_code :: string
  pd_warnings :: "string list"

definition decision :: "bool \<Rightarrow> string \<Rightarrow> policy_decision" where
  "decision a r = \<lparr>pd_allow = a, pd_reason_code = r, pd_warnings = []\<rparr>"

lemma decision_sel [simp]: "pd_allow (decision a r) = a" "pd_reason_code (decision a r) = r"
  by (simp_all add: decision_def)

section \<open>The owner policy\<close>

definition owner_policy :: "lib \<Rightarrow> scope \<Rightarrow> proposal \<Rightarrow> policy_decision result" where
  "owner_policy L sc p =
     (if pr_namespace p \<noteq> sc_namespace sc then Inr (decision False ''namespace_mismatch'')
      else case pr_kind p of
        ProposalCreate \<Rightarrow>
          (case lb_decode_create L (pr_payload p) of
             Inl e \<Rightarrow> Inl (Wrapped ''decode create policy payload'' e)
           | Inr c \<Rightarrow>
               if sc_namespace (mc_scope c) \<noteq> sc_namespace sc \<or> sc_owner (mc_scope c) \<noteq> sc_owner sc \<or>
                  sc_subject (mc_scope c) \<noteq> sc_subject sc \<or> sc_actor (mc_scope c) \<noteq> sc_actor sc
               then Inr (decision False ''scope_mismatch'')
               else Inr (decision True ''owner_create''))
      | ProposalUpdate \<Rightarrow> Inr (decision True ''owner_evolve'')
      | ProposalConsolidate \<Rightarrow> Inr (decision True ''owner_evolve'')
      | ProposalArchive \<Rightarrow>
          (if pr_provider p \<noteq> '''' \<or> pr_untrusted p then Inr (decision False ''model_destructive_change_denied'')
           else Inr (decision True ''owner_state_change''))
      | ProposalForget \<Rightarrow>
          (if pr_provider p \<noteq> '''' \<or> pr_untrusted p then Inr (decision False ''model_destructive_change_denied'')
           else Inr (decision True ''owner_state_change''))
      | ProposalOther k \<Rightarrow> Inr (decision False ''unsupported_operation''))"

lemma owner_policy_reason: "owner_policy L sc p = Inr d \<Longrightarrow> pd_reason_code d \<noteq> ''''"
  by (auto simp: owner_policy_def split: if_splits proposal_kind.splits sum.splits)

section \<open>The lifecycle service\<close>

record applied_mutation =
  am_memory :: memory
  am_version :: memory_version
  am_operation :: operation

text \<open>
  A repository maps its state, an authorized proposal and an instant to its next
  state and an outcome; the service returns the policy decision whenever there was
  one, also next to an error.
\<close>

type_synonym 'st repository =
  "'st \<Rightarrow> proposal \<Rightarrow> scope \<Rightarrow> gtime \<Rightarrow> 'st \<times> applied_mutation result"

definition service_apply ::
  "lib \<Rightarrow> (scope \<Rightarrow> proposal \<Rightarrow> policy_decision result) \<Rightarrow> 'st repository \<Rightarrow>
   'st \<Rightarrow> scope \<Rightarrow> proposal \<Rightarrow> gtime \<Rightarrow> 'st \<times> policy_decision option \<times> applied_mutation result" where
  "service_apply L policy repo st sc p at' =
     (case scope_validate sc of Some e \<Rightarrow> (st, None, Inl e) | None \<Rightarrow>
      case proposal_validate L p of Some e \<Rightarrow> (st, None, Inl e) | None \<Rightarrow>
      if pr_namespace p \<noteq> sc_namespace sc \<or> is_zero_time at' then
        (st, None, Inl (Errorf ''proposal namespace and apply timestamp must match the authorized scope''))
      else case policy sc p of
        Inl e \<Rightarrow> (st, None, Inl (Wrapped ''evaluate apply policy'' e))
      | Inr d \<Rightarrow>
          if pd_reason_code d = '''' then (st, None, Inl (Errorf ''apply policy returned no reason code''))
          else if \<not> pd_allow d then (st, Some d, Inl (ErrPolicyDenied (pd_reason_code d)))
          else case repo st p sc at' of
            (st', Inl e) \<Rightarrow> (st', Some d, Inl (Wrapped ''apply lifecycle proposal'' e))
          | (st', Inr m) \<Rightarrow>
              if op_phase (am_operation m) \<noteq> PhaseApply \<or> op_proposal_id (am_operation m) \<noteq> pr_id p \<or>
                 op_actor (am_operation m) \<noteq> sc_actor sc
              then (st', Some d, Inl (Errorf ''repository returned an invalid apply operation''))
              else (st', Some d, Inr m))"

text \<open>
  The contract between the service and a repository: a failed call leaves the state
  as it was, and a successful one returns an apply record of this proposal. Under
  it the service changes state only when the policy allowed the proposal.
\<close>

locale lifecycle_repository =
  fixes repo :: "'st repository"
  assumes failed_unchanged: "repo st p sc t = (st', Inl e) \<Longrightarrow> st' = st"
    and applied_record: "repo st p sc t = (st', Inr m) \<Longrightarrow>
      op_phase (am_operation m) = PhaseApply \<and> op_proposal_id (am_operation m) = pr_id p"
begin

lemma changed_only_if_allowed:
  assumes "service_apply L policy repo st sc p t = (st', d, r)" and "st' \<noteq> st"
  shows "scope_validate sc = None \<and> proposal_validate L p = None \<and> pr_namespace p = sc_namespace sc \<and>
    (\<exists>pd m. policy sc p = Inr pd \<and> pd_allow pd \<and> pd_reason_code pd \<noteq> '''' \<and> d = Some pd \<and>
       repo st p sc t = (st', Inr m))"
  using assms failed_unchanged [of st p sc t]
  by (auto simp: service_apply_def split: option.splits sum.splits if_splits prod.splits)

lemma success_recorded:
  assumes "service_apply L policy repo st sc p t = (st', d, Inr m)"
  shows "repo st p sc t = (st', Inr m) \<and> op_actor (am_operation m) = sc_actor sc \<and>
    op_proposal_id (am_operation m) = pr_id p \<and> (\<exists>pd. d = Some pd \<and> policy sc p = Inr pd \<and> pd_allow pd)"
  using assms
  by (auto simp: service_apply_def split: option.splits sum.splits if_splits prod.splits)

lemma denied_unchanged:
  assumes "policy sc p = Inr pd" and "\<not> pd_allow pd"
  shows "fst (service_apply L policy repo st sc p t) = st"
  using assms by (auto simp: service_apply_def split: option.splits)

end

end
