(* ===== verification/Closure.thy ===== *)
theory Closure
  imports Prelude
begin

text \<open>
  The recursive common table expressions of the SQLite adapter. Three queries
  (the dependency cycle check and the stale marking of
  \<open>internal/adapters/sqlite/lifecycle.go\<close>, the purge closure of \<open>purge.go\<close>) walk
  \<open>memory_dependencies\<close> from parent to child with \<open>WITH RECURSIVE ... UNION\<close>. SQLite
  evaluates such a query with a queue of rows, each taken once: it emits the row and
  appends the rows joined to it that were not seen before. \<open>recursive_rows\<close> is that
  loop; its result is the reflexive transitive closure of the edge list from the
  initial rows.
\<close>

type_synonym edges = "(string \<times> string) list"

definition children :: "edges \<Rightarrow> string \<Rightarrow> string list" where
  "children deps x = map snd (filter (\<lambda>d. fst d = x) deps)"

lemma set_children [simp]: "set (children deps x) = {c. (x, c) \<in> set deps}"
  by (force simp: children_def)

function (sequential) recursive_rows :: "edges \<Rightarrow> string list \<Rightarrow> string list \<Rightarrow> string list" where
  "recursive_rows deps [] seen = seen"
| "recursive_rows deps (x # queue) seen =
     (let new = remdups (filter (\<lambda>c. c \<notin> set seen) (children deps x)) in
      recursive_rows deps (queue @ new) (seen @ new))"
  by pat_completeness auto

termination
proof (relation "measures [\<lambda>(deps, queue, seen). card (snd ` set deps - set seen),
                           \<lambda>(deps, queue, seen). length queue]")
  show "wf (measures [\<lambda>(deps :: edges, queue :: string list, seen :: string list). card (snd ` set deps - set seen),
                      \<lambda>(deps, queue, seen). length queue])" by simp
next
  fix deps :: edges and x :: string and queue seen new :: "string list"
  assume new: "new = remdups (filter (\<lambda>c. c \<notin> set seen) (children deps x))"
  show "((deps, queue @ new, seen @ new), deps, x # queue, seen)
    \<in> measures [\<lambda>(deps, queue, seen). card (snd ` set deps - set seen), \<lambda>(deps, queue, seen). length queue]"
  proof (cases "new = []")
    case True
    then show ?thesis by simp
  next
    case False
    then obtain c where c: "c \<in> set new" by (cases new) auto
    have "snd ` set deps - set (seen @ new) \<subset> snd ` set deps - set seen"
      using c unfolding new by force
    then have "card (snd ` set deps - set (seen @ new)) < card (snd ` set deps - set seen)"
      by (intro psubset_card_mono) auto
    then show ?thesis by simp
  qed
qed

text \<open>
  The loop invariant: every seen row is reachable from the initial rows, every row
  outside the queue has its children seen.
\<close>

lemma recursive_rows_subset:
  "set seen \<subseteq> set (recursive_rows deps queue seen)"
  by (induction deps queue seen rule: recursive_rows.induct) (auto simp: Let_def)

lemma recursive_rows_sound:
  assumes "set queue \<subseteq> set seen"
  shows "set (recursive_rows deps queue seen) \<subseteq> (set deps)\<^sup>* `` set seen"
  using assms
proof (induction deps queue seen rule: recursive_rows.induct)
  case (1 deps seen)
  then show ?case by auto
next
  case (2 deps x queue seen)
  define new where "new = remdups (filter (\<lambda>c. c \<notin> set seen) (children deps x))"
  have "set (recursive_rows deps (queue @ new) (seen @ new)) \<subseteq> (set deps)\<^sup>* `` set (seen @ new)"
    using 2 by (intro "2.IH" [OF new_def]) auto
  also have "\<dots> \<subseteq> (set deps)\<^sup>* `` set seen"
  proof
    fix y assume "y \<in> (set deps)\<^sup>* `` set (seen @ new)"
    then consider "y \<in> (set deps)\<^sup>* `` set seen" | c where "c \<in> set new" "(c, y) \<in> (set deps)\<^sup>*" by auto
    then show "y \<in> (set deps)\<^sup>* `` set seen"
    proof cases
      case 2
      then have "(x, c) \<in> set deps" by (auto simp: new_def)
      then have "(x, y) \<in> (set deps)\<^sup>*" using 2(2) by (rule converse_rtrancl_into_rtrancl)
      then show ?thesis using "2.prems" by auto
    qed
  qed
  finally show ?case by (simp add: new_def Let_def)
qed

lemma recursive_rows_complete:
  assumes "\<And>y c. y \<in> set seen \<Longrightarrow> y \<notin> set queue \<Longrightarrow> (y, c) \<in> set deps \<Longrightarrow> c \<in> set seen"
  shows "(set deps)\<^sup>* `` set seen \<subseteq> set (recursive_rows deps queue seen)"
  using assms
proof (induction deps queue seen rule: recursive_rows.induct)
  case (1 deps seen)
  have "y \<in> set seen" if "(x, y) \<in> (set deps)\<^sup>*" "x \<in> set seen" for x y
    using that 1 by (induction rule: rtrancl_induct) auto
  then show ?case by auto
next
  case (2 deps x queue seen)
  define new where "new = remdups (filter (\<lambda>c. c \<notin> set seen) (children deps x))"
  have "(set deps)\<^sup>* `` set (seen @ new) \<subseteq> set (recursive_rows deps (queue @ new) (seen @ new))"
  proof (rule "2.IH" [OF new_def])
    fix y c assume y: "y \<in> set (seen @ new)" "y \<notin> set (queue @ new)" "(y, c) \<in> set deps"
    show "c \<in> set (seen @ new)"
    proof (cases "y = x")
      case True
      then show ?thesis using y by (auto simp: new_def)
    next
      case False
      then show ?thesis using y "2.prems" [of y c] by auto
    qed
  qed
  then show ?case by (auto simp: new_def Let_def)
qed

definition reachable_rows :: "edges \<Rightarrow> string list \<Rightarrow> string list" where
  "reachable_rows deps start = (let rows = remdups start in recursive_rows deps rows rows)"

theorem set_reachable_rows: "set (reachable_rows deps start) = (set deps)\<^sup>* `` set start"
proof -
  have "set (recursive_rows deps (remdups start) (remdups start)) \<subseteq> (set deps)\<^sup>* `` set start"
    using recursive_rows_sound [of "remdups start" "remdups start" deps] by simp
  moreover have "(set deps)\<^sup>* `` set start \<subseteq> set (recursive_rows deps (remdups start) (remdups start))"
    using recursive_rows_complete [of "remdups start" "remdups start" deps] by simp
  ultimately show ?thesis by (simp add: reachable_rows_def Let_def)
qed

text \<open>The \<open>descendants\<close> expression of both lifecycle queries.\<close>

definition descendants :: "edges \<Rightarrow> string \<Rightarrow> string list" where
  "descendants deps x = reachable_rows deps (children deps x)"

lemma set_descendants: "set (descendants deps x) = {y. (x, y) \<in> (set deps)\<^sup>+}"
  by (auto simp: descendants_def set_reachable_rows trancl_unfold_left)

section \<open>Edges into a fresh row\<close>

text \<open>
  Rows are only ever added below existing ones: an edge list stays acyclic when all
  new edges lead into one row that has no outgoing edge.
\<close>

lemma acyclic_new_sink:
  assumes "acyclic r" and sink: "\<And>y. (v, y) \<notin> r" and "v \<notin> P"
  shows "acyclic (r \<union> {(p, v) | p. p \<in> P})"
proof -
  let ?s = "r \<union> {(p, v) | p. p \<in> P}"
  have last: "(x, y) \<in> r\<^sup>+ \<or> y = v \<and> x \<noteq> v" if "(x, y) \<in> ?s\<^sup>+" for x y
    using that
  proof (induction rule: trancl_induct)
    case (base y)
    then show ?case using sink \<open>v \<notin> P\<close> by auto
  next
    case (step y z)
    from step.IH show ?case
    proof
      assume xy: "(x, y) \<in> r\<^sup>+"
      have "x \<noteq> v" using xy sink by (auto elim: converse_tranclE)
      then show ?thesis using step.hyps(2) xy by (auto intro: trancl_into_trancl)
    next
      assume "y = v \<and> x \<noteq> v"
      then show ?thesis using step.hyps(2) sink \<open>v \<notin> P\<close> by auto
    qed
  qed
  show ?thesis
  proof (rule acyclicI, rule allI, rule notI)
    fix x assume "(x, x) \<in> ?s\<^sup>+"
    then show False using last [of x x] \<open>acyclic r\<close> by (auto simp: acyclic_def)
  qed
qed

lemma acyclic_subset_edges: "acyclic r \<Longrightarrow> s \<subseteq> r \<Longrightarrow> acyclic s"
  by (rule acyclic_subset)

end
