(* ===== verification/Store.thy ===== *)
theory Store
  imports Proposals Closure "HOL-Library.Word"
begin

text \<open>
  The SQLite database of \<open>internal/adapters/sqlite\<close> as a record of tables. A table
  is the list of its rows; a row is the domain record the adapter encodes into it
  (\<open>migrations/*.sql\<close> hold the columns, keys and constraints). JSON columns hold the
  value they encode, and instants hold the instant: \<open>format_time_inject\<close> shows that
  the stored text determines it. Every SQL comparison of times is on the text
  (\<open>text_le\<close>, \<open>text_less\<close>), every comparison in Go on the instant. Foreign keys are
  enforced at each statement, as the connection string asks. A nullable text column
  that the adapter writes through \<open>NULLIF(?, '')\<close> and reads through \<open>COALESCE(x, '')\<close>
  is the string, with the empty string for NULL.
\<close>

section \<open>Rows\<close>

record fts_row =
  fx_version :: ident
  fx_memory :: ident
  fx_namespace :: ident
  fx_text :: string

record embedding_row =
  eb_version :: ident
  eb_provider :: string
  eb_model :: string
  eb_dimensions :: int
  eb_blob :: "8 word list"
  eb_content_sha256 :: string
  eb_created_at :: gtime

record episode_row =
  es_id :: ident
  es_namespace :: ident
  es_subject :: ident
  es_task :: content
  es_observation_ids :: "ident list"
  es_started_at :: gtime
  es_ended_at :: gtime

datatype working_state = WorkingActive | WorkingExpired | WorkingArchived

record working_row =
  wr_set :: working_set
  wr_state :: working_state

record feedback_row =
  fb_version :: ident
  fb_feedback :: usage_feedback

datatype job_state = JobQueued | JobRunning | JobSucceeded | JobFailed | JobCanceled

record job =
  jb_id :: ident
  jb_namespace :: ident
  jb_kind :: string
  jb_state :: job_state
  jb_idempotency_key :: string
  jb_payload :: string
  jb_result :: "string option"
  jb_error_code :: string
  jb_error_message :: string
  jb_attempts :: int
  jb_lease_owner :: string
  jb_lease_expires_at :: "gtime option"
  jb_available_at :: gtime
  jb_created_at :: gtime
  jb_updated_at :: gtime

record event_receipt =
  rr_event_id :: ident
  rr_schema_version :: string
  rr_source :: string
  rr_received_at :: gtime

record receipt_row =
  rw_receipt :: event_receipt
  rw_observation_id :: ident
  rw_job_id :: ident

datatype auth_scope = ScopeMemoryRead | ScopeMemoryWrite | ScopeMemoryPurge | ScopeAdmin | ScopeOther string

record token_spec =
  ts_id :: ident
  ts_principal_id :: ident
  ts_namespace :: ident
  ts_private_owners :: "ident list"
  ts_scopes :: "auth_scope list"
  ts_allow_shared :: bool
  ts_allow_public :: bool
  ts_expires_at :: "gtime option"
  ts_created_at :: gtime

record token_row =
  tk_spec :: token_spec
  tk_sha256 :: string
  tk_revoked_at :: "gtime option"
  tk_last_used_at :: "gtime option"

record purge_receipt =
  pg_id :: ident
  pg_namespace :: ident
  pg_target_id :: ident
  pg_actor :: ident
  pg_versions_deleted :: nat
  pg_artifacts_detached :: nat
  pg_purged_at :: gtime

record artifact_reference =
  rf_digest :: string
  rf_owner_type :: string
  rf_owner_id :: ident

record store =
  st_observations :: "(observation \<times> gtime) list"
  st_memories :: "memory list"
  st_versions :: "memory_version list"
  st_dependencies :: edges
  st_fts :: "fts_row list"
  st_embeddings :: "embedding_row list"
  st_episodes :: "episode_row list"
  st_outcomes :: "outcome list"
  st_working_sets :: "working_row list"
  st_operations :: "operation list"
  st_traces :: "retrieval_trace list"
  st_feedback :: "feedback_row list"
  st_jobs :: "job list"
  st_receipts :: "receipt_row list"
  st_tokens :: "token_row list"
  st_purge_receipts :: "purge_receipt list"
  st_artifact_refs :: "artifact_reference list"

definition empty_store :: store where
  "empty_store = \<lparr>st_observations = [], st_memories = [], st_versions = [], st_dependencies = [],
     st_fts = [], st_embeddings = [], st_episodes = [], st_outcomes = [], st_working_sets = [],
     st_operations = [], st_traces = [], st_feedback = [], st_jobs = [], st_receipts = [],
     st_tokens = [], st_purge_receipts = [], st_artifact_refs = []\<rparr>"

section \<open>Transactions\<close>

text \<open>
  \<open>BeginTx ... defer Rollback ... Commit\<close>: an error leaves the database as it was.
\<close>

definition transaction :: "store \<Rightarrow> (store \<times> 'a) result \<Rightarrow> store \<times> 'a result" where
  "transaction st r = (case r of Inl e \<Rightarrow> (st, Inl e) | Inr (st', x) \<Rightarrow> (st', Inr x))"

lemma transaction_Inl [simp]: "transaction st r = (st', Inl e) \<longleftrightarrow> r = Inl e \<and> st' = st"
  by (auto simp: transaction_def split: sum.splits)

lemma transaction_Inr [simp]: "transaction st r = (st', Inr x) \<longleftrightarrow> r = Inr (st', x)"
  by (auto simp: transaction_def split: sum.splits)

lemma transaction_invariant:
  assumes "P st" and "\<And>st' x. r = Inr (st', x) \<Longrightarrow> P st'"
  shows "P (fst (transaction st r))"
  using assms by (auto simp: transaction_def split: sum.splits)

section \<open>What JSON cannot encode\<close>

text \<open>
  \<open>json.Marshal\<close> fails on NaN, on infinities and on a \<open>time.Time\<close> whose year is
  outside [0, 9999]; no other value of the encoded types fails. The fields of a
  version that hold such values are the confidence of a fact and the feedback of a
  lesson; \<open>-366 * 86400\<close> seconds is the start of year 0.
\<close>

definition json_time :: "gtime \<Rightarrow> bool" where
  "json_time t \<longleftrightarrow> - (366 * 86400) \<le> second_of t \<and> second_of t < 86400 * days_before_year 10000"

definition payload_encodable :: "memory_payload \<Rightarrow> bool" where
  "payload_encodable p \<longleftrightarrow>
     (case pl_factual p of None \<Rightarrow> True
      | Some f \<Rightarrow> (case fm_confidence f of None \<Rightarrow> True | Some c \<Rightarrow> f64_finite c)) \<and>
     (case pl_experiential p of None \<Rightarrow> True
      | Some e \<Rightarrow> list_all (\<lambda>u. f64_finite (uf_value u) \<and> json_time (uf_recorded_at u)) (em_feedback e))"

definition encode_version :: "memory_version \<Rightarrow> check" where
  "encode_version v = err_if (\<not> payload_encodable (mv_payload v)) ''encode memory version field''"

section \<open>records.go: observations, memories and versions\<close>

definition memory_text :: "memory_payload \<Rightarrow> string" where
  "memory_text p =
     (case pl_factual p of
        Some f \<Rightarrow> fm_predicate f @ [CHR 0x0A] @ plain_text (fm_object f)
      | None \<Rightarrow> (case pl_experiential p of
          Some e \<Rightarrow> plain_text (em_lesson e)
        | None \<Rightarrow> (case pl_working p of
            Some w \<Rightarrow> plain_text (wm_goal w) @ [CHR 0x0A] @ plain_text (wm_state w)
          | None \<Rightarrow> '''')))"

definition insert_observation :: "observation \<Rightarrow> gtime \<Rightarrow> store \<Rightarrow> store result" where
  "insert_observation ob stored_at st =
     guard_check (wrap_check ''validate observation'' (observation_validate ob))
      (bind_result
        (wrap_result ''insert observation''
          (insert_row ''observations.id'' (ob_id ob \<in> (ob_id \<circ> fst) ` set (st_observations st))
             (ob, stored_at) (st_observations st)))
        (\<lambda>rows. Inr (st\<lparr>st_observations := rows\<rparr>)))"

definition insert_version_row :: "memory_version \<Rightarrow> store \<Rightarrow> store result" where
  "insert_version_row v st =
     bind_result
      (wrap_result ''insert memory version''
        (insert_row ''memory_versions''
          (mv_id v \<in> mv_id ` set (st_versions st) \<or>
           (mv_memory_id v, mv_number v) \<in> (\<lambda>w. (mv_memory_id w, mv_number w)) ` set (st_versions st) \<or>
           mv_memory_id v \<notin> me_id ` set (st_memories st))
          v (st_versions st)))
      (\<lambda>rows. Inr (st\<lparr>st_versions := rows\<rparr>))"

definition insert_dependency :: "ident \<Rightarrow> ident \<Rightarrow> store \<Rightarrow> store result" where
  "insert_dependency child parent st =
     bind_result
      (wrap_result ''insert memory dependency''
        (insert_row ''memory_dependencies''
          ((parent, child) \<in> set (st_dependencies st) \<or> parent = child \<or>
           parent \<notin> mv_id ` set (st_versions st) \<or> child \<notin> mv_id ` set (st_versions st))
          (parent, child) (st_dependencies st)))
      (\<lambda>rows. Inr (st\<lparr>st_dependencies := rows\<rparr>))"

definition index_version :: "memory \<Rightarrow> memory_version \<Rightarrow> store \<Rightarrow> store" where
  "index_version m v st = st\<lparr>st_fts := st_fts st @
     [\<lparr>fx_version = mv_id v, fx_memory = me_id m, fx_namespace = sc_namespace (me_scope m),
       fx_text = memory_text (mv_payload v)\<rparr>]\<rparr>"

text \<open>The version row, its dependency edges and its index row, in that order.\<close>

definition insert_version_tables :: "memory \<Rightarrow> memory_version \<Rightarrow> store \<Rightarrow> store result" where
  "insert_version_tables m v st =
     bind_result (insert_version_row v st) (\<lambda>st.
     bind_result (fold_result (insert_dependency (mv_id v)) (mv_derived_from v) st) (\<lambda>st.
     Inr (index_version m v st)))"

definition insert_memory_rows :: "memory \<Rightarrow> memory_version \<Rightarrow> store \<Rightarrow> store result" where
  "insert_memory_rows m v st =
     guard_check (wrap_check ''validate memory'' (memory_validate m))
     (guard_check (err_if (mv_memory_id v \<noteq> me_id m \<or> mv_number v \<noteq> me_current_version m)
        ''memory and version identity do not agree'')
     (guard_check (wrap_check ''validate memory version'' (version_validate (me_function m) v))
     (guard_check (encode_version v)
     (bind_result
        (wrap_result ''insert memory''
          (insert_row ''memories.id'' (me_id m \<in> me_id ` set (st_memories st)) m (st_memories st)))
        (\<lambda>rows. insert_version_tables m v (st\<lparr>st_memories := rows\<rparr>))))))"

definition put_observation :: "observation \<Rightarrow> gtime \<Rightarrow> store \<Rightarrow> store \<times> unit result" where
  "put_observation ob now st =
     transaction st (bind_result (insert_observation ob now st) (\<lambda>st'. Inr (st', ())))"

definition put_memory :: "memory \<Rightarrow> memory_version \<Rightarrow> store \<Rightarrow> store \<times> unit result" where
  "put_memory m v st =
     transaction st (bind_result (insert_memory_rows m v st) (\<lambda>st'. Inr (st', ())))"

end
