(* ===== verification/Tokens.thy ===== *)
theory Tokens
  imports Store
begin

text \<open>
  API credentials: the specification and its capabilities (\<open>internal/auth/auth.go\<close>) and
  their storage as digests (\<open>sqlite/auth.go\<close>). The 32 random bytes of a new token are an
  argument; SHA-256 is the digest of the library record.
\<close>

section \<open>Specifications and principals\<close>

record access_scope =
  ac_principal_id :: ident
  ac_namespace :: ident
  ac_private_owners :: "ident list"
  ac_allow_shared :: bool
  ac_allow_public :: bool

record principal =
  pn_token_id :: ident
  pn_principal_id :: ident
  pn_namespace :: ident
  pn_private_owners :: "ident list"
  pn_scopes :: "auth_scope list"
  pn_allow_shared :: bool
  pn_allow_public :: bool

fun known_auth_scope :: "auth_scope \<Rightarrow> bool" where
  "known_auth_scope (ScopeOther s) = False"
| "known_auth_scope s = True"

definition token_spec_validate :: "token_spec \<Rightarrow> check" where
  "token_spec_validate s = first_error
     [err_if (ts_id s = '''' \<or> ts_principal_id s = '''' \<or> ts_namespace s = '''' \<or> ts_private_owners s = [] \<or>
         ts_scopes s = [] \<or> is_zero_time (ts_created_at s))
       ''token id, principal, namespace, private owners, scopes, and creation time are required'',
      err_if (case ts_expires_at s of None \<Rightarrow> False | Some t \<Rightarrow> \<not> ts_created_at s < t)
       ''token expiry must follow creation'',
      scan_unique (\<lambda>owner. err_if (owner = '''') ''token private owner cannot be empty'')
       ''token contains duplicate private owner'' (\<lambda>_. None) [] (ts_private_owners s),
      scan_unique (\<lambda>sc. err_if (\<not> known_auth_scope sc) ''token scope is invalid'')
       ''token contains duplicate scope'' (\<lambda>_. None) [] (ts_scopes s)]"

definition has_scope :: "principal \<Rightarrow> auth_scope \<Rightarrow> bool" where
  "has_scope p sc \<longleftrightarrow> ScopeAdmin \<in> set (pn_scopes p) \<or> sc \<in> set (pn_scopes p)"

definition principal_access :: "principal \<Rightarrow> access_scope" where
  "principal_access p = \<lparr>ac_principal_id = pn_principal_id p, ac_namespace = pn_namespace p,
     ac_private_owners = pn_private_owners p, ac_allow_shared = pn_allow_shared p,
     ac_allow_public = pn_allow_public p\<rparr>"

definition domain_scope :: "principal \<Rightarrow> ident \<Rightarrow> ident \<Rightarrow> ident \<Rightarrow> visibility \<Rightarrow> scope result" where
  "domain_scope p owner subject context visibility =
     guard_check (err_if (owner \<notin> set (pn_private_owners p)) ''principal is not authorized for owner'')
     (let s = \<lparr>sc_namespace = pn_namespace p, sc_owner = owner, sc_subject = subject,
               sc_actor = pn_principal_id p, sc_context = context, sc_visibility = visibility\<rparr> in
      guard_check (scope_validate s) (Inr s))"

section \<open>Storage\<close>

definition raw_token :: "string \<Rightarrow> string" where
  "raw_token secret = ''mx_'' @ hex_encode secret"

definition token_digest :: "lib \<Rightarrow> string \<Rightarrow> string" where
  "token_digest L raw = hex_encode (lb_sha256 L raw)"

definition create_api_token :: "lib \<Rightarrow> token_spec \<Rightarrow> string \<Rightarrow> store \<Rightarrow> store \<times> string result" where
  "create_api_token L spec secret st =
     transaction st
      (guard_check (token_spec_validate spec)
      (let raw = raw_token secret in
       bind_result
        (wrap_result ''store API token''
          (insert_row ''api_tokens''
            (ts_id spec \<in> (ts_id \<circ> tk_spec) ` set (st_tokens st) \<or>
             token_digest L raw \<in> tk_sha256 ` set (st_tokens st) \<or> length (token_digest L raw) \<noteq> 64)
            \<lparr>tk_spec = spec, tk_sha256 = token_digest L raw, tk_revoked_at = None, tk_last_used_at = None\<rparr>
            (st_tokens st)))
        (\<lambda>rows. Inr (st\<lparr>st_tokens := rows\<rparr>, raw))))"

definition token_principal :: "token_spec \<Rightarrow> principal" where
  "token_principal s = \<lparr>pn_token_id = ts_id s, pn_principal_id = ts_principal_id s, pn_namespace = ts_namespace s,
     pn_private_owners = ts_private_owners s, pn_scopes = ts_scopes s, pn_allow_shared = ts_allow_shared s,
     pn_allow_public = ts_allow_public s\<rparr>"

text \<open>
  The stored expiry is parsed back by \<open>parseStoredTime\<close>, whose layout takes the years 0 to
  9999 only (\<open>json_time\<close>): an expiry outside them refuses the token.
\<close>

definition authenticate_token :: "lib \<Rightarrow> string \<Rightarrow> gtime \<Rightarrow> store \<Rightarrow> store \<times> principal result" where
  "authenticate_token L raw at' st =
     (if raw = '''' \<or> is_zero_time at' then (st, Inl ErrInvalidToken)
      else case find_row tk_sha256 (token_digest L raw) (st_tokens st) of
        None \<Rightarrow> (st, Inl ErrInvalidToken)
      | Some r \<Rightarrow>
          if tk_revoked_at r \<noteq> None then (st, Inl ErrInvalidToken)
          else if (case ts_expires_at (tk_spec r) of None \<Rightarrow> False | Some e \<Rightarrow> \<not> json_time e \<or> \<not> at' < e)
          then (st, Inl ErrInvalidToken)
          else (st\<lparr>st_tokens := update_rows (\<lambda>q. ts_id (tk_spec q) = ts_id (tk_spec r))
                   (\<lambda>q. q\<lparr>tk_last_used_at := Some at'\<rparr>) (st_tokens st)\<rparr>,
                Inr (token_principal (tk_spec r))))"

definition revocable :: "ident \<Rightarrow> token_row \<Rightarrow> bool" where
  "revocable i r \<longleftrightarrow> ts_id (tk_spec r) = i \<and> tk_revoked_at r = None"

definition revoke_api_token :: "ident \<Rightarrow> gtime \<Rightarrow> store \<Rightarrow> store \<times> unit result" where
  "revoke_api_token i at' st =
     (if i = '''' \<or> is_zero_time at' then (st, Inl (Errorf ''token id and revocation time are required''))
      else (st\<lparr>st_tokens := update_rows (revocable i) (\<lambda>r. r\<lparr>tk_revoked_at := Some at'\<rparr>) (st_tokens st)\<rparr>,
            if length (filter (revocable i) (st_tokens st)) \<noteq> 1
            then Inl (Errorf ''active API token not found'') else Inr ()))"

definition api_token_count :: "store \<Rightarrow> gtime \<Rightarrow> nat" where
  "api_token_count st at' = length (filter (\<lambda>r. tk_revoked_at r = None \<and>
     (case ts_expires_at (tk_spec r) of None \<Rightarrow> True | Some e \<Rightarrow> text_less at' e)) (st_tokens st))"

section \<open>Credentials as a transition system\<close>

inductive token_step :: "lib \<Rightarrow> store \<Rightarrow> store \<Rightarrow> bool" for L where
  created: "token_step L st (fst (create_api_token L spec secret st))"
| used: "token_step L st (fst (authenticate_token L raw at' st))"
| revoked: "token_step L st (fst (revoke_api_token i at' st))"

definition tokens_ok :: "store \<Rightarrow> bool" where
  "tokens_ok st \<longleftrightarrow> distinct (map (ts_id \<circ> tk_spec) (st_tokens st)) \<and> distinct (map tk_sha256 (st_tokens st)) \<and>
     (\<forall>r \<in> set (st_tokens st). token_spec_validate (tk_spec r) = None)"

text \<open>What may happen to a stored credential: it is used, or revoked once for good.\<close>

definition token_moves :: "token_row \<Rightarrow> token_row \<Rightarrow> bool" where
  "token_moves r q \<longleftrightarrow> tk_spec q = tk_spec r \<and> tk_sha256 q = tk_sha256 r \<and>
     (tk_revoked_at r \<noteq> None \<longrightarrow> tk_revoked_at q = tk_revoked_at r)"

lemma create_api_token_Inr:
  "create_api_token L spec secret st = (st', Inr raw) \<longleftrightarrow>
     token_spec_validate spec = None \<and> raw = raw_token secret \<and>
     ts_id spec \<notin> (ts_id \<circ> tk_spec) ` set (st_tokens st) \<and>
     token_digest L raw \<notin> tk_sha256 ` set (st_tokens st) \<and> length (token_digest L raw) = 64 \<and>
     st' = st\<lparr>st_tokens := st_tokens st @ [\<lparr>tk_spec = spec, tk_sha256 = token_digest L raw,
        tk_revoked_at = None, tk_last_used_at = None\<rparr>]\<rparr>"
  unfolding create_api_token_def transaction_Inr guard_check_Inr bind_result_Inr wrap_result_Inr insert_row_Inr Let_def
  by (auto simp: result_simps)

lemma authenticate_token_Inr:
  "authenticate_token L raw at' st = (st', Inr p) \<longleftrightarrow>
     raw \<noteq> '''' \<and> at' \<noteq> 0 \<and>
     (\<exists>r. find_row tk_sha256 (token_digest L raw) (st_tokens st) = Some r \<and> tk_revoked_at r = None \<and>
        (case ts_expires_at (tk_spec r) of None \<Rightarrow> True | Some e \<Rightarrow> json_time e \<and> at' < e) \<and>
        p = token_principal (tk_spec r) \<and>
        st' = st\<lparr>st_tokens := update_rows (\<lambda>q. ts_id (tk_spec q) = ts_id (tk_spec r))
           (\<lambda>q. q\<lparr>tk_last_used_at := Some at'\<rparr>) (st_tokens st)\<rparr>)"
  by (auto simp: authenticate_token_def is_zero_time_def split: option.splits if_splits)

text \<open>Every call either adds one row or maps the rows one by one.\<close>

definition token_mapped :: "store \<Rightarrow> store \<Rightarrow> bool" where
  "token_mapped st st' \<longleftrightarrow> (\<exists>f. st_tokens st' = map f (st_tokens st) \<and> (\<forall>r. token_moves r (f r)))"

lemma token_mapped_refl [simp]: "token_mapped st st"
  by (auto simp: token_mapped_def token_moves_def intro: exI [of _ id])

lemma token_mapped_update:
  assumes "\<And>r. p r \<Longrightarrow> token_moves r (f r)"
  shows "token_mapped st (st\<lparr>st_tokens := update_rows p f (st_tokens st)\<rparr>)"
  using assms
  by (auto simp: token_mapped_def update_rows_def token_moves_def intro!: exI [of _ "\<lambda>r. if p r then f r else r"])

lemma token_step_cases:
  assumes "token_step L st st'"
  obtains (add) r where "st_tokens st' = st_tokens st @ [r]" "token_spec_validate (tk_spec r) = None"
      "ts_id (tk_spec r) \<notin> (ts_id \<circ> tk_spec) ` set (st_tokens st)" "tk_sha256 r \<notin> tk_sha256 ` set (st_tokens st)"
  | (mapped) "token_mapped st st'"
  using assms
proof cases
  case (created spec secret)
  show thesis
  proof (cases "snd (create_api_token L spec secret st)")
    case (Inl e)
    then have "create_api_token L spec secret st = (st', Inl e)" using created by (metis prod.collapse)
    then have "st' = st" unfolding create_api_token_def transaction_Inl by simp
    then show thesis using mapped by simp
  next
    case (Inr raw)
    then have "create_api_token L spec secret st = (st', Inr raw)" using created by (metis prod.collapse)
    then show thesis unfolding create_api_token_Inr using add by fastforce
  qed
next
  case (used raw at')
  have "token_mapped st st'"
    unfolding used authenticate_token_def
    by (auto simp: token_moves_def split: option.splits intro!: token_mapped_update)
  then show thesis by (rule mapped)
next
  case (revoked i at')
  have "token_mapped st st'"
    unfolding revoked revoke_api_token_def
    by (auto simp: token_moves_def revocable_def intro!: token_mapped_update)
  then show thesis by (rule mapped)
qed

lemma tokens_ok_mapped:
  assumes "tokens_ok st" and "token_mapped st st'"
  shows "tokens_ok st'"
proof -
  from assms(2) obtain f where st': "st_tokens st' = map f (st_tokens st)" and f: "\<And>r. token_moves r (f r)"
    by (auto simp: token_mapped_def)
  from f have "ts_id (tk_spec (f r)) = ts_id (tk_spec r)" "tk_sha256 (f r) = tk_sha256 r" "tk_spec (f r) = tk_spec r" for r
    by (simp_all add: token_moves_def)
  then show ?thesis using assms(1) by (simp add: tokens_ok_def st' comp_def)
qed

lemma token_step_ok:
  assumes "token_step L st st'" and "tokens_ok st"
  shows "tokens_ok st'"
  using assms(1)
proof (cases rule: token_step_cases)
  case (add r)
  then show ?thesis using assms(2) by (auto simp: tokens_ok_def)
next
  case mapped
  then show ?thesis by (rule tokens_ok_mapped [OF assms(2)])
qed

lemma token_step_row:
  assumes "token_step L st st'" and "r \<in> set (st_tokens st)"
  shows "\<exists>q \<in> set (st_tokens st'). token_moves r q"
  using assms(1)
proof (cases rule: token_step_cases)
  case (add q)
  then show ?thesis using assms(2) by (auto simp: token_moves_def)
next
  case mapped
  then show ?thesis using assms(2) by (auto simp: token_mapped_def)
qed

lemma token_steps_ok: "(token_step L)\<^sup>*\<^sup>* st st' \<Longrightarrow> tokens_ok st \<Longrightarrow> tokens_ok st'"
  by (induction rule: rtranclp_induct) (auto intro: token_step_ok)

lemma token_steps_row:
  assumes "(token_step L)\<^sup>*\<^sup>* st st'" and "r \<in> set (st_tokens st)"
  shows "\<exists>q \<in> set (st_tokens st'). token_moves r q"
  using assms(1)
proof (induction rule: rtranclp_induct)
  case base
  then show ?case using assms(2) by (auto simp: token_moves_def)
next
  case (step y z)
  then obtain q where q: "q \<in> set (st_tokens y)" "token_moves r q" by blast
  with token_step_row [OF step.hyps(2)] obtain p where "p \<in> set (st_tokens z)" "token_moves q p" by blast
  with q(2) show ?case by (auto simp: token_moves_def)
qed

lemma tokens_digest_unique:
  "tokens_ok st \<Longrightarrow> r \<in> set (st_tokens st) \<Longrightarrow> q \<in> set (st_tokens st) \<Longrightarrow> tk_sha256 r = tk_sha256 q \<Longrightarrow> r = q"
  by (auto simp: tokens_ok_def distinct_map inj_on_def)

lemma tokens_id_unique:
  "tokens_ok st \<Longrightarrow> r \<in> set (st_tokens st) \<Longrightarrow> q \<in> set (st_tokens st) \<Longrightarrow>
     ts_id (tk_spec r) = ts_id (tk_spec q) \<Longrightarrow> r = q"
  by (auto simp: tokens_ok_def distinct_map inj_on_def)

end
