(* ===== verification/Lifecycle.thy ===== *)
theory Lifecycle
  imports Store
begin

text \<open>
  The mutations of \<open>internal/adapters/sqlite/lifecycle.go\<close>: replay of an applied
  proposal, create, evolution (supersede, rebuild and conflict), archive and forget,
  with the dependency and payload-reference checks they run inside the transaction.
\<close>

section \<open>Reading\<close>

definition lifecycle_id :: "lib \<Rightarrow> string \<Rightarrow> string list \<Rightarrow> ident" where
  "lifecycle_id L prefix vs =
     prefix @ ''-'' @ hex_encode (take 12 (lb_sha256 L (concat (map (\<lambda>v. CHR 0x00 # v) vs))))"

definition load_current_memory :: "store \<Rightarrow> ident \<Rightarrow> (memory \<times> memory_version) result" where
  "load_current_memory st i =
     (case find_row me_id i (st_memories st) of
        None \<Rightarrow> Inl ErrNoRows
      | Some m \<Rightarrow>
          (case find_row (\<lambda>v. (mv_memory_id v, mv_number v)) (me_id m, me_current_version m) (st_versions st) of
             None \<Rightarrow> Inl ErrNoRows
           | Some v \<Rightarrow> Inr (m, v)))"

definition find_apply :: "store \<Rightarrow> ident \<Rightarrow> operation option" where
  "find_apply st i = find (\<lambda>o'. op_phase o' = PhaseApply \<and> op_proposal_id o' = i) (st_operations st)"

definition load_applied_proposal :: "store \<Rightarrow> ident \<Rightarrow> applied_mutation option result" where
  "load_applied_proposal st i =
     (case find_apply st i of
        None \<Rightarrow> Inr None
      | Some o' \<Rightarrow> bind_result (load_current_memory st (op_target_id o'))
          (\<lambda>(m, v). Inr (Some \<lparr>am_memory = m, am_version = v, am_operation = o'\<rparr>)))"

section \<open>Scopes\<close>

definition scope_authorizes_create :: "scope \<Rightarrow> scope \<Rightarrow> bool" where
  "scope_authorizes_create a t \<longleftrightarrow>
     sc_namespace a = sc_namespace t \<and> sc_owner a = sc_owner t \<and> sc_subject a = sc_subject t \<and>
     sc_actor a = sc_actor t"

definition scope_authorizes_memory :: "scope \<Rightarrow> scope \<Rightarrow> bool" where
  "scope_authorizes_memory a t \<longleftrightarrow>
     sc_namespace a = sc_namespace t \<and> sc_owner a = sc_owner t \<and> sc_subject a = sc_subject t"

section \<open>Dependencies\<close>

text \<open>\<open>memory_versions v JOIN memories m ON m.id = v.memory_id WHERE v.id = ?\<close>\<close>

definition version_memory :: "store \<Rightarrow> ident \<Rightarrow> memory option" where
  "version_memory st i =
     (case find_row mv_id i (st_versions st) of
        None \<Rightarrow> None
      | Some v \<Rightarrow> find_row me_id (mv_memory_id v) (st_memories st))"

definition parent_check :: "store \<Rightarrow> scope \<Rightarrow> ident \<Rightarrow> ident \<Rightarrow> check" where
  "parent_check st target current parent =
     (case version_memory st parent of
        None \<Rightarrow> Some (Wrapped ''load dependency parent'' ErrNoRows)
      | Some m \<Rightarrow> first_error
          [err_if (sc_namespace (me_scope m) \<noteq> sc_namespace target) ''dependency parent crosses namespace'',
           err_if (sc_subject (me_scope m) \<noteq> sc_subject target) ''dependency parent crosses subject'',
           err_if (sc_visibility (me_scope m) = VisibilityPrivate \<and>
               (sc_owner (me_scope m) \<noteq> sc_owner target \<or> sc_visibility target \<noteq> VisibilityPrivate))
             ''private dependency parent cannot flow to another owner or visibility'',
           err_if (sc_visibility (me_scope m) = VisibilityShared \<and> sc_visibility target = VisibilityPublic)
             ''shared dependency parent cannot flow to public visibility'',
           err_if (current \<noteq> '''' \<and>
               (parent \<in> set (descendants (st_dependencies st) current) \<or> parent = current))
             ''dependency would create a cycle''])"

definition validate_dependencies :: "store \<Rightarrow> scope \<Rightarrow> ident \<Rightarrow> ident list \<Rightarrow> check" where
  "validate_dependencies st target current parents =
     scan_unique (\<lambda>p. err_if (p = '''') ''dependency parent is empty'') ''duplicate dependency parent''
       (parent_check st target current) [] parents"

section \<open>Payload references\<close>

definition lesson_outcome_check :: "store \<Rightarrow> ident \<Rightarrow> ident \<Rightarrow> check" where
  "lesson_outcome_check st ep oc =
     (case find_row oc_id oc (st_outcomes st) of
        None \<Rightarrow> Some (Wrapped ''load lesson outcome'' ErrNoRows)
      | Some r \<Rightarrow> err_if (oc_episode_id r \<noteq> ep) ''lesson outcome does not belong to episode'')"

definition validate_experiential_references :: "store \<Rightarrow> ident \<Rightarrow> ident \<Rightarrow> experiential_memory \<Rightarrow> check" where
  "validate_experiential_references st namespace subject em =
     check_all (\<lambda>ev.
       case find_row es_id (le_episode_id ev) (st_episodes st) of
         None \<Rightarrow> Some (Wrapped ''load lesson episode'' ErrNoRows)
       | Some e \<Rightarrow> first_error
           [err_if (es_namespace e \<noteq> namespace \<or> es_subject e \<noteq> subject)
              ''lesson episode crosses namespace or subject'',
            check_all (lesson_outcome_check st (le_episode_id ev)) (le_outcome_ids ev)])
       (em_evidence em)"

definition validate_working_reference :: "store \<Rightarrow> ident \<Rightarrow> gtime \<Rightarrow> working_memory \<Rightarrow> check" where
  "validate_working_reference st namespace at' w =
     (case find_row (ws_id \<circ> wr_set) (wm_working_set_id w) (st_working_sets st) of
        None \<Rightarrow> Some (Wrapped ''load working set'' ErrNoRows)
      | Some r \<Rightarrow> first_error
          [err_if (sc_namespace (ws_scope (wr_set r)) \<noteq> namespace \<or> ws_task_id (wr_set r) \<noteq> wm_task_id w \<or>
               wr_state r \<noteq> WorkingActive)
             ''working memory does not match an active task-scoped working set'',
           err_if (case ws_expires_at (wr_set r) of None \<Rightarrow> False | Some t \<Rightarrow> \<not> at' < t)
             ''working set has expired''])"

definition validate_payload_references :: "store \<Rightarrow> scope \<Rightarrow> gtime \<Rightarrow> memory_payload \<Rightarrow> check" where
  "validate_payload_references st sc at' p =
     (case pl_factual p of
        Some f \<Rightarrow> err_if (fm_claim_subject f \<noteq> sc_subject sc) ''factual claim subject does not match memory scope''
      | None \<Rightarrow> (case pl_experiential p of
          Some e \<Rightarrow> validate_experiential_references st (sc_namespace sc) (sc_subject sc) e
        | None \<Rightarrow> (case pl_working p of
            Some w \<Rightarrow> first_error
              [err_if (sc_context sc \<noteq> wm_task_id w) ''working payload task does not match memory context'',
               validate_working_reference st (sc_namespace sc) at' w]
          | None \<Rightarrow> None)))"

section \<open>Create\<close>

definition create_memory :: "lib \<Rightarrow> proposal \<Rightarrow> memory_create \<Rightarrow> gtime \<Rightarrow> memory" where
  "create_memory L p c at' =
     \<lparr>me_id = lifecycle_id L ''mem'' [pr_id p], me_scope = mc_scope c, me_function = mc_function c,
      me_state = MemoryActive, me_current_version = 1, me_created_at = at'\<rparr>"

definition create_version :: "lib \<Rightarrow> proposal \<Rightarrow> memory_create \<Rightarrow> gtime \<Rightarrow> memory_version" where
  "create_version L p c at' =
     \<lparr>mv_id = lifecycle_id L ''mv'' [pr_id p], mv_memory_id = lifecycle_id L ''mem'' [pr_id p],
      mv_number = 1, mv_state = VersionCurrent, mv_taxonomy = mc_taxonomy c,
      mv_valid_time = (case mc_valid_time c of
          None \<Rightarrow> \<lparr>tr_from = pr_created_at p, tr_to = None\<rparr> | Some r \<Rightarrow> r),
      mv_system_time = \<lparr>tr_from = at', tr_to = None\<rparr>, mv_conflict_group = mc_conflict_group c,
      mv_supersedes = [], mv_derived_from = mc_derived_from c, mv_provenance = mc_provenance c,
      mv_payload = mc_payload c\<rparr>"

definition apply_create ::
  "lib \<Rightarrow> store \<Rightarrow> proposal \<Rightarrow> scope option \<Rightarrow> gtime \<Rightarrow> (store \<times> memory \<times> memory_version) result" where
  "apply_create L st p authorized at' =
     bind_result (wrap_result ''decode create proposal'' (lb_decode_create L (pr_payload p))) (\<lambda>c.
     guard_check (create_validate c)
     (guard_check (err_if (sc_namespace (mc_scope c) \<noteq> pr_namespace p) ''create proposal namespace mismatch'')
     (guard_check (err_if (case authorized of None \<Rightarrow> False | Some a \<Rightarrow> \<not> scope_authorizes_create a (mc_scope c))
        ''authorized scope does not own create proposal'')
     (guard_check (validate_dependencies st (mc_scope c) '''' (mc_derived_from c))
     (guard_check (validate_payload_references st (mc_scope c) at' (mc_payload c))
     (bind_result (insert_memory_rows (create_memory L p c at') (create_version L p c at') st) (\<lambda>st'.
        Inr (st', create_memory L p c at', create_version L p c at'))))))))"

section \<open>Evolution\<close>

text \<open>
  The \<open>UPDATE\<close> that closes the previous version: it ends its system time, and its
  valid time when the new one starts inside it (compared as text).
\<close>

definition close_version :: "gtime \<Rightarrow> gtime \<Rightarrow> memory_version \<Rightarrow> memory_version" where
  "close_version at' valid_from v = v\<lparr>mv_state := VersionSuperseded,
     mv_system_time := (mv_system_time v)\<lparr>tr_to := Some at'\<rparr>,
     mv_valid_time := (mv_valid_time v)\<lparr>tr_to :=
       (if text_less (tr_from (mv_valid_time v)) valid_from \<and>
           (case tr_to (mv_valid_time v) of None \<Rightarrow> True | Some t \<Rightarrow> text_less valid_from t)
        then Some valid_from else tr_to (mv_valid_time v))\<rparr>\<rparr>"

definition close_current :: "ident \<Rightarrow> gtime \<Rightarrow> gtime \<Rightarrow> store \<Rightarrow> store" where
  "close_current i at' valid_from st = st\<lparr>st_versions := update_rows
     (\<lambda>v. mv_id v = i \<and> mv_state v \<in> {VersionCurrent, VersionStale})
     (close_version at' valid_from) (st_versions st)\<rparr>"

definition mark_stale :: "ident set \<Rightarrow> store \<Rightarrow> store" where
  "mark_stale ids st = st\<lparr>st_versions := update_rows
     (\<lambda>v. mv_id v \<in> ids \<and> mv_state v = VersionCurrent) (\<lambda>v. v\<lparr>mv_state := VersionStale\<rparr>) (st_versions st)\<rparr>"

definition mark_descendants_stale :: "ident \<Rightarrow> store \<Rightarrow> store" where
  "mark_descendants_stale parent st = mark_stale (set (descendants (st_dependencies st) parent)) st"

definition insert_version_rows :: "memory \<Rightarrow> memory_version \<Rightarrow> store \<Rightarrow> store result" where
  "insert_version_rows m v st =
     guard_check (wrap_check ''validate memory version'' (version_validate (me_function m) v))
     (guard_check (encode_version v) (insert_version_tables m v st))"

definition evolved_version ::
  "lib \<Rightarrow> proposal \<Rightarrow> memory \<Rightarrow> memory_version \<Rightarrow> memory_evolution \<Rightarrow> gtime \<Rightarrow> memory_version" where
  "evolved_version L p m current e at' =
     \<lparr>mv_id = lifecycle_id L ''mv'' [pr_id p], mv_memory_id = me_id m, mv_number = mv_number current + 1,
      mv_state = VersionCurrent, mv_taxonomy = ev_taxonomy e, mv_valid_time = ev_valid_time e,
      mv_system_time = \<lparr>tr_from = at', tr_to = None\<rparr>, mv_conflict_group = ev_conflict_group e,
      mv_supersedes = [mv_id current], mv_derived_from = ev_derived_from e,
      mv_provenance = ev_provenance e, mv_payload = ev_payload e\<rparr>"

definition conflict_group_for :: "lib \<Rightarrow> memory \<Rightarrow> memory_version \<Rightarrow> memory_evolution \<Rightarrow> ident" where
  "conflict_group_for L m current e =
     (let g = (if mv_conflict_group current \<noteq> '''' then mv_conflict_group current else ev_conflict_group e) in
      if g = '''' then lifecycle_id L ''conflict'' [me_id m] else g)"

definition conflict_memory :: "lib \<Rightarrow> proposal \<Rightarrow> memory \<Rightarrow> gtime \<Rightarrow> memory" where
  "conflict_memory L p m at' = m\<lparr>me_id := lifecycle_id L ''mem'' [pr_id p, ''conflict''],
     me_current_version := 1, me_created_at := at'\<rparr>"

definition conflict_version ::
  "lib \<Rightarrow> proposal \<Rightarrow> memory \<Rightarrow> memory_version \<Rightarrow> memory_evolution \<Rightarrow> gtime \<Rightarrow> memory_version" where
  "conflict_version L p m current e at' =
     \<lparr>mv_id = lifecycle_id L ''mv'' [pr_id p, ''conflict''],
      mv_memory_id = lifecycle_id L ''mem'' [pr_id p, ''conflict''],
      mv_number = 1, mv_state = VersionCurrent, mv_taxonomy = ev_taxonomy e,
      mv_valid_time = ev_valid_time e, mv_system_time = \<lparr>tr_from = at', tr_to = None\<rparr>,
      mv_conflict_group = conflict_group_for L m current e, mv_supersedes = [],
      mv_derived_from = ev_derived_from e, mv_provenance = ev_provenance e, mv_payload = ev_payload e\<rparr>"

definition set_conflict_group :: "ident \<Rightarrow> ident \<Rightarrow> store \<Rightarrow> store" where
  "set_conflict_group i g st = st\<lparr>st_versions := update_rows (\<lambda>v. mv_id v = i)
     (\<lambda>v. v\<lparr>mv_conflict_group := g\<rparr>) (st_versions st)\<rparr>"

definition apply_conflict ::
  "lib \<Rightarrow> store \<Rightarrow> proposal \<Rightarrow> memory \<Rightarrow> memory_version \<Rightarrow> memory_evolution \<Rightarrow> gtime \<Rightarrow>
   (store \<times> memory \<times> memory_version) result" where
  "apply_conflict L st p m current e at' =
     guard_check (err_if (mv_conflict_group current \<noteq> '''' \<and> ev_conflict_group e \<noteq> '''' \<and>
         ev_conflict_group e \<noteq> mv_conflict_group current)
       ''conflict evolution cannot replace an existing conflict group'')
     (bind_result
       (insert_memory_rows (conflict_memory L p m at') (conflict_version L p m current e at')
         (set_conflict_group (mv_id current) (conflict_group_for L m current e) st))
       (\<lambda>st'. Inr (st', conflict_memory L p m at', conflict_version L p m current e at')))"

text \<open>The statements of a supersede or rebuild: close, mark stale, insert, advance.\<close>

definition advance_memory :: "ident \<Rightarrow> int \<Rightarrow> store \<Rightarrow> store" where
  "advance_memory i n st = st\<lparr>st_memories := update_rows (\<lambda>m. me_id m = i)
     (\<lambda>m. m\<lparr>me_current_version := n, me_state := MemoryActive\<rparr>) (st_memories st)\<rparr>"

definition supersede_current ::
  "lib \<Rightarrow> store \<Rightarrow> proposal \<Rightarrow> memory \<Rightarrow> memory_version \<Rightarrow> memory_evolution \<Rightarrow> gtime \<Rightarrow>
   (store \<times> memory \<times> memory_version) result" where
  "supersede_current L st p m current e at' =
     guard_check (err_if (\<not> tr_from (mv_system_time current) < at') ''evolution system time must advance'')
     (let v = evolved_version L p m current e at' in
      bind_result
       (insert_version_rows m v
         (mark_descendants_stale (mv_id current)
           (close_current (mv_id current) at' (tr_from (ev_valid_time e)) st)))
       (\<lambda>st'. Inr (advance_memory (me_id m) (mv_number v) st',
          m\<lparr>me_current_version := mv_number v, me_state := MemoryActive\<rparr>, v)))"

definition apply_evolution ::
  "lib \<Rightarrow> store \<Rightarrow> proposal \<Rightarrow> scope option \<Rightarrow> gtime \<Rightarrow> (store \<times> memory \<times> memory_version) result" where
  "apply_evolution L st p authorized at' =
     bind_result (load_current_memory st (pr_target_id p)) (\<lambda>(m, current).
     guard_check (err_if (sc_namespace (me_scope m) \<noteq> pr_namespace p) ''evolution proposal namespace mismatch'')
     (guard_check (err_if (case authorized of None \<Rightarrow> False | Some a \<Rightarrow> \<not> scope_authorizes_memory a (me_scope m))
        ''authorized scope does not own evolution target'')
     (guard_check (err_if (me_state m \<noteq> MemoryActive) ''only active memory can evolve'')
     (bind_result (wrap_result ''decode evolution proposal'' (lb_decode_evolution L (pr_payload p))) (\<lambda>e.
     guard_check (evolution_validate (me_function m) e)
     (guard_check (err_if (pr_kind p = ProposalConsolidate \<and> ev_mode e \<noteq> EvolutionRebuild)
        ''consolidation proposal requires rebuild mode'')
     (guard_check (validate_dependencies st (me_scope m) (mv_id current) (ev_derived_from e))
     (guard_check (validate_payload_references st (me_scope m) at' (ev_payload e))
     (if ev_mode e = EvolutionConflict then apply_conflict L st p m current e at'
      else supersede_current L st p m current e at')))))))))"

section \<open>Archive and forget\<close>

definition set_memory_state :: "ident \<Rightarrow> memory_state \<Rightarrow> store \<Rightarrow> store" where
  "set_memory_state i s st = st\<lparr>st_memories := update_rows (\<lambda>m. me_id m = i)
     (\<lambda>m. m\<lparr>me_state := s\<rparr>) (st_memories st)\<rparr>"

definition set_version_state :: "ident \<Rightarrow> version_state \<Rightarrow> store \<Rightarrow> store" where
  "set_version_state i s st = st\<lparr>st_versions := update_rows (\<lambda>v. mv_id v = i)
     (\<lambda>v. v\<lparr>mv_state := s\<rparr>) (st_versions st)\<rparr>"

definition remove_indexes :: "ident \<Rightarrow> store \<Rightarrow> store" where
  "remove_indexes i st = st\<lparr>
     st_fts := delete_rows (\<lambda>r. fx_memory r = i) (st_fts st),
     st_embeddings := delete_rows
       (\<lambda>r. eb_version r \<in> mv_id ` set (filter (\<lambda>v. mv_memory_id v = i) (st_versions st)))
       (st_embeddings st)\<rparr>"

definition apply_state ::
  "lib \<Rightarrow> store \<Rightarrow> proposal \<Rightarrow> scope option \<Rightarrow> memory_state \<Rightarrow> version_state \<Rightarrow> bool \<Rightarrow>
   (store \<times> memory \<times> memory_version) result" where
  "apply_state L st p authorized mstate vstate remove =
     guard_check (err_if (trim_space (pr_payload p) \<noteq> ''{}'') ''state proposal payload must be an empty JSON object'')
     (bind_result (wrap_result ''decode state proposal'' (lb_decode_empty L (pr_payload p))) (\<lambda>_.
     bind_result (load_current_memory st (pr_target_id p)) (\<lambda>(m, v).
     guard_check (err_if (sc_namespace (me_scope m) \<noteq> pr_namespace p) ''state proposal namespace mismatch'')
     (guard_check (err_if (case authorized of None \<Rightarrow> False | Some a \<Rightarrow> \<not> scope_authorizes_memory a (me_scope m))
        ''authorized scope does not own state target'')
     (let st1 = set_version_state (mv_id v) vstate (set_memory_state (me_id m) mstate st);
          st2 = (if remove then remove_indexes (me_id m) st1 else st1) in
      Inr (st2, m\<lparr>me_state := mstate\<rparr>, v\<lparr>mv_state := vstate\<rparr>))))))"

section \<open>The transaction\<close>

definition apply_operation :: "lib \<Rightarrow> proposal \<Rightarrow> ident \<Rightarrow> gtime \<Rightarrow> memory \<Rightarrow> operation" where
  "apply_operation L p actor at' m =
     \<lparr>op_id = lifecycle_id L ''op'' [pr_id p], op_phase = PhaseApply, op_kind = kind_text (pr_kind p),
      op_actor = actor, op_target_id = me_id m, op_proposal_id = pr_id p, op_strategy_id = pr_strategy_id p,
      op_occurred_at = at', op_result = ''applied''\<rparr>"

text \<open>The primary key, and the unique index on the proposal of an apply operation.\<close>

definition insert_operation :: "operation \<Rightarrow> store \<Rightarrow> store result" where
  "insert_operation o' st =
     bind_result
      (wrap_result ''insert lifecycle operation''
        (insert_row ''operations''
          (op_id o' \<in> op_id ` set (st_operations st) \<or>
           op_phase o' = PhaseApply \<and> find_apply st (op_proposal_id o') \<noteq> None)
          o' (st_operations st)))
      (\<lambda>rows. Inr (st\<lparr>st_operations := rows\<rparr>))"

definition apply_mutation ::
  "lib \<Rightarrow> store \<Rightarrow> proposal \<Rightarrow> scope option \<Rightarrow> gtime \<Rightarrow> (store \<times> memory \<times> memory_version) result" where
  "apply_mutation L st p authorized at' =
     (case pr_kind p of
        ProposalCreate \<Rightarrow> apply_create L st p authorized at'
      | ProposalUpdate \<Rightarrow> apply_evolution L st p authorized at'
      | ProposalConsolidate \<Rightarrow> apply_evolution L st p authorized at'
      | ProposalArchive \<Rightarrow> apply_state L st p authorized MemoryArchived VersionArchived False
      | ProposalForget \<Rightarrow> apply_state L st p authorized MemoryForgotten VersionForgotten True
      | ProposalOther k \<Rightarrow> Inl (Errorf ''proposal kind is not applicable''))"

definition apply_fresh ::
  "lib \<Rightarrow> store \<Rightarrow> proposal \<Rightarrow> scope option \<Rightarrow> ident \<Rightarrow> gtime \<Rightarrow> (store \<times> applied_mutation) result" where
  "apply_fresh L st p authorized actor at' =
     bind_result (apply_mutation L st p authorized at') (\<lambda>(st1, m, v).
     bind_result (insert_operation (apply_operation L p actor at' m) st1) (\<lambda>st2.
     Inr (st2, \<lparr>am_memory = m, am_version = v, am_operation = apply_operation L p actor at' m\<rparr>)))"

definition apply_with ::
  "lib \<Rightarrow> store \<Rightarrow> proposal \<Rightarrow> scope option \<Rightarrow> ident \<Rightarrow> gtime \<Rightarrow> store \<times> applied_mutation result" where
  "apply_with L st p authorized actor at' =
     transaction st
      (guard_check (proposal_validate L p)
      (guard_check (err_if (actor = '''' \<or> is_zero_time at') ''apply actor and timestamp are required'')
      (bind_result (load_applied_proposal st (pr_id p)) (\<lambda>found.
         case found of
           Some a \<Rightarrow> guard_check
             (err_if (case authorized of None \<Rightarrow> False | Some s \<Rightarrow> \<not> scope_authorizes_memory s (me_scope (am_memory a)))
               ''authorized scope does not own replayed proposal target'')
             (Inr (st, a))
         | None \<Rightarrow> apply_fresh L st p authorized actor at'))))"

definition apply_proposal :: "lib \<Rightarrow> store \<Rightarrow> proposal \<Rightarrow> ident \<Rightarrow> gtime \<Rightarrow> store \<times> applied_mutation result" where
  "apply_proposal L st p actor at' = apply_with L st p None actor at'"

definition apply_proposal_authorized :: "lib \<Rightarrow> store repository" where
  "apply_proposal_authorized L st p sc at' =
     (case scope_validate sc of Some e \<Rightarrow> (st, Inl e)
      | None \<Rightarrow> apply_with L st p (Some sc) (sc_actor sc) at')"

end
