(* ===== verification/Vectors.thy ===== *)
theory Vectors
  imports Lifecycle
begin

text \<open>
  Embedding vectors: float32 values by their bit patterns, their little-endian storage
  (\<open>sqlite/embeddings.go\<close>), and the checks and exact cosine of
  \<open>internal/application/retrieval.go\<close>. A float32 converts to float64 exactly; products
  and sums are the rounded float64 operations.
\<close>

section \<open>float32\<close>

unbundle bit_operations_syntax

type_synonym f32 = "32 word"

definition f32_fraction :: "f32 \<Rightarrow> int" where
  "f32_fraction w = uint w mod 2 ^ 23"

definition f32_exponent :: "f32 \<Rightarrow> int" where
  "f32_exponent w = uint w div 2 ^ 23 mod 2 ^ 8"

definition f32_negative :: "f32 \<Rightarrow> bool" where
  "f32_negative w \<longleftrightarrow> 2 ^ 31 \<le> uint w"

definition f32_magnitude :: "f32 \<Rightarrow> rat" where
  "f32_magnitude w =
     (if f32_exponent w = 0 then of_int (f32_fraction w) * 2 powi (- 149)
      else of_int (2 ^ 23 + f32_fraction w) * 2 powi (f32_exponent w - 150))"

definition f32_value :: "f32 \<Rightarrow> f64" where
  "f32_value w =
     (if f32_exponent w = 255
      then (if f32_fraction w = 0 then f64_inf (\<not> f32_negative w) else NaN)
      else Fin (if f32_negative w then - f32_magnitude w else f32_magnitude w))"

definition f32_finite :: "f32 \<Rightarrow> bool" where
  "f32_finite w \<longleftrightarrow> f64_finite (f32_value w)"

section \<open>Little-endian bytes\<close>

text \<open>\<open>binary.LittleEndian.PutUint32\<close> and \<open>Uint32\<close>.\<close>

definition put_uint32 :: "f32 \<Rightarrow> 8 word list" where
  "put_uint32 w = [ucast w, ucast (drop_bit 8 w), ucast (drop_bit 16 w), ucast (drop_bit 24 w)]"

fun uint32 :: "8 word list \<Rightarrow> f32" where
  "uint32 (a # b # c # d # bs) =
     ucast a OR push_bit 8 (ucast b) OR push_bit 16 (ucast c) OR push_bit 24 (ucast d)"
| "uint32 bs = 0"

definition encode_vector :: "f32 list \<Rightarrow> 8 word list" where
  "encode_vector vs = concat (map put_uint32 vs)"

lemma bytes_of_word:
  fixes w :: f32
  shows "ucast (ucast w :: 8 word) OR push_bit 8 (ucast (ucast (drop_bit 8 w) :: 8 word)) OR
    push_bit 16 (ucast (ucast (drop_bit 16 w) :: 8 word)) OR push_bit 24 (ucast (ucast (drop_bit 24 w) :: 8 word)) = w"
proof (rule bit_word_eqI)
  fix n assume "n < LENGTH(32)"
  then consider "n < 8" | "8 \<le> n" "n < 16" | "16 \<le> n" "n < 24" | "24 \<le> n" "n < 32" by fastforce
  then show "bit (ucast (ucast w :: 8 word) OR push_bit 8 (ucast (ucast (drop_bit 8 w) :: 8 word)) OR
      push_bit 16 (ucast (ucast (drop_bit 16 w) :: 8 word)) OR
      push_bit 24 (ucast (ucast (drop_bit 24 w) :: 8 word)) :: f32) n = bit w n"
    by cases (auto simp: bit_simps)
qed

lemma uint32_put: "uint32 (put_uint32 w @ bs) = w"
  by (simp add: put_uint32_def bytes_of_word)

lemma length_put_uint32 [simp]: "length (put_uint32 w) = 4"
  by (simp add: put_uint32_def)

lemma drop_encode_vector:
  "k < length vs \<Longrightarrow> \<exists>bs. drop (4 * k) (encode_vector vs) = put_uint32 (vs ! k) @ bs"
proof (induction vs arbitrary: k)
  case Nil
  then show ?case by simp
next
  case (Cons v vs)
  show ?case
  proof (cases k)
    case 0
    then show ?thesis by (auto simp: encode_vector_def)
  next
    case (Suc j)
    with Cons.prems Cons.IH [of j] obtain bs where "drop (4 * j) (encode_vector vs) = put_uint32 (vs ! j) @ bs" by auto
    then show ?thesis using Suc by (auto simp: encode_vector_def add.commute)
  qed
qed

lemma length_encode_vector [simp]: "length (encode_vector vs) = 4 * length vs"
  by (induction vs) (auto simp: encode_vector_def)

section \<open>Storing and decoding an embedding\<close>

text \<open>The checks of the storing loop: the first non-finite value, then the squared norm.\<close>

definition squared_norm :: "f32 list \<Rightarrow> f64" where
  "squared_norm vs = foldl (\<lambda>s v. f64_add s (f64_mul (f32_value v) (f32_value v))) (Fin 0) vs"

definition upsert_embedding :: "embedding_row \<Rightarrow> embedding_row list \<Rightarrow> embedding_row list" where
  "upsert_embedding e rows =
     (let key = (\<lambda>r. (eb_version r, eb_provider r, eb_model r)) in
      if key e \<in> key ` set rows then update_rows (\<lambda>r. key r = key e) (\<lambda>_. e) rows else rows @ [e])"

definition put_embedding ::
  "lib \<Rightarrow> ident \<Rightarrow> string \<Rightarrow> string \<Rightarrow> string \<Rightarrow> f32 list \<Rightarrow> gtime \<Rightarrow> store \<Rightarrow> store \<times> unit result" where
  "put_embedding L version provider model text vs at' st =
     transaction st
      (guard_check (err_if (version = '''' \<or> provider = '''' \<or> model = '''' \<or> text = '''' \<or> vs = [] \<or>
           int (length vs) > 16384 \<or> is_zero_time at')
         ''embedding version, identity, content, vector, and timestamp are required'')
      (case find_row fx_version version (st_fts st) of
         None \<Rightarrow> Inl (Wrapped ''read indexed memory content'' ErrNoRows)
       | Some r \<Rightarrow>
           guard_check (err_if (fx_text r \<noteq> text) ''embedding content does not match immutable memory version'')
           (guard_check (check_all (\<lambda>v. err_if (\<not> f32_finite v) ''embedding contains a non-finite value'') vs)
           (guard_check (err_if (f64_eq (squared_norm vs) (Fin 0)) ''embedding vector has zero norm'')
           (if version \<notin> mv_id ` set (st_versions st) \<or> length (hex_encode (lb_sha256 L text)) \<noteq> 64
            then Inl (Wrapped ''put memory embedding'' (ErrConstraint ''memory_embeddings''))
            else Inr (st\<lparr>st_embeddings := upsert_embedding
              \<lparr>eb_version = version, eb_provider = provider, eb_model = model, eb_dimensions = int (length vs),
               eb_blob = encode_vector vs, eb_content_sha256 = hex_encode (lb_sha256 L text), eb_created_at = at'\<rparr>
              (st_embeddings st)\<rparr>, ()))))))"

definition decode_vector :: "8 word list \<Rightarrow> int \<Rightarrow> f32 list result" where
  "decode_vector encoded dimensions =
     (if dimensions < 1 \<or> dimensions > 16384 \<or> int (length encoded) \<noteq> dimensions * 4
      then Inl (Errorf ''stored embedding dimensions are invalid'')
      else let vs = map (\<lambda>k. uint32 (drop (4 * k) encoded)) [0..<nat dimensions] in
        guard_check (check_all (\<lambda>v. err_if (\<not> f32_finite v) ''stored embedding contains a non-finite value'') vs) (Inr vs))"

section \<open>Cosine\<close>

definition validate_embedding_vector :: "f32 list \<Rightarrow> check" where
  "validate_embedding_vector vs = first_error
     [err_if (vs = []) ''vector is empty'',
      check_all (\<lambda>v. err_if (\<not> f32_finite v) ''vector contains a non-finite value'') vs,
      err_if (f64_eq (squared_norm vs) (Fin 0)) ''vector has zero norm'']"

definition dot_product :: "f32 list \<Rightarrow> f32 list \<Rightarrow> f64" where
  "dot_product ls rs = foldl (\<lambda>s (l, r). f64_add s (f64_mul (f32_value l) (f32_value r))) (Fin 0) (zip ls rs)"

definition cosine :: "f32 list \<Rightarrow> f32 list \<Rightarrow> f64 result" where
  "cosine ls rs =
     (if length ls = 0 \<or> length ls \<noteq> length rs
      then Inl (Errorf ''cosine vectors must have equal non-zero dimensions'')
      else guard_check (check_all (\<lambda>(l, r). err_if (\<not> f32_finite l \<or> \<not> f32_finite r) ''cosine vector contains a non-finite value'')
        (zip ls rs))
       (guard_check (err_if (f64_eq (squared_norm ls) (Fin 0) \<or> f64_eq (squared_norm rs) (Fin 0)) ''cosine vector has zero norm'')
         (Inr (f64_div (dot_product ls rs) (f64_mul (f64_sqrt (squared_norm ls)) (f64_sqrt (squared_norm rs)))))))"

section \<open>Bounds\<close>

text \<open>Powers of two, kept unevaluated.\<close>

definition pow2 :: "int \<Rightarrow> rat" where
  "pow2 e = 2 powi e"

lemma pow2_mult [simp]: "pow2 a * pow2 b = pow2 (a + b)"
  by (simp add: pow2_def power_int_add)

lemma pow2_pos [simp]: "0 < pow2 e" "0 \<le> pow2 e" "pow2 e \<noteq> 0"
  by (simp_all add: pow2_def)

lemma pow2_not_neg [simp]: "\<not> pow2 e < 0"
  by (simp add: not_less)

lemma pow2_mono [simp]: "a \<le> b \<Longrightarrow> pow2 a \<le> pow2 b"
  by (simp add: pow2_def power_int_increasing)

lemmas round_between = f64_round_between [folded pow2_def]
lemmas round_within = f64_round_within [folded pow2_def]
lemmas sqrt_bounds = f64_sqrt_bounds [folded pow2_def]

lemma f32_magnitude_pow2:
  "f32_magnitude w = (if f32_exponent w = 0 then of_int (f32_fraction w) * pow2 (- 149)
     else of_int (2 ^ 23 + f32_fraction w) * pow2 (f32_exponent w - 150))"
  unfolding pow2_def by (rule f32_magnitude_def)

lemma f32_parts: "0 \<le> f32_fraction w" "f32_fraction w < 2 ^ 23" "0 \<le> f32_exponent w" "f32_exponent w < 2 ^ 8"
  by (simp_all add: f32_fraction_def f32_exponent_def)

lemma f32_magnitude_bounds:
  assumes "f32_exponent w \<noteq> 255"
  shows "0 \<le> f32_magnitude w" "f32_magnitude w \<le> pow2 128"
    "f32_magnitude w \<noteq> 0 \<Longrightarrow> pow2 (- 149) \<le> f32_magnitude w"
proof -
  note parts = f32_parts [of w]
  have "f32_fraction w \<le> 2 ^ 23" using parts(2) by simp
  then have "(of_int (f32_fraction w) :: rat) \<le> of_int (2 ^ 23)" by (simp only: of_int_le_iff)
  then have fr: "(of_int (f32_fraction w) :: rat) \<le> pow2 23" by (simp add: pow2_def)
  have "(of_int (2 ^ 23) :: rat) + pow2 23 = pow2 24" by (simp add: pow2_def)
  with fr have fr2: "(of_int (2 ^ 23 + f32_fraction w) :: rat) \<le> pow2 24" by (simp only: of_int_add)
  show "0 \<le> f32_magnitude w" using parts(1) by (simp add: f32_magnitude_pow2)
  show "f32_magnitude w \<le> pow2 128"
  proof (cases "f32_exponent w = 0")
    case True
    have "(of_int (f32_fraction w) :: rat) * pow2 (- 149) \<le> pow2 23 * pow2 (- 149)"
      using fr by (intro mult_right_mono) auto
    also have "\<dots> = pow2 (- 126)" by simp
    also have "\<dots> \<le> pow2 128" by simp
    finally show ?thesis using True by (simp add: f32_magnitude_pow2)
  next
    case False
    from fr2 have "(of_int (2 ^ 23 + f32_fraction w) :: rat) * pow2 (f32_exponent w - 150) \<le> pow2 24 * pow2 (f32_exponent w - 150)"
      by (intro mult_right_mono) auto
    also have "\<dots> = pow2 (24 + (f32_exponent w - 150))" by (rule pow2_mult)
    also have "\<dots> \<le> pow2 128" using parts(4) assms by simp
    finally show ?thesis using False by (simp add: f32_magnitude_pow2)
  qed
  show "pow2 (- 149) \<le> f32_magnitude w" if nz: "f32_magnitude w \<noteq> 0"
  proof (cases "f32_exponent w = 0")
    case True
    then have "1 \<le> f32_fraction w" using nz parts(1) by (auto simp: f32_magnitude_pow2)
    then have "(1 :: rat) \<le> of_int (f32_fraction w)" by simp
    then have "1 * pow2 (- 149) \<le> (of_int (f32_fraction w) :: rat) * pow2 (- 149)" by (intro mult_right_mono) auto
    then show ?thesis using True by (simp add: f32_magnitude_pow2)
  next
    case False
    have "pow2 (- 149) \<le> pow2 (f32_exponent w - 150)"
      using False parts(3) by simp
    also have "\<dots> \<le> of_int (2 ^ 23 + f32_fraction w) * pow2 (f32_exponent w - 150)"
      using parts(1) by (simp add: mult_le_cancel_right1)
    finally show ?thesis using False by (simp add: f32_magnitude_pow2)
  qed
qed

lemma f32_finiteD:
  assumes "f32_finite w"
  shows "\<exists>a. f32_value w = Fin a \<and> \<bar>a\<bar> \<le> pow2 128 \<and> (a \<noteq> 0 \<longrightarrow> pow2 (- 149) \<le> \<bar>a\<bar>)"
proof -
  have e: "f32_exponent w \<noteq> 255" using assms by (auto simp: f32_finite_def f32_value_def f64_inf_def split: if_splits)
  define a where "a = (if f32_negative w then - f32_magnitude w else f32_magnitude w)"
  have "f32_value w = Fin a" by (simp add: f32_value_def e a_def)
  moreover have "\<bar>a\<bar> = f32_magnitude w" "a = 0 \<longleftrightarrow> f32_magnitude w = 0"
    using f32_magnitude_bounds(1) [OF e] by (simp_all add: a_def)
  ultimately show ?thesis using f32_magnitude_bounds(2,3) [OF e] by metis
qed

text \<open>Products of float32 values are within \<open>2^256\<close>; non-zero squares are at least \<open>2^-298\<close>.\<close>

lemma f32_product:
  assumes "f32_finite v" and "f32_finite w"
  shows "\<exists>p. f64_mul (f32_value v) (f32_value w) = Fin p \<and> \<bar>p\<bar> \<le> pow2 256"
proof -
  obtain a where a: "f32_value v = Fin a" "\<bar>a\<bar> \<le> pow2 128" using f32_finiteD [OF assms(1)] by blast
  obtain b where b: "f32_value w = Fin b" "\<bar>b\<bar> \<le> pow2 128" using f32_finiteD [OF assms(2)] by blast
  have "\<bar>a\<bar> * \<bar>b\<bar> \<le> pow2 128 * pow2 128" by (rule mult_mono [OF a(2) b(2)]) simp_all
  then have "\<bar>a * b\<bar> \<le> of_int 1 * pow2 256" by (simp add: abs_mult)
  then obtain p where "f64_round (a * b) = Fin p" "\<bar>p\<bar> \<le> of_int 1 * pow2 256"
    using round_within [of "a * b" 1 256] by auto
  then show ?thesis by (simp add: a(1) b(1))
qed

lemma f32_square:
  assumes "f32_finite v"
  shows "\<exists>p. f64_mul (f32_value v) (f32_value v) = Fin p \<and> 0 \<le> p \<and> p \<le> pow2 256 \<and>
    (f32_value v \<noteq> Fin 0 \<longrightarrow> pow2 (- 298) \<le> p)"
proof -
  obtain a where a: "f32_value v = Fin a" "\<bar>a\<bar> \<le> pow2 128" "a \<noteq> 0 \<longrightarrow> pow2 (- 149) \<le> \<bar>a\<bar>"
    using f32_finiteD [OF assms] by blast
  show ?thesis
  proof (cases "a = 0")
    case True
    then show ?thesis using a(1) by simp
  next
    case False
    then have low: "pow2 (- 149) \<le> \<bar>a\<bar>" using a(3) by simp
    have "pow2 (- 149) * pow2 (- 149) \<le> \<bar>a\<bar> * \<bar>a\<bar>" by (rule mult_mono [OF low low]) simp_all
    then have "pow2 (- 298) \<le> a * a" by (simp add: abs_mult_self_eq)
    moreover have "\<bar>a\<bar> * \<bar>a\<bar> \<le> pow2 128 * pow2 128" by (rule mult_mono [OF a(2,2)]) simp_all
    then have "a * a \<le> pow2 256" by (simp add: abs_mult_self_eq)
    ultimately obtain p where p: "f64_round (a * a) = Fin p" "pow2 (- 298) \<le> p" "p \<le> pow2 256"
      using round_between [of "- 298" "a * a" 256] by auto
    moreover have "0 \<le> p" using p(2) pow2_pos(2) [of "- 298"] by (rule order_trans [rotated])
    ultimately show ?thesis by (simp add: a(1))
  qed
qed

text \<open>A sum of up to \<open>2^52\<close> terms within \<open>2^256\<close> stays within that many times \<open>2^256\<close>.\<close>

lemma bounded_sum:
  fixes f :: "'a \<Rightarrow> f64"
  assumes "\<And>x. x \<in> set xs \<Longrightarrow> \<exists>p. f x = Fin p \<and> \<bar>p\<bar> \<le> pow2 256"
    and "int (length xs) < 2 ^ 52"
  shows "\<exists>s. foldl (\<lambda>s x. f64_add s (f x)) (Fin 0) xs = Fin s \<and> \<bar>s\<bar> \<le> of_int (int (length xs)) * pow2 256"
  using assms
proof (induction xs rule: rev_induct)
  case Nil
  then show ?case by simp
next
  case (snoc x xs)
  then obtain s where s: "foldl (\<lambda>s x. f64_add s (f x)) (Fin 0) xs = Fin s"
      "\<bar>s\<bar> \<le> of_int (int (length xs)) * pow2 256" by auto
  obtain p where p: "f x = Fin p" "\<bar>p\<bar> \<le> pow2 256" using snoc.prems(1) by auto
  have "\<bar>s + p\<bar> \<le> of_int (int (length xs) + 1) * pow2 256"
    using s(2) p(2) by (simp add: algebra_simps)
  then obtain r where "f64_round (s + p) = Fin r" "\<bar>r\<bar> \<le> of_int (int (length xs) + 1) * pow2 256"
    using round_within [of "s + p" "int (length xs) + 1" 256] snoc.prems(2) by auto
  then show ?case using s(1) p(1) by (auto simp: algebra_simps)
qed

lemma add_nonneg:
  assumes "f64_add (Fin s) (Fin p) = Fin r" and "0 \<le> s" "0 \<le> p" and "- 1022 \<le> a" "a \<le> 1023"
    and "pow2 a \<le> s \<or> pow2 a \<le> p"
  shows "pow2 a \<le> r"
proof -
  have "pow2 a \<le> s + p" using assms(2,3,6) by linarith
  moreover have "f64_round (pow2 a) = Fin (pow2 a)"
    using round_between [of a "pow2 a" a] assms(4,5) by auto
  ultimately show ?thesis using f64_round_mono [of "pow2 a" "pow2 a" "s + p" r] assms(1) by simp
qed

lemma round_nonneg: "f64_round x = Fin r \<Longrightarrow> 0 \<le> x \<Longrightarrow> 0 \<le> r"
  using f64_round_mono [of 0 0 x r] by simp

lemma squared_norm_bounds:
  assumes "\<And>v. v \<in> set vs \<Longrightarrow> f32_finite v" and "int (length vs) \<le> 16384"
  shows "\<exists>s. squared_norm vs = Fin s \<and> 0 \<le> s \<and> s \<le> pow2 270 \<and>
    (if list_all (\<lambda>v. f32_value v = Fin 0) vs then s = 0 else pow2 (- 298) \<le> s)"
proof -
  let ?sq = "\<lambda>v. f64_mul (f32_value v) (f32_value v)"
  obtain s where s: "foldl (\<lambda>s v. f64_add s (?sq v)) (Fin 0) vs = Fin s" "\<bar>s\<bar> \<le> of_int (int (length vs)) * pow2 256"
    using bounded_sum [of vs ?sq] assms f32_product by auto
  have low: "0 \<le> s \<and> (if list_all (\<lambda>v. f32_value v = Fin 0) ws then s = 0 else pow2 (- 298) \<le> s)"
    if "foldl (\<lambda>s v. f64_add s (?sq v)) (Fin 0) ws = Fin s" "set ws \<subseteq> set vs" for ws s
    using that
  proof (induction ws arbitrary: s rule: rev_induct)
    case Nil
    then show ?case by simp
  next
    case (snoc v ws)
    obtain p where p: "?sq v = Fin p" "0 \<le> p" "f32_value v \<noteq> Fin 0 \<longrightarrow> pow2 (- 298) \<le> p"
      using f32_square [of v] assms(1) snoc.prems(2) by auto
    obtain t where t: "foldl (\<lambda>s v. f64_add s (?sq v)) (Fin 0) ws = Fin t"
    proof (cases "foldl (\<lambda>s v. f64_add s (?sq v)) (Fin 0) ws")
      case (Fin t)
      then show thesis by (rule that)
    qed (use snoc.prems(1) p(1) in auto)
    have IH: "0 \<le> t" "if list_all (\<lambda>v. f32_value v = Fin 0) ws then t = 0 else pow2 (- 298) \<le> t"
      using snoc.IH [OF t] snoc.prems(2) by auto
    have s: "f64_add (Fin t) (Fin p) = Fin s" using snoc.prems(1) t p(1) by simp
    then have "0 \<le> s" using round_nonneg IH(1) p(2) by simp
    moreover have "pow2 (- 298) \<le> s" if "\<not> list_all (\<lambda>v. f32_value v = Fin 0) (ws @ [v])"
      using add_nonneg [OF s IH(1) p(2), of "- 298"] that IH(2) p(3) by auto
    moreover have "s = 0" if "list_all (\<lambda>v. f32_value v = Fin 0) (ws @ [v])"
      using that IH(2) s p(1) by auto
    ultimately show ?case by simp
  qed
  have "(of_int (int (length vs)) :: rat) * pow2 256 \<le> pow2 270"
  proof -
    have "(of_int (int (length vs)) :: rat) \<le> of_int 16384" using assms(2) by (simp only: of_int_le_iff)
    also have "of_int 16384 = pow2 14" by (simp add: pow2_def)
    finally have "(of_int (int (length vs)) :: rat) * pow2 256 \<le> pow2 14 * pow2 256" by (intro mult_right_mono) auto
    then show ?thesis by simp
  qed
  with s(2) have "s \<le> pow2 270" by linarith
  with s(1) low [OF s(1)] show ?thesis unfolding squared_norm_def by blast
qed

end
