(* ===== verification/Candidates.thy ===== *)
theory Candidates
  imports Tokens Vectors
begin

text \<open>
  Candidate retrieval of the SQLite adapter (\<open>sqlite/retrieval.go\<close>): the authorization
  and time filter that is part of the SQL, the lexical and the semantic query, and the
  scan that decodes and validates rows. Two parameters stand for code outside the
  repository: \<open>uc\<close> holds Go's Unicode tables, and \<open>fts\<close> is SQLite's FTS5 \<open>MATCH\<close> with its
  \<open>bm25\<close> score of a row in an index.
\<close>

section \<open>Filters\<close>

record candidate_filter =
  cf_access :: access_scope
  cf_subject :: ident
  cf_context :: ident
  cf_functions :: "memory_function list"
  cf_valid_at :: gtime
  cf_system_at :: gtime
  cf_include_global_working :: bool

record stored_candidate =
  sn_memory_id :: ident
  sn_version_id :: ident
  sn_function :: memory_function
  sn_conflict_group :: ident
  sn_payload :: memory_payload
  sn_provenance :: "evidence_ref list"
  sn_text :: string
  sn_lexical :: "f64 option"
  sn_semantic :: "f64 option"
  sn_vector :: "f32 list"

definition filter_check :: "candidate_filter \<Rightarrow> check" where
  "filter_check f = first_error
     [err_if (ac_namespace (cf_access f) = '''' \<or> ac_principal_id (cf_access f) = '''' \<or>
         ac_private_owners (cf_access f) = [] \<or> cf_subject f = '''' \<or> is_zero_time (cf_valid_at f) \<or>
         is_zero_time (cf_system_at f))
       ''complete authorized candidate filter is required'',
      check_all (\<lambda>owner. err_if (owner = '''') ''private owner cannot be empty'') (ac_private_owners (cf_access f)),
      check_all (\<lambda>fn. err_if (\<not> known_function fn) ''memory function is invalid'') (cf_functions f)]"

definition visible_to :: "access_scope \<Rightarrow> scope \<Rightarrow> bool" where
  "visible_to a s \<longleftrightarrow>
     sc_visibility s = VisibilityPrivate \<and> sc_owner s \<in> set (ac_private_owners a) \<or>
     sc_visibility s = VisibilityShared \<and> ac_allow_shared a \<or>
     sc_visibility s = VisibilityPublic \<and> ac_allow_public a"

text \<open>\<open>from <= at AND (to IS NULL OR to > at)\<close>, on the stored text.\<close>

definition in_range :: "time_range \<Rightarrow> gtime \<Rightarrow> bool" where
  "in_range r at' \<longleftrightarrow> text_le (tr_from r) at' \<and>
     (case tr_to r of None \<Rightarrow> True | Some t \<Rightarrow> text_less at' t)"

text \<open>The \<open>EXISTS\<close> sub-select on working sets; an empty context is NULL.\<close>

definition open_working_set :: "gtime \<Rightarrow> memory \<Rightarrow> working_row \<Rightarrow> bool" where
  "open_working_set at' m r \<longleftrightarrow>
     sc_namespace (ws_scope (wr_set r)) = sc_namespace (me_scope m) \<and>
     sc_context (me_scope m) \<noteq> '''' \<and> ws_task_id (wr_set r) = sc_context (me_scope m) \<and>
     wr_state r = WorkingActive \<and>
     (case ws_expires_at (wr_set r) of None \<Rightarrow> True | Some t \<Rightarrow> text_less at' t)"

definition working_gate :: "store \<Rightarrow> candidate_filter \<Rightarrow> memory \<Rightarrow> bool" where
  "working_gate st f m \<longleftrightarrow> me_function m \<noteq> FunctionWorking \<or>
     (if cf_context f \<noteq> ''''
      then list_ex (\<lambda>r. open_working_set (cf_system_at f) m r \<and> ws_task_id (wr_set r) = cf_context f) (st_working_sets st)
      else cf_include_global_working f \<and>
        list_ex (\<lambda>r. open_working_set (cf_system_at f) m r \<and> ws_global_recall (wr_set r)) (st_working_sets st))"

definition admissible :: "store \<Rightarrow> candidate_filter \<Rightarrow> memory \<Rightarrow> memory_version \<Rightarrow> bool" where
  "admissible st f m v \<longleftrightarrow>
     sc_namespace (me_scope m) = ac_namespace (cf_access f) \<and> sc_subject (me_scope m) = cf_subject f \<and>
     visible_to (cf_access f) (me_scope m) \<and> me_state m = MemoryActive \<and>
     mv_state v \<in> {VersionCurrent, VersionSuperseded} \<and>
     in_range (mv_valid_time v) (cf_valid_at f) \<and> in_range (mv_system_time v) (cf_system_at f) \<and>
     working_gate st f m \<and>
     (cf_functions f = [] \<or> me_function m \<in> set (cf_functions f))"

section \<open>The lexical query text\<close>

record unicode =
  uc_letter :: "int \<Rightarrow> bool"
  uc_number :: "int \<Rightarrow> bool"
  uc_lower :: "int \<Rightarrow> int"

definition fts_rune :: "unicode \<Rightarrow> int \<Rightarrow> bool" where
  "fts_rune uc c \<longleftrightarrow> uc_letter uc c \<or> uc_number uc c \<or> c = 95"

text \<open>The loop over runes with the token being built.\<close>

fun fts_tokens :: "unicode \<Rightarrow> string \<Rightarrow> (int \<times> string) list \<Rightarrow> string list" where
  "fts_tokens uc cur [] = (if cur = '''' then [] else [cur])"
| "fts_tokens uc cur ((c, bytes) # rs) =
     (if fts_rune uc c then fts_tokens uc (cur @ bytes) rs
      else (if cur = '''' then [] else [cur]) @ fts_tokens uc '''' rs)"

definition safe_fts_query :: "unicode \<Rightarrow> string \<Rightarrow> string result" where
  "safe_fts_query uc query =
     (let tokens = fts_tokens uc '''' (runes query) in
      if tokens = [] then Inl (Errorf ''lexical query contains no searchable tokens'')
      else Inr (join '' OR '' (map (\<lambda>t. [CHR 0x22] @ t @ [CHR 0x22]) tokens)))"

section \<open>Queries\<close>

type_synonym fts_engine = "string \<Rightarrow> fts_row list \<Rightarrow> fts_row \<Rightarrow> f64 option"

text \<open>Insertion sort by a strict order, for keys that are not linearly ordered types.\<close>

fun insert_by :: "('a \<Rightarrow> 'a \<Rightarrow> bool) \<Rightarrow> 'a \<Rightarrow> 'a list \<Rightarrow> 'a list" where
  "insert_by lt x [] = [x]"
| "insert_by lt x (y # ys) = (if lt y x then y # insert_by lt x ys else x # y # ys)"

definition sort_by :: "('a \<Rightarrow> 'a \<Rightarrow> bool) \<Rightarrow> 'a list \<Rightarrow> 'a list" where
  "sort_by lt xs = foldr (insert_by lt) xs []"

lemma set_insert_by [simp]: "set (insert_by lt x ys) = insert x (set ys)"
  by (induction ys) auto

lemma set_sort_by [simp]: "set (sort_by lt xs) = set xs"
  by (induction xs) (simp_all add: sort_by_def)

lemma length_insert_by [simp]: "length (insert_by lt x ys) = Suc (length ys)"
  by (induction ys) auto

lemma length_sort_by [simp]: "length (sort_by lt xs) = length xs"
  by (induction xs) (simp_all add: sort_by_def)

text \<open>\<open>LIMIT\<close>: a negative limit is none.\<close>

definition sql_limit :: "int \<Rightarrow> 'a list \<Rightarrow> 'a list" where
  "sql_limit n xs = (if n < 0 then xs else take (nat n) xs)"

text \<open>\<open>memory_fts JOIN memory_versions v JOIN memories m\<close>, restricted by the filter.\<close>

definition joined :: "store \<Rightarrow> candidate_filter \<Rightarrow> fts_row \<Rightarrow> (memory \<times> memory_version) list" where
  "joined st f r =
     (case find_row mv_id (fx_version r) (st_versions st) of
        None \<Rightarrow> []
      | Some v \<Rightarrow> (case find_row me_id (mv_memory_id v) (st_memories st) of
          None \<Rightarrow> []
        | Some m \<Rightarrow> if admissible st f m v then [(m, v)] else []))"

definition make_candidate :: "fts_row \<Rightarrow> memory \<Rightarrow> memory_version \<Rightarrow> stored_candidate" where
  "make_candidate r m v = \<lparr>sn_memory_id = me_id m, sn_version_id = mv_id v, sn_function = me_function m,
     sn_conflict_group = mv_conflict_group v, sn_payload = mv_payload v, sn_provenance = mv_provenance v,
     sn_text = fx_text r, sn_lexical = None, sn_semantic = None, sn_vector = []\<rparr>"

definition candidate_check :: "stored_candidate \<Rightarrow> check" where
  "candidate_check c = first_error
     [wrap_check ''validate candidate payload'' (payload_validate (sn_function c) (sn_payload c)),
      err_if (sn_provenance c = []) ''candidate provenance is empty'']"

fun map_result :: "('a \<Rightarrow> 'b result) \<Rightarrow> 'a list \<Rightarrow> 'b list result" where
  "map_result f [] = Inr []"
| "map_result f (x # xs) = bind_result (f x) (\<lambda>y. bind_result (map_result f xs) (\<lambda>ys. Inr (y # ys)))"

definition lexical_less :: "stored_candidate \<Rightarrow> stored_candidate \<Rightarrow> bool" where
  "lexical_less a b \<longleftrightarrow>
     (let x = the (sn_lexical a); y = the (sn_lexical b) in
      f64_less x y \<or> \<not> f64_less y x \<and> sn_version_id a < sn_version_id b)"

definition lexical_rows :: "fts_engine \<Rightarrow> store \<Rightarrow> candidate_filter \<Rightarrow> string \<Rightarrow> stored_candidate list" where
  "lexical_rows fts st f match = concat (map (\<lambda>r.
     case fts match (st_fts st) r of
       None \<Rightarrow> []
     | Some score \<Rightarrow> map (\<lambda>(m, v). (make_candidate r m v)\<lparr>sn_lexical := Some score\<rparr>) (joined st f r)) (st_fts st))"

definition search_lexical_candidates ::
  "unicode \<Rightarrow> fts_engine \<Rightarrow> store \<Rightarrow> candidate_filter \<Rightarrow> string \<Rightarrow> int \<Rightarrow> stored_candidate list result" where
  "search_lexical_candidates uc fts st f query limit =
     bind_result (safe_fts_query uc query) (\<lambda>match.
     guard_check (filter_check f)
      (map_result (\<lambda>c. guard_check (candidate_check c) (Inr c))
        (sql_limit limit (sort_by lexical_less (lexical_rows fts st f match)))))"

definition semantic_rows ::
  "store \<Rightarrow> candidate_filter \<Rightarrow> string \<Rightarrow> string \<Rightarrow> (embedding_row \<times> stored_candidate) list" where
  "semantic_rows st f provider model = concat (map (\<lambda>e.
     concat (map (\<lambda>r. map (\<lambda>(m, v). (e, make_candidate r m v)) (joined st f r))
       (filter (\<lambda>r. fx_version r = eb_version e) (st_fts st))))
     (filter (\<lambda>e. eb_provider e = provider \<and> eb_model e = model) (st_embeddings st)))"

definition scan_semantic :: "lib \<Rightarrow> embedding_row \<times> stored_candidate \<Rightarrow> stored_candidate result" where
  "scan_semantic L = (\<lambda>(e, c).
     guard_check (err_if (eb_content_sha256 e \<noteq> hex_encode (lb_sha256 L (sn_text c))) ''stored embedding content digest mismatch'')
     (bind_result (wrap_result ''decode embedding'' (decode_vector (eb_blob e) (eb_dimensions e))) (\<lambda>vs.
       guard_check (candidate_check c) (Inr (c\<lparr>sn_vector := vs\<rparr>)))))"

definition list_semantic_candidates ::
  "lib \<Rightarrow> store \<Rightarrow> candidate_filter \<Rightarrow> string \<Rightarrow> string \<Rightarrow> int \<Rightarrow> stored_candidate list result" where
  "list_semantic_candidates L st f provider model limit =
     guard_check (err_if (provider = '''' \<or> model = '''' \<or> limit < 1 \<or> limit > 10001)
        ''semantic provider, model, and limit within [1,10001] are required'')
     (guard_check (filter_check f)
      (map_result (scan_semantic L)
        (sql_limit limit (sort_key (\<lambda>(e, c). sn_version_id c) (semantic_rows st f provider model)))))"

section \<open>Traces\<close>

text \<open>
  The trace and its candidate rows in one transaction. \<open>json.Marshal\<close> of a candidate
  fails on scores that are not finite; the trace validation has refused them before.
\<close>

definition put_retrieval_trace :: "retrieval_trace \<Rightarrow> store \<Rightarrow> store \<times> unit result" where
  "put_retrieval_trace t st =
     transaction st
      (guard_check (wrap_check ''validate retrieval trace'' (trace_validate t))
      (bind_result
        (wrap_result ''insert retrieval trace''
          (insert_row ''retrieval_traces.id'' (rt_id t \<in> rt_id ` set (st_traces st)) t (st_traces st)))
        (\<lambda>rows. Inr (st\<lparr>st_traces := rows\<rparr>, ()))))"

section \<open>What a query returns\<close>

lemma map_result_Inr:
  "map_result f xs = Inr ys \<longleftrightarrow> list_all2 (\<lambda>x y. f x = Inr y) xs ys"
proof (induction xs arbitrary: ys)
  case Nil
  then show ?case by auto
next
  case (Cons x xs)
  show ?case by (cases ys) (auto simp: bind_result_Inr Cons.IH)
qed

lemma map_result_guard:
  "map_result (\<lambda>c. guard_check (p c) (Inr c)) xs = Inr ys \<longleftrightarrow> ys = xs \<and> (\<forall>x \<in> set xs. p x = None)"
proof (induction xs arbitrary: ys)
  case Nil
  then show ?case by auto
next
  case (Cons x xs)
  show ?case by (auto simp: bind_result_Inr guard_check_Inr Cons.IH)
qed

lemma set_sql_limit: "set (sql_limit n xs) \<subseteq> set xs"
  by (simp add: sql_limit_def set_take_subset)

lemma joinedD:
  assumes "(m, v) \<in> set (joined st f r)"
  shows "m \<in> set (st_memories st)" "v \<in> set (st_versions st)" "me_id m = mv_memory_id v" "mv_id v = fx_version r"
    "admissible st f m v"
  using assms by (auto simp: joined_def split: option.splits if_splits dest!: find_row_SomeD find_row_SomeD [OF sym])

text \<open>A candidate is the row of a stored version of its memory, past the filter.\<close>

definition granted :: "store \<Rightarrow> candidate_filter \<Rightarrow> stored_candidate \<Rightarrow> bool" where
  "granted st f c \<longleftrightarrow> (\<exists>m \<in> set (st_memories st). \<exists>v \<in> set (st_versions st). \<exists>r \<in> set (st_fts st).
     me_id m = mv_memory_id v \<and> fx_version r = mv_id v \<and> admissible st f m v \<and>
     sn_memory_id c = me_id m \<and> sn_version_id c = mv_id v \<and> sn_function c = me_function m \<and>
     sn_conflict_group c = mv_conflict_group v \<and> sn_payload c = mv_payload v \<and>
     sn_provenance c = mv_provenance v \<and> sn_text c = fx_text r)"

lemma granted_joined:
  assumes "(m, v) \<in> set (joined st f r)" and "r \<in> set (st_fts st)"
  shows "granted st f (make_candidate r m v)"
  unfolding granted_def
  by (rule bexI [of _ m], rule bexI [of _ v], rule bexI [of _ r])
    (use assms joinedD [OF assms(1)] in \<open>simp_all add: make_candidate_def\<close>)

lemma granted_scores [simp]:
  "granted st f (c\<lparr>sn_lexical := a\<rparr>) = granted st f c" "granted st f (c\<lparr>sn_semantic := a\<rparr>) = granted st f c"
  "granted st f (c\<lparr>sn_vector := vs\<rparr>) = granted st f c"
  by (simp_all add: granted_def)

lemma lexical_rows_granted: "c \<in> set (lexical_rows fts st f match) \<Longrightarrow> granted st f c"
  by (auto simp: lexical_rows_def split: option.splits dest: granted_joined)

lemma lexical_rows_score: "c \<in> set (lexical_rows fts st f match) \<Longrightarrow> \<exists>x. sn_lexical c = Some x"
  by (auto simp: lexical_rows_def split: option.splits) (metis option.exhaust)+

lemma semantic_rows_granted: "(e, c) \<in> set (semantic_rows st f provider model) \<Longrightarrow> granted st f c"
  by (auto simp: semantic_rows_def dest: granted_joined)

lemma search_lexical_Inr:
  "search_lexical_candidates uc fts st f query limit = Inr cs \<longleftrightarrow>
     (\<exists>match. safe_fts_query uc query = Inr match \<and> filter_check f = None \<and>
        cs = sql_limit limit (sort_by lexical_less (lexical_rows fts st f match)) \<and>
        (\<forall>c \<in> set cs. candidate_check c = None))"
  by (auto simp: search_lexical_candidates_def bind_result_Inr guard_check_Inr map_result_guard)

lemma search_lexical_granted:
  assumes "search_lexical_candidates uc fts st f query limit = Inr cs" and "c \<in> set cs"
  shows "granted st f c"
  using assms set_sql_limit lexical_rows_granted unfolding search_lexical_Inr by fastforce

lemma scan_semanticD:
  assumes "scan_semantic L (e, c) = Inr d"
  shows "d = c\<lparr>sn_vector := sn_vector d\<rparr>" "decode_vector (eb_blob e) (eb_dimensions e) = Inr (sn_vector d)"
  using assms by (auto simp: scan_semantic_def bind_result_Inr guard_check_Inr wrap_result_Inr)

lemma list_all2_in_right: "list_all2 R xs ys \<Longrightarrow> y \<in> set ys \<Longrightarrow> \<exists>x \<in> set xs. R x y"
  by (induction rule: list_all2_induct) auto

lemma list_semantic_granted:
  assumes "list_semantic_candidates L st f provider model limit = Inr cs" and "d \<in> set cs"
  shows "granted st f d"
proof -
  let ?rows = "sql_limit limit (sort_key (\<lambda>(e, c). sn_version_id c) (semantic_rows st f provider model))"
  have all: "list_all2 (\<lambda>x y. scan_semantic L x = Inr y) ?rows cs"
    using assms(1) unfolding list_semantic_candidates_def guard_check_Inr map_result_Inr by blast
  from list_all2_in_right [OF all assms(2)]
  obtain x where x: "x \<in> set ?rows" "scan_semantic L x = Inr d" by (elim bexE)
  obtain e c where "x = (e, c)" by (cases x)
  with x have ec: "(e, c) \<in> set ?rows" "scan_semantic L (e, c) = Inr d" by simp_all
  have "set ?rows \<subseteq> set (semantic_rows st f provider model)" using set_sql_limit by fastforce
  with ec(1) have "(e, c) \<in> set (semantic_rows st f provider model)" by blast
  then have "granted st f c" by (rule semantic_rows_granted)
  then have "granted st f (c\<lparr>sn_vector := sn_vector d\<rparr>)" by simp
  then show ?thesis by (subst scan_semanticD(1) [OF ec(2)])
qed

end
