(* ===== verification/GoJson.thy ===== *)
theory GoJson
  imports GoTime
begin

text \<open>
  The part of Go's \<open>encoding/json\<close> and UTF-8 encoding the program hashes and reads
  documents with: \<open>json.Marshal\<close> of values (strings with the default HTML escapes,
  numbers as their text, as \<open>UseNumber\<close> keeps them), the decoder into \<open>any\<close> with its
  nesting limit, \<open>json.Valid\<close>, and the map semantics of objects (the last of equal
  keys, encoded in ascending key order). Decoding an encoded document gives it back.
\<close>

section \<open>Encoding runes\<close>

definition chars_of :: "int list \<Rightarrow> string" where
  "chars_of bs = map char_of bs"

definition is_surrogate :: "int \<Rightarrow> bool" where
  "is_surrogate r \<longleftrightarrow> 55296 \<le> r \<and> r \<le> 57343"

text \<open>\<open>utf8.AppendRune\<close>: values that are no rune become U+FFFD.\<close>

definition encode_rune :: "int \<Rightarrow> string" where
  "encode_rune r = chars_of
     (if r < 0 \<or> r > 1114111 \<or> is_surrogate r then [239, 191, 189]
      else if r < 128 then [r]
      else if r < 2048 then [192 + r div 64, 128 + r mod 64]
      else if r < 65536 then [224 + r div 4096, 128 + r div 64 mod 64, 128 + r mod 64]
      else [240 + r div 262144, 128 + r div 4096 mod 64, 128 + r div 64 mod 64, 128 + r mod 64])"

text \<open>Every invalid byte replaced: what \<open>encoding/json\<close> does to strings.\<close>

definition invalid_rune :: "int \<times> string \<Rightarrow> bool" where
  "invalid_rune x \<longleftrightarrow> fst x = 65533 \<and> length (snd x) = 1"

definition valid_utf8 :: "string \<Rightarrow> bool" where
  "valid_utf8 s \<longleftrightarrow> list_all (\<lambda>x. \<not> invalid_rune x) (runes s)"

definition to_valid_utf8 :: "string \<Rightarrow> string" where
  "to_valid_utf8 s = concat (map (\<lambda>x. if invalid_rune x then encode_rune 65533 else snd x) (runes s))"

lemma to_valid_utf8_valid:
  assumes "valid_utf8 s"
  shows "to_valid_utf8 s = s"
proof -
  have "map (\<lambda>x. if invalid_rune x then encode_rune 65533 else snd x) (runes s) = map snd (runes s)"
    using assms by (intro map_cong refl) (simp add: valid_utf8_def list_all_iff)
  then show ?thesis by (simp only: to_valid_utf8_def concat_runes)
qed

section \<open>Values and their encoding\<close>

datatype json =
    JNull
  | JBool bool
  | JNumber string
  | JString string
  | JArray "json list"
  | JObject "(string \<times> json) list"

definition u_escape :: "int \<Rightarrow> string" where
  "u_escape r = [CHR 0x5C, CHR ''u'', hex_digit (r div 4096), hex_digit (r div 256 mod 16),
     hex_digit (r div 16 mod 16), hex_digit (r mod 16)]"

definition escape_rune :: "int \<times> string \<Rightarrow> string" where
  "escape_rune x =
     (let r = fst x in
      if r = 34 \<or> r = 92 then CHR 0x5C # snd x
      else if r = 8 then [CHR 0x5C, CHR ''b'']
      else if r = 12 then [CHR 0x5C, CHR ''f'']
      else if r = 10 then [CHR 0x5C, CHR ''n'']
      else if r = 13 then [CHR 0x5C, CHR ''r'']
      else if r = 9 then [CHR 0x5C, CHR ''t'']
      else if r < 32 \<or> r = 60 \<or> r = 62 \<or> r = 38 \<or> r = 8232 \<or> r = 8233 then u_escape r
      else if invalid_rune x then u_escape 65533
      else snd x)"

definition encode_string :: "string \<Rightarrow> string" where
  "encode_string s = [CHR 0x22] @ concat (map escape_rune (runes s)) @ [CHR 0x22]"

fun json_encode :: "json \<Rightarrow> string" where
  "json_encode JNull = ''null''"
| "json_encode (JBool b) = (if b then ''true'' else ''false'')"
| "json_encode (JNumber t) = t"
| "json_encode (JString s) = encode_string s"
| "json_encode (JArray xs) = ''['' @ join '','' (map json_encode xs) @ '']''"
| "json_encode (JObject kvs) =
     ''{'' @ join '','' (map (\<lambda>(k, v). encode_string k @ '':'' @ json_encode v) kvs) @ ''}''"

text \<open>\<open>strconv\<close>'s decimal text of an int.\<close>

definition int_text :: "int \<Rightarrow> string" where
  "int_text n = (if n < 0 then ''-'' @ decimal (- n) else decimal n)"

definition JInt :: "int \<Rightarrow> json" where
  "JInt n = JNumber (int_text n)"

text \<open>A Go map is encoded in ascending key order.\<close>

fun put_member :: "string \<times> json \<Rightarrow> (string \<times> json) list \<Rightarrow> (string \<times> json) list" where
  "put_member m [] = [m]"
| "put_member m (x # xs) =
     (if fst m < fst x then m # x # xs else if fst m = fst x then m # xs else x # put_member m xs)"

definition go_map :: "(string \<times> json) list \<Rightarrow> (string \<times> json) list" where
  "go_map kvs = fold put_member kvs []"

fun map_semantics :: "json \<Rightarrow> json" where
  "map_semantics (JArray xs) = JArray (map map_semantics xs)"
| "map_semantics (JObject kvs) = JObject (go_map (map (\<lambda>(k, v). (k, map_semantics v)) kvs))"
| "map_semantics j = j"

section \<open>Decoding\<close>

definition json_space :: "char \<Rightarrow> bool" where
  "json_space c \<longleftrightarrow> c \<in> {CHR 0x20, CHR 0x09, CHR 0x0A, CHR 0x0D}"

definition skip_space :: "string \<Rightarrow> string" where
  "skip_space s = dropWhile json_space s"

definition eat :: "char \<Rightarrow> string \<Rightarrow> string option" where
  "eat c s = (case skip_space s of [] \<Rightarrow> None | x # xs \<Rightarrow> if x = c then Some xs else None)"

definition hex4 :: "string \<Rightarrow> (int \<times> string) option" where
  "hex4 s = (case s of
     a # b # c # d # rest \<Rightarrow>
       (case (hex_value a, hex_value b, hex_value c, hex_value d) of
          (Some w, Some x, Some y, Some z) \<Rightarrow> Some (w * 4096 + x * 256 + y * 16 + z, rest)
        | _ \<Rightarrow> None)
   | _ \<Rightarrow> None)"

text \<open>The second half of a surrogate pair, when the text goes on with one.\<close>

definition low_surrogate :: "string \<Rightarrow> (int \<times> string) option" where
  "low_surrogate s =
     (if take 2 s = [CHR 0x5C, CHR ''u''] then
        (case hex4 (drop 2 s) of
           None \<Rightarrow> None
         | Some (r, rest) \<Rightarrow> if 56320 \<le> r \<and> r \<le> 57343 then Some (r, rest) else None)
      else None)"

definition u_rune :: "int \<Rightarrow> string \<Rightarrow> string \<times> string" where
  "u_rune r rest =
     (if \<not> is_surrogate r then (encode_rune r, rest)
      else (case low_surrogate rest of
          None \<Rightarrow> (encode_rune 65533, rest)
        | Some (r2, rest') \<Rightarrow> if r < 56320 then (encode_rune (65536 + (r - 55296) * 1024 + (r2 - 56320)), rest')
            else (encode_rune 65533, rest)))"

text \<open>What follows a backslash.\<close>

definition unescape :: "string \<Rightarrow> (string \<times> string) option" where
  "unescape s = (case s of
     [] \<Rightarrow> None
   | c # cs \<Rightarrow>
      (if c \<in> {CHR 0x22, CHR 0x5C, CHR ''/''} then Some ([c], cs)
       else if c = CHR ''b'' then Some ([CHR 0x08], cs)
       else if c = CHR ''f'' then Some ([CHR 0x0C], cs)
       else if c = CHR ''n'' then Some ([CHR 0x0A], cs)
       else if c = CHR ''r'' then Some ([CHR 0x0D], cs)
       else if c = CHR ''t'' then Some ([CHR 0x09], cs)
       else if c = CHR ''u'' then (case hex4 cs of None \<Rightarrow> None | Some (r, rest) \<Rightarrow> Some (u_rune r rest))
       else None))"

lemma hex4_shorter: "hex4 s = Some (r, rest) \<Longrightarrow> length rest < length s"
  by (auto simp: hex4_def split: list.splits option.splits prod.splits)

lemma unescape_shorter: "unescape s = Some (p, rest) \<Longrightarrow> length rest < length s"
proof (cases s)
  case (Cons c cs)
  assume u: "unescape s = Some (p, rest)"
  have "length rest \<le> length t" if "u_rune r t = (p, rest)" for r t
    using that hex4_shorter [of "drop 2 t"]
    by (fastforce simp: u_rune_def low_surrogate_def split: if_splits option.splits)
  with u Cons show ?thesis
    using hex4_shorter [of cs] by (fastforce simp: unescape_def split: if_splits option.splits)
qed (simp add: unescape_def)

text \<open>The body of a string after its opening quote, with what follows the closing one.\<close>

function unquote :: "string \<Rightarrow> (string \<times> string) option" where
  "unquote [] = None"
| "unquote (c # cs) =
     (if c = CHR 0x22 then Some ([], cs)
      else if c = CHR 0x5C then
        (case unescape cs of
           None \<Rightarrow> None
         | Some (p, rest) \<Rightarrow> map_option (\<lambda>(t, r). (p @ t, r)) (unquote rest))
      else if byte_of c < 32 then None
      else map_option (\<lambda>(t, r). (c # t, r)) (unquote cs))"
  by pat_completeness auto
termination
  by (relation "measure length") (auto dest: unescape_shorter)

definition parse_string :: "string \<Rightarrow> (string \<times> string) option" where
  "parse_string s = (case eat (CHR 0x22) s of
     None \<Rightarrow> None
   | Some cs \<Rightarrow> map_option (\<lambda>(t, r). (to_valid_utf8 t, r)) (unquote cs))"

definition is_digit :: "char \<Rightarrow> bool" where
  "is_digit c \<longleftrightarrow> 48 \<le> byte_of c \<and> byte_of c \<le> 57"

text \<open>The grammar of numbers, part by part: sign, integer, fraction, exponent.\<close>

definition split_digits :: "string \<Rightarrow> string \<times> string" where
  "split_digits s = (takeWhile is_digit s, dropWhile is_digit s)"

definition split_integer :: "string \<Rightarrow> (string \<times> string) option" where
  "split_integer s = (case s of
     [] \<Rightarrow> None
   | c # cs \<Rightarrow> if c = CHR ''0'' then Some ([c], cs) else if is_digit c then Some (split_digits s) else None)"

definition split_fraction :: "string \<Rightarrow> (string \<times> string) option" where
  "split_fraction s = (case s of
     [] \<Rightarrow> Some ([], s)
   | c # cs \<Rightarrow> if c \<noteq> CHR ''.'' then Some ([], s)
       else (case split_digits cs of (ds, r) \<Rightarrow> if ds = [] then None else Some (c # ds, r)))"

definition split_exponent :: "string \<Rightarrow> (string \<times> string) option" where
  "split_exponent s = (case s of
     [] \<Rightarrow> Some ([], s)
   | c # cs \<Rightarrow> if c \<notin> {CHR ''e'', CHR ''E''} then Some ([], s)
       else (let (sg, t) = (case cs of x # xs \<Rightarrow> if x \<in> {CHR ''+'', CHR ''-''} then ([x], xs) else ([], cs) | [] \<Rightarrow> ([], cs));
                 (ds, r) = split_digits t
             in if ds = [] then None else Some (c # sg @ ds, r)))"

definition split_sign :: "string \<Rightarrow> string \<times> string" where
  "split_sign s = (case s of c # cs \<Rightarrow> if c = CHR ''-'' then ([c], cs) else ([], s) | [] \<Rightarrow> ([], s))"

definition parse_number :: "string \<Rightarrow> (string \<times> string) option" where
  "parse_number s =
     (case split_sign s of (sg, s1) \<Rightarrow>
      case split_integer s1 of None \<Rightarrow> None | Some (i, s2) \<Rightarrow>
      case split_fraction s2 of None \<Rightarrow> None | Some (f, s3) \<Rightarrow>
      map_option (\<lambda>(e, r). (sg @ i @ f @ e, r)) (split_exponent s3))"

definition literal :: "string \<Rightarrow> json \<Rightarrow> string \<Rightarrow> (json \<times> string) option" where
  "literal w j s = (if take (length w) s = w then Some (j, drop (length w) s) else None)"

text \<open>
  The decoder. The first argument is fuel: every second call reads at least one
  character, so twice the length of the text and two more are enough. The second is
  the nesting depth, of which the scanner allows 10000.
\<close>

fun parse_value :: "nat \<Rightarrow> int \<Rightarrow> string \<Rightarrow> (json \<times> string) option"
  and parse_elements :: "nat \<Rightarrow> int \<Rightarrow> string \<Rightarrow> (json list \<times> string) option"
  and parse_members :: "nat \<Rightarrow> int \<Rightarrow> string \<Rightarrow> ((string \<times> json) list \<times> string) option"
where
  "parse_value 0 d s = None"
| "parse_value (Suc n) d s = (case skip_space s of
     [] \<Rightarrow> None
   | c # cs \<Rightarrow>
      (if c = CHR 0x22 then map_option (\<lambda>(t, r). (JString t, r)) (parse_string (c # cs))
       else if c = CHR 0x5B then
         (if d \<ge> 10000 then None
          else (case eat (CHR 0x5D) cs of
              Some r \<Rightarrow> Some (JArray [], r)
            | None \<Rightarrow> map_option (\<lambda>(vs, r). (JArray vs, r)) (parse_elements n (d + 1) cs)))
       else if c = CHR 0x7B then
         (if d \<ge> 10000 then None
          else (case eat (CHR 0x7D) cs of
              Some r \<Rightarrow> Some (JObject [], r)
            | None \<Rightarrow> map_option (\<lambda>(kvs, r). (JObject kvs, r)) (parse_members n (d + 1) cs)))
       else if c = CHR ''n'' then literal ''null'' JNull (c # cs)
       else if c = CHR ''t'' then literal ''true'' (JBool True) (c # cs)
       else if c = CHR ''f'' then literal ''false'' (JBool False) (c # cs)
       else map_option (\<lambda>(t, r). (JNumber t, r)) (parse_number (c # cs))))"
| "parse_elements 0 d s = None"
| "parse_elements (Suc n) d s = (case parse_value n d s of
     None \<Rightarrow> None
   | Some (v, r) \<Rightarrow> (case eat (CHR 0x2C) r of
       Some r' \<Rightarrow> map_option (\<lambda>(vs, t). (v # vs, t)) (parse_elements n d r')
     | None \<Rightarrow> map_option (\<lambda>t. ([v], t)) (eat (CHR 0x5D) r)))"
| "parse_members 0 d s = None"
| "parse_members (Suc n) d s = (case parse_string s of
     None \<Rightarrow> None
   | Some (k, r) \<Rightarrow> (case eat (CHR 0x3A) r of
       None \<Rightarrow> None
     | Some r1 \<Rightarrow> (case parse_value n d r1 of
         None \<Rightarrow> None
       | Some (v, r2) \<Rightarrow> (case eat (CHR 0x2C) r2 of
           Some r3 \<Rightarrow> map_option (\<lambda>(kvs, t). ((k, v) # kvs, t)) (parse_members n d r3)
         | None \<Rightarrow> map_option (\<lambda>t. ([(k, v)], t)) (eat (CHR 0x7D) r2)))))"

definition json_parse :: "string \<Rightarrow> json option" where
  "json_parse s = (case parse_value (2 * length s + 2) 0 s of
     None \<Rightarrow> None
   | Some (j, rest) \<Rightarrow> if skip_space rest = [] then Some j else None)"

definition json_valid :: "string \<Rightarrow> bool" where
  "json_valid s \<longleftrightarrow> json_parse s \<noteq> None"

section \<open>Decoding what was encoded\<close>

lemma length_chars_of [simp]: "length (chars_of bs) = length bs"
  by (simp add: chars_of_def)

lemma chars_of_bytes: "chars_of (map byte_of s) = s"
  by (induction s) (simp_all add: chars_of_def byte_of_def)

lemma base64_digit:
  assumes "0 \<le> c" and "c < (64 :: int)"
  shows "(a * 64 + c) div 64 = a" "(a * 64 + c) mod 64 = c"
  using assms by simp_all

lemma base64_digits3:
  fixes a b c r :: int
  assumes r: "r = (a * 64 + b) * 64 + c" and bounds: "0 \<le> b" "b < 64" "0 \<le> c" "c < 64"
  shows "r div 64 mod 64 = b" "r mod 64 = c" "r div 4096 = a"
proof -
  have "r div 4096 = r div 64 div 64" using zdiv_zmult2_eq [of 64 r 64] by simp
  then show "r div 4096 = a" unfolding r using bounds by (simp only: base64_digit)
  show "r div 64 mod 64 = b" "r mod 64 = c" unfolding r using bounds by (simp_all only: base64_digit)
qed

lemma base64_digits4:
  fixes a b c d r :: int
  assumes r: "r = ((a * 64 + b) * 64 + c) * 64 + d" and bounds: "0 \<le> b" "b < 64" "0 \<le> c" "c < 64" "0 \<le> d" "d < 64"
  shows "r div 4096 mod 64 = b" "r div 64 mod 64 = c" "r mod 64 = d" "r div 262144 = a"
proof -
  have e: "r div 64 = (a * 64 + b) * 64 + c" "r mod 64 = d" unfolding r using bounds by (simp_all only: base64_digit)
  then show "r mod 64 = d" "r div 64 mod 64 = c" using bounds by (simp_all only: base64_digit)
  have "r div 4096 = r div 64 div 64" "r div 262144 = r div 64 div 4096"
    using zdiv_zmult2_eq [of 64 r 64] zdiv_zmult2_eq [of 4096 r 64] by simp_all
  then show "r div 4096 mod 64 = b" "r div 262144 = a"
    using base64_digits3 [OF e(1) bounds(1-4)] by (simp_all only: e(1) base64_digit bounds)
qed

lemma encode_rune_bytes:
  "128 \<le> r \<Longrightarrow> r < 2048 \<Longrightarrow> encode_rune r = chars_of [192 + r div 64, 128 + r mod 64]"
  "2048 \<le> r \<Longrightarrow> r < 65536 \<Longrightarrow> \<not> is_surrogate r \<Longrightarrow>
     encode_rune r = chars_of [224 + r div 4096, 128 + r div 64 mod 64, 128 + r mod 64]"
  "65536 \<le> r \<Longrightarrow> r \<le> 1114111 \<Longrightarrow>
     encode_rune r = chars_of [240 + r div 262144, 128 + r div 4096 mod 64, 128 + r div 64 mod 64, 128 + r mod 64]"
  by (simp_all only: encode_rune_def is_surrogate_def) simp_all

lemma decoded_rune_encodes:
  assumes "decode_rune bs = (r, n)" and "\<not> (r = 65533 \<and> n = 1)" and "bs \<noteq> []" and "\<forall>b \<in> set bs. 0 \<le> b \<and> b < 256"
  shows "0 \<le> r \<and> n = length (encode_rune r) \<and> encode_rune r = chars_of (take n bs)"
proof -
  obtain b0 cs where bs: "bs = b0 # cs" using assms(3) by (cases bs) auto
  consider "b0 < 128" | "194 \<le> b0" "b0 \<le> 223" | "224 \<le> b0" "b0 \<le> 239" | "240 \<le> b0" "b0 \<le> 244"
    | "128 \<le> b0" "b0 < 194" | "244 < b0" by linarith
  then show ?thesis
  proof cases
    case 1
    then show ?thesis using assms by (auto simp: bs decode_rune.simps encode_rune_def is_surrogate_def)
  next
    case 2
    with assms obtain b1 ds where c: "cs = b1 # ds" "is_continuation b1" and r: "r = (b0 - 192) * 64 + (b1 - 128)" "n = 2"
      by (auto simp: bs decode_rune.simps split: list.splits if_splits)
    have b: "128 \<le> b1" "b1 \<le> 191" using c(2) by (auto simp: is_continuation_def)
    have d: "r div 64 = b0 - 192" "r mod 64 = b1 - 128"
      unfolding r(1) using b by (simp_all only: base64_digit diff_ge_0_iff_ge diff_less_eq)
    have range: "128 \<le> r" "r < 2048" using 2 b r(1) by simp_all
    then have "encode_rune r = chars_of [b0, b1]" unfolding encode_rune_bytes(1) [OF range] d by simp
    then show ?thesis using range(1) by (simp add: bs c(1) r(2))
  next
    case 3
    with assms obtain b1 b2 ds where c: "cs = b1 # b2 # ds" "is_continuation b2"
        "(if b0 = 224 then 160 else 128) \<le> b1" "b1 \<le> (if b0 = 237 then 159 else 191)"
      and r: "r = (b0 - 224) * 4096 + (b1 - 128) * 64 + (b2 - 128)" "n = 3"
      by (auto simp: bs decode_rune.simps split: list.splits if_splits)
    have b: "128 \<le> b1" "b1 \<le> 191" "128 \<le> b2" "b2 \<le> 191" using c by (auto simp: is_continuation_def split: if_splits)
    have r': "r = ((b0 - 224) * 64 + (b1 - 128)) * 64 + (b2 - 128)" using r(1) by simp
    have d: "r div 64 mod 64 = b1 - 128" "r mod 64 = b2 - 128" "r div 4096 = b0 - 224"
      using base64_digits3 [OF r'] b by simp_all
    have range: "2048 \<le> r" "r < 65536" "\<not> is_surrogate r"
      using 3 b c(3,4) r(1) by (auto simp: is_surrogate_def split: if_splits)
    then have "encode_rune r = chars_of [b0, b1, b2]" unfolding encode_rune_bytes(2) [OF range] d by simp
    then show ?thesis using range(1) by (simp add: bs c(1) r(2))
  next
    case 4
    with assms obtain b1 b2 b3 ds where c: "cs = b1 # b2 # b3 # ds" "is_continuation b2" "is_continuation b3"
        "(if b0 = 240 then 144 else 128) \<le> b1" "b1 \<le> (if b0 = 244 then 143 else 191)"
      and r: "r = (b0 - 240) * 262144 + (b1 - 128) * 4096 + (b2 - 128) * 64 + (b3 - 128)" "n = 4"
      by (auto simp: bs decode_rune.simps split: list.splits if_splits)
    have b: "128 \<le> b1" "b1 \<le> 191" "128 \<le> b2" "b2 \<le> 191" "128 \<le> b3" "b3 \<le> 191"
      using c by (auto simp: is_continuation_def split: if_splits)
    have r': "r = (((b0 - 240) * 64 + (b1 - 128)) * 64 + (b2 - 128)) * 64 + (b3 - 128)" using r(1) by simp
    have d: "r div 4096 mod 64 = b1 - 128" "r div 64 mod 64 = b2 - 128" "r mod 64 = b3 - 128" "r div 262144 = b0 - 240"
      by (rule base64_digits4 [OF r']; use b in linarith)+
    have range: "65536 \<le> r" "r \<le> 1114111" using 4 b c(4,5) r(1) by (auto split: if_splits)
    then have "encode_rune r = chars_of [b0, b1, b2, b3]" unfolding encode_rune_bytes(3) [OF range] d by simp
    then show ?thesis using range(1) by (simp add: bs c(1) r(2))
  qed (use assms in \<open>auto simp: bs decode_rune.simps\<close>)
qed

lemma runes_valid:
  "x \<in> set (runes s) \<Longrightarrow> \<not> invalid_rune x \<Longrightarrow> 0 \<le> fst x \<and> snd x = encode_rune (fst x)"
proof (induction s rule: runes.induct)
  case (2 c cs)
  obtain r n where rn: "decode_rune (map byte_of (take 4 (c # cs))) = (r, n)" by force
  have rs: "runes (c # cs) = (r, c # take (n - 1) cs) # runes (drop (n - 1) cs)"
    using rn by (simp add: runes.simps)
  show ?case
  proof (cases "x = (r, c # take (n - 1) cs)")
    case True
    have n: "1 \<le> n" using decode_rune_width [of "byte_of c" "map byte_of (take 3 cs)"] rn by simp
    have width: "n \<le> 4" using rn by (auto simp: decode_rune.simps split: if_splits list.splits)
    have inv: "\<not> (r = 65533 \<and> n = 1)" using 2(3) True by (auto simp: invalid_rune_def)
    have bytes: "\<forall>b \<in> set (map byte_of s). 0 \<le> b \<and> b < 256" for s
      by (induction s) simp_all
    have "map byte_of (take 4 (c # cs)) \<noteq> []" by simp
    from decoded_rune_encodes [OF rn inv this bytes]
    have enc: "0 \<le> r" "encode_rune r = chars_of (take n (map byte_of (take 4 (c # cs))))" by blast+
    have "take n (map byte_of (take 4 (c # cs))) = map byte_of (take n (c # cs))"
      unfolding take_map take_take min.absorb1 [OF width] ..
    then have "encode_rune r = take n (c # cs)" using enc(2) by (simp only: chars_of_bytes)
    moreover have "take n (c # cs) = c # take (n - 1) cs" using n by (cases n) auto
    ultimately have "encode_rune r = c # take (n - 1) cs" by (rule trans)
    then have "c # take (n - 1) cs = encode_rune r" by (rule sym)
    with enc(1) show ?thesis unfolding True fst_conv snd_conv by (rule conjI)
  next
    case False
    with 2 rs rn show ?thesis by auto
  qed
qed simp


lemma eat_same: "\<not> json_space c \<Longrightarrow> eat c (c # s) = Some s"
  by (simp add: eat_def skip_space_def)

lemma eat_other: "\<not> json_space d \<Longrightarrow> d \<noteq> c \<Longrightarrow> eat c (d # s) = None"
  by (simp add: eat_def skip_space_def)

lemma punctuation [simp]:
  "\<not> json_space (CHR 0x22)" "\<not> json_space (CHR 0x2C)" "\<not> json_space (CHR 0x5D)" "\<not> json_space (CHR 0x7D)"
  "\<not> json_space (CHR 0x3A)" "\<not> json_space (CHR 0x5B)" "\<not> json_space (CHR 0x7B)"
  by (simp_all add: json_space_def)

text \<open>Characters that stand for themselves inside a string.\<close>

definition plain_char :: "char \<Rightarrow> bool" where
  "plain_char c \<longleftrightarrow> c \<noteq> CHR 0x22 \<and> c \<noteq> CHR 0x5C \<and> 32 \<le> byte_of c"

abbreviation prepend :: "string \<Rightarrow> (string \<times> string) option \<Rightarrow> (string \<times> string) option" where
  "prepend p r \<equiv> map_option (\<lambda>(t, q). (p @ t, q)) r"

lemma unquote_plain: "list_all plain_char bs \<Longrightarrow> unquote (bs @ rest) = prepend bs (unquote rest)"
proof (induction bs)
  case Nil
  then show ?case by (simp add: case_prod_unfold option.map_ident)
next
  case (Cons b bs)
  then show ?case by (auto simp: plain_char_def option.map_comp comp_def case_prod_unfold)
qed

lemma unquote_escaped: "unescape cs = Some (p, rest) \<Longrightarrow> unquote (CHR 0x5C # cs) = prepend p (unquote rest)"
  by simp

declare unquote.simps(2) [simp del]

lemma hex4_nibbles:
  assumes "0 \<le> a" "a < 16" "0 \<le> b" "b < 16" "0 \<le> c" "c < 16" "0 \<le> d" "d < 16"
  shows "hex4 (hex_digit a # hex_digit b # hex_digit c # hex_digit d # rest) = Some (a * 4096 + b * 256 + c * 16 + d, rest)"
  using assms by (simp add: hex4_def hex_value_hex_digit)

lemma hex4_digits:
  assumes "0 \<le> r" and "r < 65536"
  shows "hex4 (hex_digit (r div 4096) # hex_digit (r div 256 mod 16) # hex_digit (r div 16 mod 16) # hex_digit (r mod 16) # rest) =
    Some (r, rest)"
proof -
  have e: "r div 4096 = r div 16 div 16 div 16" "r div 256 = r div 16 div 16"
    using zdiv_zmult2_eq [of 16 "r" 16] zdiv_zmult2_eq [of 16 "r" 256] zdiv_zmult2_eq [of 16 "r div 16" 16] by simp_all
  have sum: "r div 4096 * 4096 + r div 256 mod 16 * 256 + r div 16 mod 16 * 16 + r mod 16 = r"
    unfolding e using div_mult_mod_eq [of r 16] div_mult_mod_eq [of "r div 16" 16] div_mult_mod_eq [of "r div 16 div 16" 16]
    by linarith
  have "0 \<le> r div 4096" "r div 4096 < 16" using assms by auto
  from hex4_nibbles [OF this, of "r div 256 mod 16" "r div 16 mod 16" "r mod 16" rest]
  show ?thesis unfolding sum by simp
qed

lemma unquote_u_escape:
  assumes "0 \<le> r" "r < 65536" "\<not> is_surrogate r"
  shows "unquote (u_escape r @ rest) = prepend (encode_rune r) (unquote rest)"
  using assms hex4_digits [of r rest]
  by (simp add: u_escape_def unquote_escaped unescape_def u_rune_def)

lemma encode_rune_ascii: "0 \<le> r \<Longrightarrow> r < 128 \<Longrightarrow> encode_rune r = [char_of r]"
  by (simp add: encode_rune_def is_surrogate_def chars_of_def)

lemma encode_rune_plain:
  assumes "32 \<le> r" and "r \<noteq> 34" "r \<noteq> 92"
  shows "list_all plain_char (encode_rune r)"
proof (cases "r < 128")
  case True
  have "char_of r \<noteq> (CHR 0x22 :: char)"
  proof
    assume "char_of r = (CHR 0x22 :: char)"
    then have "byte_of (char_of r) = byte_of (CHR 0x22)" by simp
    then show False using assms True by (simp add: byte_of_char_of) (simp add: byte_of_def)
  qed
  moreover have "char_of r \<noteq> (CHR 0x5C :: char)"
  proof
    assume "char_of r = (CHR 0x5C :: char)"
    then have "byte_of (char_of r) = byte_of (CHR 0x5C)" by simp
    then show False using assms True by (simp add: byte_of_char_of) (simp add: byte_of_def)
  qed
  ultimately show ?thesis using assms True by (simp add: encode_rune_ascii plain_char_def byte_of_char_of)
next
  case False
  have high: "plain_char (char_of (b :: int))" if "128 \<le> b" "b < 256" for b
  proof -
    have "byte_of (char_of b) = b" using that by (simp add: byte_of_char_of)
    moreover have "byte_of (CHR 0x22) = 34" "byte_of (CHR 0x5C) = 92" by (simp_all add: byte_of_def)
    ultimately show ?thesis using that by (auto simp: plain_char_def)
  qed
  have "\<forall>b \<in> set (if r < 0 \<or> r > 1114111 \<or> is_surrogate r then [239, 191, 189]
      else if r < 128 then [r]
      else if r < 2048 then [192 + r div 64, 128 + r mod 64]
      else if r < 65536 then [224 + r div 4096, 128 + r div 64 mod 64, 128 + r mod 64]
      else [240 + r div 262144, 128 + r div 4096 mod 64, 128 + r div 64 mod 64, 128 + r mod 64]). 128 \<le> b \<and> b < 256"
    using False assms by auto
  then show ?thesis unfolding encode_rune_def chars_of_def list_all_iff using high by auto
qed

lemma ascii_codes [simp]:
  "char_of (34 :: int) = CHR 0x22" "char_of (92 :: int) = CHR 0x5C" "char_of (8 :: int) = CHR 0x08"
  "char_of (12 :: int) = CHR 0x0C" "char_of (10 :: int) = CHR 0x0A" "char_of (13 :: int) = CHR 0x0D"
  "char_of (9 :: int) = CHR 0x09"
  by code_simp+

lemma unquote_escape_rune:
  assumes "x \<in> set (runes s)" and "\<not> invalid_rune x"
  shows "unquote (escape_rune x @ rest) = prepend (snd x) (unquote rest)"
proof -
  obtain r bs where x: "x = (r, bs)" by (cases x)
  with runes_valid [OF assms] have r: "0 \<le> r" and bs: "bs = encode_rune r" by simp_all
  have ascii: "unescape (c # cs) = Some ([d], cs) \<Longrightarrow> encode_rune r = [d] \<Longrightarrow>
      unquote ((CHR 0x5C # [c]) @ cs) = prepend (encode_rune r) (unquote cs)" for c d cs
    by (simp add: unquote_escaped)
  consider "r = 34 \<or> r = 92" | "r = 8" | "r = 12" | "r = 10" | "r = 13" | "r = 9"
    | "r \<notin> {34, 92, 8, 12, 10, 13, 9}" "r < 32 \<or> r = 60 \<or> r = 62 \<or> r = 38 \<or> r = 8232 \<or> r = 8233"
    | "r \<noteq> 34" "r \<noteq> 92" "32 \<le> r" "\<not> (r = 60 \<or> r = 62 \<or> r = 38 \<or> r = 8232 \<or> r = 8233)" by fastforce
  then show ?thesis
  proof cases
    case 1
    then have "encode_rune r = [char_of r]" "unescape (char_of r # rest) = Some ([char_of r], rest)"
      by (auto simp: encode_rune_ascii unescape_def)
    from ascii [OF this(2,1)] this(1) 1 show ?thesis by (simp add: x bs escape_rune_def Let_def)
  next
    case 2
    then show ?thesis using ascii [of "CHR ''b''" rest "CHR 0x08"]
      by (simp add: x bs escape_rune_def unescape_def encode_rune_ascii)
  next
    case 3
    then show ?thesis using ascii [of "CHR ''f''" rest "CHR 0x0C"]
      by (simp add: x bs escape_rune_def unescape_def encode_rune_ascii)
  next
    case 4
    then show ?thesis using ascii [of "CHR ''n''" rest "CHR 0x0A"]
      by (simp add: x bs escape_rune_def unescape_def encode_rune_ascii)
  next
    case 5
    then show ?thesis using ascii [of "CHR ''r''" rest "CHR 0x0D"]
      by (simp add: x bs escape_rune_def unescape_def encode_rune_ascii)
  next
    case 6
    then show ?thesis using ascii [of "CHR ''t''" rest "CHR 0x09"]
      by (simp add: x bs escape_rune_def unescape_def encode_rune_ascii)
  next
    case 7
    then have "escape_rune x = u_escape r" by (simp add: x escape_rune_def)
    moreover have "r < 65536" "\<not> is_surrogate r" using 7(2) by (auto simp: is_surrogate_def)
    ultimately show ?thesis using unquote_u_escape [OF r] by (simp add: x bs)
  next
    case 8
    then have "escape_rune x = encode_rune r" using assms(2) by (simp add: x bs escape_rune_def)
    then show ?thesis using unquote_plain [OF encode_rune_plain] 8 by (simp add: x bs)
  qed
qed

lemma unquote_escaped_runes:
  assumes "\<And>x. x \<in> set xs \<Longrightarrow> x \<in> set (runes s) \<and> \<not> invalid_rune x"
  shows "unquote (concat (map escape_rune xs) @ CHR 0x22 # rest) = Some (concat (map snd xs), rest)"
  using assms
proof (induction xs)
  case Nil
  then show ?case by (simp add: unquote.simps(2))
next
  case (Cons x xs)
  have "unquote (escape_rune x @ (concat (map escape_rune xs) @ CHR 0x22 # rest)) =
      prepend (snd x) (unquote (concat (map escape_rune xs) @ CHR 0x22 # rest))"
    using unquote_escape_rune [of x s] Cons.prems by simp
  with Cons show ?case by simp
qed

lemma parse_encode_string:
  assumes "valid_utf8 s"
  shows "parse_string (encode_string s @ rest) = Some (s, rest)"
proof -
  have "unquote (concat (map escape_rune (runes s)) @ CHR 0x22 # rest) = Some (s, rest)"
    using unquote_escaped_runes [of "runes s" s rest] assms by (simp add: valid_utf8_def list_all_iff)
  then show ?thesis by (simp add: parse_string_def encode_string_def eat_same to_valid_utf8_valid assms)
qed

section \<open>Numbers\<close>

definition number_ok :: "string \<Rightarrow> bool" where
  "number_ok t \<longleftrightarrow> parse_number t = Some (t, '''')"

text \<open>What may follow a number without being read as part of it.\<close>

definition ends_number :: "string \<Rightarrow> bool" where
  "ends_number s = (case s of [] \<Rightarrow> True | c # cs \<Rightarrow> \<not> is_digit c \<and> c \<notin> {CHR ''.'', CHR ''e'', CHR ''E''})"

lemma split_digits_append:
  assumes "split_digits s = (ds, r)" and "ends_number rest"
  shows "split_digits (s @ rest) = (ds, r @ rest)"
proof (cases "r = []")
  case True
  then have all: "list_all is_digit s" and ds: "ds = s"
    using assms(1) by (auto simp: split_digits_def list_all_iff dropWhile_eq_Nil_conv)
  have "takeWhile is_digit rest = []" "dropWhile is_digit rest = rest"
    using assms(2) by (auto simp: ends_number_def split: list.splits)
  then show ?thesis using all ds True by (simp add: split_digits_def list_all_iff)
next
  case False
  then have "dropWhile is_digit s \<noteq> []" using assms(1) by (auto simp: split_digits_def)
  then obtain c where "c \<in> set s" "\<not> is_digit c" by (auto simp: dropWhile_eq_Nil_conv)
  then show ?thesis using assms(1) by (auto simp: split_digits_def takeWhile_append1 dropWhile_append1)
qed

lemma split_sign_append:
  assumes "split_sign s = (sg, r)" and "r \<noteq> []"
  shows "split_sign (s @ rest) = (sg, r @ rest)"
  using assms by (auto simp: split_sign_def split: list.splits if_splits)

lemma split_integer_append:
  assumes "split_integer s = Some (i, r)" and "ends_number rest"
  shows "split_integer (s @ rest) = Some (i, r @ rest)"
  using assms split_digits_append [of s i r rest]
  by (cases s) (auto simp: split_integer_def split: if_splits)

lemma split_fraction_append:
  assumes "split_fraction s = Some (f, r)" and "ends_number rest"
  shows "split_fraction (s @ rest) = Some (f, r @ rest)"
proof (cases s)
  case Nil
  then show ?thesis using assms by (cases rest) (auto simp: split_fraction_def ends_number_def)
next
  case (Cons c cs)
  then show ?thesis using assms split_digits_append [of cs _ _ rest]
    by (auto simp: split_fraction_def split: if_splits prod.splits)
qed

lemma split_exponent_append:
  assumes "split_exponent s = Some (e, r)" and "ends_number rest"
  shows "split_exponent (s @ rest) = Some (e, r @ rest)"
proof (cases s)
  case Nil
  then show ?thesis using assms by (cases rest) (auto simp: split_exponent_def ends_number_def)
next
  case (Cons c cs)
  show ?thesis
  proof (cases "c \<in> {CHR ''e'', CHR ''E''}")
    case False
    then show ?thesis using assms Cons by (auto simp: split_exponent_def)
  next
    case True
    obtain sg t where st: "(case cs of x # xs \<Rightarrow> if x \<in> {CHR ''+'', CHR ''-''} then ([x], xs) else ([], cs) | [] \<Rightarrow> ([], cs)) = (sg, t)"
      by force
    obtain ds q where d: "split_digits t = (ds, q)" by force
    have ds: "ds \<noteq> []" "e = c # sg @ ds" "r = q"
      using assms(1) Cons True st d by (auto simp: split_exponent_def split: if_splits)
    have "cs \<noteq> []" using ds(1) d st by (cases cs) (auto simp: split_digits_def)
    then have "(case cs @ rest of x # xs \<Rightarrow> if x \<in> {CHR ''+'', CHR ''-''} then ([x], xs) else ([], cs @ rest) | [] \<Rightarrow> ([], cs @ rest)) =
        (sg, t @ rest)"
      using st by (cases cs) (auto split: if_splits)
    moreover have "split_digits (t @ rest) = (ds, q @ rest)" by (rule split_digits_append [OF d assms(2)])
    ultimately show ?thesis using Cons True ds by (simp add: split_exponent_def)
  qed
qed

lemma parse_number_append:
  assumes "parse_number s = Some (t, r)" and "ends_number rest"
  shows "parse_number (s @ rest) = Some (t, r @ rest)"
proof -
  obtain sg s1 where a: "split_sign s = (sg, s1)" by force
  obtain i s2 where b: "split_integer s1 = Some (i, s2)" using assms(1) a by (auto simp: parse_number_def split: option.splits)
  obtain f s3 where c: "split_fraction s2 = Some (f, s3)" using assms(1) a b by (auto simp: parse_number_def split: option.splits)
  obtain e where d: "split_exponent s3 = Some (e, r)" and t: "t = sg @ i @ f @ e"
    using assms(1) a b c by (auto simp: parse_number_def split: option.splits)
  have "s1 \<noteq> []" using b by (auto simp: split_integer_def)
  then show ?thesis
    using split_sign_append [OF a] split_integer_append [OF b assms(2)] split_fraction_append [OF c assms(2)]
      split_exponent_append [OF d assms(2)] t by (simp add: parse_number_def)
qed

lemma number_first:
  assumes "number_ok t"
  obtains c cs where "t = c # cs" "c = CHR ''-'' \<or> is_digit c"
  using assms that by (cases t)
    (auto simp: number_ok_def parse_number_def split_sign_def split_integer_def is_digit_def byte_of_def split: if_splits option.splits)


section \<open>Documents\<close>

text \<open>What can be encoded: valid text, well-formed numbers, within the nesting limit.\<close>

fun json_ok :: "int \<Rightarrow> json \<Rightarrow> bool" where
  "json_ok d (JNumber t) = number_ok t"
| "json_ok d (JString s) = valid_utf8 s"
| "json_ok d (JArray xs) = (d < 10000 \<and> list_all (json_ok (d + 1)) xs)"
| "json_ok d (JObject kvs) = (d < 10000 \<and> list_all (\<lambda>(k, v). valid_utf8 k \<and> json_ok (d + 1) v) kvs)"
| "json_ok d j = True"

lemma ends_number_punctuation [simp]:
  "ends_number (CHR 0x2C # s)" "ends_number (CHR 0x5D # s)" "ends_number (CHR 0x7D # s)" "ends_number []"
  by (simp_all add: ends_number_def is_digit_def byte_of_def)

lemma number_dispatch:
  assumes "c = CHR ''-'' \<or> is_digit c"
  shows "\<not> json_space c" "c \<notin> {CHR 0x22, CHR 0x5B, CHR 0x7B, CHR ''n'', CHR ''t'', CHR ''f''}"
  using assms by (auto simp: json_space_def is_digit_def byte_of_def)

lemma parse_value_first:
  "\<not> json_space c \<Longrightarrow> skip_space (c # cs) = c # cs"
  by (simp add: skip_space_def)

lemma json_encode_first:
  assumes "json_ok d j"
  obtains c cs where "json_encode j = c # cs" "\<not> json_space c" "c \<noteq> CHR 0x5D" "c \<noteq> CHR 0x7D"
proof (cases j)
  case (JNumber t)
  with assms obtain c cs where "t = c # cs" "c = CHR ''-'' \<or> is_digit c" by (auto elim: number_first)
  moreover from this(2) have "c \<noteq> CHR 0x5D" "c \<noteq> CHR 0x7D" by (auto simp: is_digit_def byte_of_def)
  ultimately show thesis using JNumber number_dispatch that by simp
next
  case (JBool b)
  then show thesis using that by (cases b) (auto simp: json_space_def)
qed (use that in \<open>auto simp: encode_string_def json_space_def split: if_splits\<close>)

fun elements_text :: "json list \<Rightarrow> string" where
  "elements_text [] = '']''"
| "elements_text [x] = json_encode x @ '']''"
| "elements_text (x # y # ys) = json_encode x @ '','' @ elements_text (y # ys)"

lemma elements_text_join: "join '','' (map json_encode xs) @ '']'' = elements_text xs"
  by (induction xs rule: elements_text.induct) simp_all

abbreviation member_text :: "string \<times> json \<Rightarrow> string" where
  "member_text m \<equiv> encode_string (fst m) @ '':'' @ json_encode (snd m)"

fun members_text :: "(string \<times> json) list \<Rightarrow> string" where
  "members_text [] = ''}''"
| "members_text [x] = member_text x @ ''}''"
| "members_text (x # y # ys) = member_text x @ '','' @ members_text (y # ys)"

lemma members_text_join:
  "join '','' (map (\<lambda>(k, v). encode_string k @ '':'' @ json_encode v) kvs) @ ''}'' = members_text kvs"
  by (induction kvs rule: members_text.induct) auto

text \<open>Enough fuel, and an encoded value followed by anything that cannot continue it.\<close>

definition reads_back :: "json \<Rightarrow> bool" where
  "reads_back j \<longleftrightarrow> (\<forall>d n rest. json_ok d j \<longrightarrow> n > 2 * length (json_encode j) \<longrightarrow> ends_number rest \<longrightarrow>
     parse_value n d (json_encode j @ rest) = Some (j, rest))"

lemma parse_elements_text:
  assumes "xs \<noteq> []" and "\<And>x. x \<in> set xs \<Longrightarrow> reads_back x" and "list_all (json_ok d) xs"
    and "n > 2 * length (elements_text xs)"
  shows "parse_elements n d (elements_text xs @ rest) = Some (xs, rest)"
  using assms
proof (induction xs arbitrary: n rule: elements_text.induct)
  case (2 x)
  then obtain m where m: "n = Suc m" "m > 2 * length (json_encode x)" by (cases n) auto
  have "parse_value m d (json_encode x @ (CHR 0x5D # rest)) = Some (x, CHR 0x5D # rest)"
    using 2 m(2) by (simp add: reads_back_def)
  then show ?case by (simp add: m(1) eat_same eat_other)
next
  case (3 x y ys)
  then obtain m where m: "n = Suc m" "m > 2 * length (json_encode x)" "m > 2 * length (elements_text (y # ys))"
    by (cases n) auto
  have "parse_value m d (json_encode x @ (CHR 0x2C # elements_text (y # ys) @ rest)) =
      Some (x, CHR 0x2C # elements_text (y # ys) @ rest)"
    using 3(3,4) m(2) by (simp add: reads_back_def)
  moreover have "parse_elements m d (elements_text (y # ys) @ rest) = Some (y # ys, rest)"
    using 3 m(3) by simp
  ultimately show ?case by (simp add: m(1) eat_same)
qed simp

lemma parse_members_text:
  assumes "kvs \<noteq> []" and "\<And>x. x \<in> snd ` set kvs \<Longrightarrow> reads_back x"
    and "list_all (\<lambda>(k, v). valid_utf8 k \<and> json_ok d v) kvs" and "n > 2 * length (members_text kvs)"
  shows "parse_members n d (members_text kvs @ rest) = Some (kvs, rest)"
  using assms
proof (induction kvs arbitrary: n rule: members_text.induct)
  case (2 x)
  then obtain m where m: "n = Suc m" "m > 2 * length (json_encode (snd x))" by (cases n) auto
  have "parse_value m d (json_encode (snd x) @ (CHR 0x7D # rest)) = Some (snd x, CHR 0x7D # rest)"
    using 2 m(2) by (simp add: reads_back_def case_prod_unfold)
  then show ?case using 2(3) by (simp add: m(1) eat_same eat_other parse_encode_string case_prod_unfold)
next
  case (3 x y ys)
  then obtain m where m: "n = Suc m" "m > 2 * length (json_encode (snd x))" "m > 2 * length (members_text (y # ys))"
    by (cases n) auto
  have "parse_value m d (json_encode (snd x) @ (CHR 0x2C # members_text (y # ys) @ rest)) =
      Some (snd x, CHR 0x2C # members_text (y # ys) @ rest)"
    using 3(3,4) m(2) by (simp add: reads_back_def case_prod_unfold)
  moreover have "parse_members m d (members_text (y # ys) @ rest) = Some (y # ys, rest)"
    using 3 m(3) by simp
  ultimately show ?case using 3(4) by (simp add: m(1) eat_same parse_encode_string case_prod_unfold)
qed simp

lemma elements_first:
  assumes "xs \<noteq> []" and "list_all (json_ok d) xs"
  shows "eat (CHR 0x5D) (elements_text xs @ rest) = None"
proof -
  obtain x ys where xs: "xs = x # ys" using assms(1) by (cases xs) auto
  obtain c cs where "json_encode x = c # cs" "\<not> json_space c" "c \<noteq> CHR 0x5D"
    by (rule json_encode_first [of d x]) (use assms(2) xs in simp_all)
  moreover obtain t where "elements_text xs = json_encode x @ t" by (cases ys) (auto simp: xs)
  ultimately show ?thesis by (simp add: eat_other)
qed

lemma members_first:
  assumes "kvs \<noteq> []"
  shows "eat (CHR 0x7D) (members_text kvs @ rest) = None"
proof -
  obtain x ys where xs: "kvs = x # ys" using assms by (cases kvs) auto
  obtain t where "members_text kvs = encode_string (fst x) @ t" by (cases ys) (auto simp: xs)
  then show ?thesis by (simp add: encode_string_def eat_other)
qed

lemma json_reads_back: "reads_back j"
proof (induction j)
  case (JNumber t)
  show ?case unfolding reads_back_def
  proof (intro allI impI)
    fix d n rest assume a: "json_ok d (JNumber t)" "n > 2 * length (json_encode (JNumber t))" "ends_number rest"
    obtain m where n: "n = Suc m" using a(2) by (cases n) auto
    obtain c cs where t: "t = c # cs" "c = CHR ''-'' \<or> is_digit c" using a(1) by (auto elim: number_first)
    have "parse_number (t @ rest) = Some (t, rest)" using parse_number_append [OF _ a(3)] a(1) by (simp add: number_ok_def)
    then show "parse_value n d (json_encode (JNumber t) @ rest) = Some (JNumber t, rest)"
      using number_dispatch [OF t(2)] by (simp add: n t(1) parse_value_first)
  qed
next
  case (JString s)
  show ?case unfolding reads_back_def
  proof (intro allI impI)
    fix d n rest assume a: "json_ok d (JString s)" "n > 2 * length (json_encode (JString s))"
    obtain m where n: "n = Suc m" using a(2) by (cases n) auto
    obtain t where t: "encode_string s @ rest = CHR 0x22 # t" by (simp add: encode_string_def)
    show "parse_value n d (json_encode (JString s) @ rest) = Some (JString s, rest)"
      using parse_encode_string [of s rest] a(1) by (simp add: n t parse_value_first)
  qed
next
  case (JArray xs)
  show ?case unfolding reads_back_def
  proof (intro allI impI)
    fix d n rest assume a: "json_ok d (JArray xs)" "n > 2 * length (json_encode (JArray xs))"
    obtain m where n: "n = Suc m" "m > 2 * length (elements_text xs)"
      using a(2) by (cases n) (auto simp: elements_text_join [symmetric])
    have enc: "json_encode (JArray xs) @ rest = CHR 0x5B # elements_text xs @ rest"
      by (simp add: elements_text_join [symmetric])
    show "parse_value n d (json_encode (JArray xs) @ rest) = Some (JArray xs, rest)"
    proof (cases "xs = []")
      case True
      then show ?thesis using a(1) unfolding enc by (simp add: n(1) parse_value_first eat_same)
    next
      case False
      then show ?thesis
        using a(1) elements_first [OF False, of "d + 1" rest] parse_elements_text [OF False JArray.IH _ n(2), of "d + 1" rest]
        unfolding enc by (simp add: n(1) parse_value_first)
    qed
  qed
next
  case (JObject kvs)
  show ?case unfolding reads_back_def
  proof (intro allI impI)
    fix d n rest assume a: "json_ok d (JObject kvs)" "n > 2 * length (json_encode (JObject kvs))"
    obtain m where n: "n = Suc m" "m > 2 * length (members_text kvs)"
      using a(2) by (cases n) (auto simp: members_text_join [symmetric])
    have enc: "json_encode (JObject kvs) @ rest = CHR 0x7B # members_text kvs @ rest"
      by (simp add: members_text_join [symmetric])
    have IH: "reads_back x" if "x \<in> snd ` set kvs" for x using that JObject.IH by fastforce
    show "parse_value n d (json_encode (JObject kvs) @ rest) = Some (JObject kvs, rest)"
    proof (cases "kvs = []")
      case True
      then show ?thesis using a(1) unfolding enc by (simp add: n(1) parse_value_first eat_same)
    next
      case False
      then show ?thesis
        using a(1) members_first [OF False, of rest] parse_members_text [OF False IH _ n(2), of "d + 1" rest]
        unfolding enc by (simp add: n(1) parse_value_first)
    qed
  qed
next
  case JNull
  show ?case unfolding reads_back_def
    by (intro allI impI, rename_tac d n rest, case_tac n) (auto simp: literal_def skip_space_def json_space_def)
next
  case (JBool b)
  show ?case unfolding reads_back_def
    by (intro allI impI, rename_tac d n rest, case_tac n) (auto simp: literal_def skip_space_def json_space_def)
qed

lemma json_parse_encode:
  assumes "json_ok 0 j"
  shows "json_parse (json_encode j) = Some j"
proof -
  have "parse_value (2 * length (json_encode j) + 2) 0 (json_encode j @ '''') = Some (j, '''')"
    using json_reads_back [of j] assms unfolding reads_back_def by (metis ends_number_punctuation(4) less_add_same_cancel1 zero_less_numeral)
  then show ?thesis by (simp add: json_parse_def skip_space_def)
qed

lemma json_valid_encode: "json_ok 0 j \<Longrightarrow> json_valid (json_encode j)"
  by (simp add: json_valid_def json_parse_encode)

end
