(* ===== verification/Strategy.thy ===== *)
theory Strategy
  imports Candidates GoJson
begin

text \<open>
  Strategy packages (\<open>internal/strategy/package.go\<close>): the versioned identity of an
  executable strategy, its validation, the canonical JSON it is hashed as, and the
  experiment hash over it. SHA-256 is the digest of the library record.
\<close>

section \<open>Packages\<close>

datatype implementation_label =
    LabelBaseline | LabelReference | LabelAdapter | LabelExperimental | LabelReproduction | LabelOther string

fun label_text :: "implementation_label \<Rightarrow> string" where
  "label_text LabelBaseline = ''baseline''"
| "label_text LabelReference = ''reference''"
| "label_text LabelAdapter = ''adapter''"
| "label_text LabelExperimental = ''experimental''"
| "label_text LabelReproduction = ''reproduction''"
| "label_text (LabelOther s) = s"

datatype fidelity = FidelityNone | FidelityConceptual | FidelityProtocolCompatible | FidelityResultVerified | FidelityOther string

fun fidelity_text :: "fidelity \<Rightarrow> string" where
  "fidelity_text FidelityNone = ''none''"
| "fidelity_text FidelityConceptual = ''conceptual''"
| "fidelity_text FidelityProtocolCompatible = ''protocol-compatible''"
| "fidelity_text FidelityResultVerified = ''result-verified''"
| "fidelity_text (FidelityOther s) = s"

record repair_policy =
  rp_max_attempts :: int
  rp_strict :: bool

record package =
  pk_id :: string
  pk_version :: string
  pk_implementation :: string
  pk_label :: implementation_label
  pk_fidelity :: fidelity
  pk_prompt :: string
  pk_json_schema :: string
  pk_parameters :: string
  pk_capabilities :: "string list"
  pk_repair :: repair_policy
  pk_paper_sources :: "string list"

definition package_validate :: "package \<Rightarrow> check" where
  "package_validate p = first_error
     [err_if (is_blank (pk_id p) \<or> is_blank (pk_version p) \<or> is_blank (pk_implementation p))
        ''strategy id, version, and implementation are required'',
      err_if (case pk_label p of LabelOther s \<Rightarrow> True | _ \<Rightarrow> False) ''strategy implementation label is invalid'',
      err_if (case pk_fidelity p of FidelityOther s \<Rightarrow> True | _ \<Rightarrow> False) ''strategy fidelity is invalid'',
      err_if (pk_label p = LabelReproduction \<and> pk_fidelity p \<noteq> FidelityResultVerified)
        ''reproduction strategy requires result-verified fidelity'',
      err_if (\<not> json_valid (pk_parameters p) \<or> pk_json_schema p \<noteq> '''' \<and> \<not> json_valid (pk_json_schema p))
        ''strategy parameters and schema must be valid JSON'',
      err_if (pk_capabilities p = [] \<or> rp_max_attempts (pk_repair p) < 0)
        ''strategy capabilities and non-negative repair attempts are required'']"

section \<open>Canonical JSON\<close>

text \<open>\<open>slices.Sort\<close> and \<open>slices.Compact\<close>.\<close>

definition sorted_unique :: "string list \<Rightarrow> string list" where
  "sorted_unique xs = remdups_adj (sort xs)"

definition canonical_raw :: "string \<Rightarrow> string result" where
  "canonical_raw raw = (case json_parse raw of
     None \<Rightarrow> Inl (Errorf ''decode strategy JSON'')
   | Some v \<Rightarrow> Inr (json_encode (map_semantics v)))"

text \<open>
  A struct in field order with the text of each value; a \<open>json.RawMessage\<close> field is
  inserted as it is, canonical text being already compact and escaped.
\<close>

definition object_text :: "(string \<times> string) list \<Rightarrow> string" where
  "object_text kvs = ''{'' @ join '','' (map (\<lambda>(k, t). encode_string k @ '':'' @ t) kvs) @ ''}''"

definition strings_json :: "string list \<Rightarrow> json" where
  "strings_json xs = JArray (map JString xs)"

definition package_text :: "package \<Rightarrow> string" where
  "package_text p = object_text
     ([(''id'', encode_string (pk_id p)), (''version'', encode_string (pk_version p)),
       (''implementation'', encode_string (pk_implementation p)),
       (''implementation_label'', encode_string (label_text (pk_label p))),
       (''fidelity'', encode_string (fidelity_text (pk_fidelity p)))] @
      (if pk_prompt p = '''' then [] else [(''prompt'', encode_string (pk_prompt p))]) @
      (if pk_json_schema p = '''' then [] else [(''json_schema'', pk_json_schema p)]) @
      [(''parameters'', pk_parameters p),
       (''capabilities'', json_encode (strings_json (pk_capabilities p))),
       (''repair'', json_encode (JObject [(''max_attempts'', JInt (rp_max_attempts (pk_repair p))),
          (''strict'', JBool (rp_strict (pk_repair p)))]))] @
      (if pk_paper_sources p = [] then [] else [(''paper_sources'', json_encode (strings_json (pk_paper_sources p)))]))"

definition canonical_json :: "package \<Rightarrow> string result" where
  "canonical_json p =
     guard_check (package_validate p)
     (bind_result (canonical_raw (pk_parameters p)) (\<lambda>parameters.
      bind_result (if pk_json_schema p = '''' then Inr '''' else canonical_raw (pk_json_schema p)) (\<lambda>schema.
      Inr (package_text (p\<lparr>pk_capabilities := sorted_unique (pk_capabilities p),
        pk_paper_sources := sorted_unique (pk_paper_sources p),
        pk_parameters := parameters, pk_json_schema := schema\<rparr>)))))"

definition package_hash :: "lib \<Rightarrow> package \<Rightarrow> string result" where
  "package_hash L p = bind_result (canonical_json p) (\<lambda>t. Inr (hex_encode (lb_sha256 L t)))"

definition experiment_hash :: "lib \<Rightarrow> package \<Rightarrow> string \<Rightarrow> string \<Rightarrow> string list \<Rightarrow> string result" where
  "experiment_hash L p provider model fixtures =
     bind_result (package_hash L p) (\<lambda>h.
     Inr (hex_encode (lb_sha256 L (json_encode (JObject [(''strategy'', JString h), (''provider'', JString provider),
       (''model'', JString model), (''fixtures'', strings_json (sort fixtures))])))))"

section \<open>What the hash identifies\<close>

lemma distinct_compact: "sorted xs \<Longrightarrow> distinct (remdups_adj xs)" for xs :: "'a::linorder list"
proof (induction xs rule: remdups_adj.induct)
  case (3 x y xs)
  then show ?case by (cases "x = y") fastforce+
qed simp_all

lemma sorted_unique_set: "set xs = set ys \<Longrightarrow> sorted_unique xs = sorted_unique ys"
  unfolding sorted_unique_def
  by (rule sorted_distinct_set_unique) (simp_all add: sorted_remdups_adj distinct_compact)

lemma set_sorted_unique [simp]: "set (sorted_unique xs) = set xs"
  by (simp add: sorted_unique_def)

lemma sorted_unique_idem [simp]: "sorted_unique (sorted_unique xs) = sorted_unique xs"
  by (rule sorted_unique_set) simp

lemma sorted_unique_Nil [simp]: "sorted_unique xs = [] \<longleftrightarrow> xs = []"
  using set_sorted_unique [of xs] by (metis set_empty)

lemma canonical_json_Inr:
  "canonical_json p = Inr t \<longleftrightarrow> package_validate p = None \<and>
     (\<exists>par sch. canonical_raw (pk_parameters p) = Inr par \<and>
        (if pk_json_schema p = '''' then sch = '''' else canonical_raw (pk_json_schema p) = Inr sch) \<and>
        t = package_text (p\<lparr>pk_capabilities := sorted_unique (pk_capabilities p),
          pk_paper_sources := sorted_unique (pk_paper_sources p), pk_parameters := par, pk_json_schema := sch\<rparr>))"
  by (auto simp: canonical_json_def guard_check_Inr bind_result_Inr)

lemma valid_canonical: "json_valid raw \<Longrightarrow> \<exists>t. canonical_raw raw = Inr t"
  by (auto simp: json_valid_def canonical_raw_def)

text \<open>A valid package always has a hash.\<close>

lemma package_hash_total:
  assumes "package_validate p = None"
  shows "\<exists>t. canonical_json p = Inr t \<and> package_hash L p = Inr (hex_encode (lb_sha256 L t))"
proof -
  have "json_valid (pk_parameters p)" "pk_json_schema p = '''' \<or> json_valid (pk_json_schema p)"
    using assms by (auto simp: package_validate_def)
  then obtain par sch where "canonical_raw (pk_parameters p) = Inr par"
      "if pk_json_schema p = '''' then sch = '''' else canonical_raw (pk_json_schema p) = Inr sch"
    using valid_canonical by meson
  with assms have "\<exists>t. canonical_json p = Inr t" unfolding canonical_json_Inr by blast
  then show ?thesis by (auto simp: package_hash_def)
qed

end
