(* ===== verification/LifecycleInv.thy ===== *)
theory LifecycleInv
  imports Lifecycle
begin

text \<open>
  What every lifecycle mutation keeps of the database: unique keys, dependency edges
  between stored versions that form an acyclic graph and respect visibility, one open
  version per memory at the end of a chain of closed ones, and an index that holds no
  forgotten content. The lemmas on inserts say exactly when they succeed and with
  which tables.
\<close>

section \<open>When inserts succeed\<close>



lemma insert_dependency_Inr [result_simps]:
  "insert_dependency c p st = Inr st' \<longleftrightarrow>
     (p, c) \<notin> set (st_dependencies st) \<and> p \<noteq> c \<and> p \<in> mv_id ` set (st_versions st) \<and>
     c \<in> mv_id ` set (st_versions st) \<and> st' = st\<lparr>st_dependencies := st_dependencies st @ [(p, c)]\<rparr>"
  by (auto simp: insert_dependency_def result_simps)

lemma insert_dependencies_Inr [result_simps]:
  "fold_result (insert_dependency c) ps st = Inr st' \<longleftrightarrow>
     distinct ps \<and>
     (\<forall>p \<in> set ps. (p, c) \<notin> set (st_dependencies st) \<and> p \<noteq> c \<and>
        p \<in> mv_id ` set (st_versions st) \<and> c \<in> mv_id ` set (st_versions st)) \<and>
     st' = st\<lparr>st_dependencies := st_dependencies st @ map (\<lambda>p. (p, c)) ps\<rparr>"
proof (induction ps arbitrary: st)
  case Nil
  then show ?case by auto
next
  case (Cons p ps)
  show ?case
    by (auto simp: Cons.IH bind_result_Inr insert_dependency_Inr)
qed

definition version_fits :: "memory_version \<Rightarrow> store \<Rightarrow> bool" where
  "version_fits v st \<longleftrightarrow> mv_id v \<notin> mv_id ` set (st_versions st) \<and>
     (mv_memory_id v, mv_number v) \<notin> (\<lambda>w. (mv_memory_id w, mv_number w)) ` set (st_versions st) \<and>
     mv_memory_id v \<in> me_id ` set (st_memories st) \<and>
     distinct (mv_derived_from v) \<and>
     (\<forall>p \<in> set (mv_derived_from v). (p, mv_id v) \<notin> set (st_dependencies st) \<and> p \<in> mv_id ` set (st_versions st))"

definition add_version :: "memory \<Rightarrow> memory_version \<Rightarrow> store \<Rightarrow> store" where
  "add_version m v st = index_version m v
     (st\<lparr>st_versions := st_versions st @ [v],
         st_dependencies := st_dependencies st @ map (\<lambda>p. (p, mv_id v)) (mv_derived_from v)\<rparr>)"

lemma insert_version_tables_Inr [result_simps]:
  "insert_version_tables m v st = Inr st' \<longleftrightarrow> version_fits v st \<and> st' = add_version m v st"
  by (auto simp: insert_version_tables_def insert_version_row_def result_simps version_fits_def add_version_def)

definition add_memory :: "memory \<Rightarrow> memory_version \<Rightarrow> store \<Rightarrow> store" where
  "add_memory m v st = add_version m v (st\<lparr>st_memories := st_memories st @ [m]\<rparr>)"

definition memory_fits :: "memory \<Rightarrow> memory_version \<Rightarrow> store \<Rightarrow> bool" where
  "memory_fits m v st \<longleftrightarrow> memory_validate m = None \<and> version_validate (me_function m) v = None \<and> encode_version v = None \<and>
     mv_memory_id v = me_id m \<and> mv_number v = me_current_version m \<and>
     me_id m \<notin> me_id ` set (st_memories st) \<and> version_fits v (st\<lparr>st_memories := st_memories st @ [m]\<rparr>)"

lemma insert_memory_rows_Inr [result_simps]:
  "insert_memory_rows m v st = Inr st' \<longleftrightarrow>
     memory_fits m v st \<and> encode_version v = None \<and> st' = add_memory m v st"
  by (auto simp: insert_memory_rows_def result_simps memory_fits_def add_memory_def)


section \<open>The invariant\<close>

definition keys_ok :: "store \<Rightarrow> bool" where
  "keys_ok st \<longleftrightarrow> distinct (map me_id (st_memories st)) \<and> distinct (map mv_id (st_versions st)) \<and>
     distinct (map (\<lambda>v. (mv_memory_id v, mv_number v)) (st_versions st)) \<and> distinct (st_dependencies st) \<and>
     distinct (map op_id (st_operations st)) \<and>
     distinct (map op_proposal_id (filter (\<lambda>o'. op_phase o' = PhaseApply) (st_operations st)))"

definition edges_ok :: "store \<Rightarrow> bool" where
  "edges_ok st \<longleftrightarrow>
     (\<forall>(p, c) \<in> set (st_dependencies st).
        p \<in> mv_id ` set (st_versions st) \<and> c \<in> mv_id ` set (st_versions st)) \<and>
     acyclic (set (st_dependencies st))"

fun state_agrees :: "memory_state \<Rightarrow> version_state \<Rightarrow> bool" where
  "state_agrees MemoryActive s = (s = VersionCurrent \<or> s = VersionStale)"
| "state_agrees MemoryArchived s = (s = VersionArchived)"
| "state_agrees MemoryForgotten s = (s = VersionForgotten)"
| "state_agrees (MemoryOther _) s = False"

definition open_version :: "memory \<Rightarrow> memory_version \<Rightarrow> bool" where
  "open_version m v \<longleftrightarrow> tr_to (mv_system_time v) = None \<and> state_agrees (me_state m) (mv_state v)"

definition succeeded_by :: "memory_version \<Rightarrow> memory_version \<Rightarrow> bool" where
  "succeeded_by v w \<longleftrightarrow> mv_memory_id w = mv_memory_id v \<and> mv_number w = mv_number v + 1 \<and>
     tr_to (mv_system_time v) = Some (tr_from (mv_system_time w)) \<and>
     tr_from (mv_system_time v) < tr_from (mv_system_time w)"

definition chain_ok :: "store \<Rightarrow> bool" where
  "chain_ok st \<longleftrightarrow>
     (\<forall>m \<in> set (st_memories st). \<exists>v \<in> set (st_versions st).
        mv_memory_id v = me_id m \<and> mv_number v = me_current_version m \<and> open_version m v) \<and>
     (\<forall>v \<in> set (st_versions st). \<exists>m \<in> set (st_memories st). me_id m = mv_memory_id v \<and>
        mv_number v \<le> me_current_version m \<and> payload_validate (me_function m) (mv_payload v) = None \<and>
        mv_provenance v \<noteq> [] \<and>
        (mv_number v < me_current_version m \<longrightarrow>
           mv_state v = VersionSuperseded \<and> (\<exists>w \<in> set (st_versions st). succeeded_by v w)))"

definition scope_flows :: "scope \<Rightarrow> scope \<Rightarrow> bool" where
  "scope_flows a b \<longleftrightarrow> sc_namespace a = sc_namespace b \<and> sc_subject a = sc_subject b \<and>
     (sc_visibility a = VisibilityPrivate \<longrightarrow> sc_owner a = sc_owner b \<and> sc_visibility b = VisibilityPrivate) \<and>
     (sc_visibility a = VisibilityShared \<longrightarrow> sc_visibility b \<noteq> VisibilityPublic)"

definition version_scope :: "store \<Rightarrow> ident \<Rightarrow> scope option" where
  "version_scope st i = map_option me_scope (version_memory st i)"

definition flow_ok :: "store \<Rightarrow> bool" where
  "flow_ok st \<longleftrightarrow> (\<forall>(p, c) \<in> set (st_dependencies st). \<forall>a b.
     version_scope st p = Some a \<longrightarrow> version_scope st c = Some b \<longrightarrow> scope_flows a b)"

definition index_ok :: "store \<Rightarrow> bool" where
  "index_ok st \<longleftrightarrow>
     (\<forall>r \<in> set (st_fts st). \<exists>v \<in> set (st_versions st).
        fx_version r = mv_id v \<and> fx_memory r = mv_memory_id v \<and> fx_text r = memory_text (mv_payload v)) \<and>
     (\<forall>e \<in> set (st_embeddings st). eb_version e \<in> fx_version ` set (st_fts st)) \<and>
     (\<forall>r \<in> set (st_fts st). \<forall>m \<in> set (st_memories st). me_id m = fx_memory r \<longrightarrow>
        me_state m \<noteq> MemoryForgotten \<and> fx_namespace r = sc_namespace (me_scope m))"

definition known_memory_state :: "memory_state \<Rightarrow> bool" where
  "known_memory_state s \<longleftrightarrow> (\<forall>t. s \<noteq> MemoryOther t)"

lemma memory_validate_None:
  "memory_validate m = None \<longleftrightarrow> id_pattern (me_id m) \<and> scope_validate (me_scope m) = None \<and>
     known_function (me_function m) \<and> known_memory_state (me_state m) \<and> 1 \<le> me_current_version m \<and>
     me_created_at m \<noteq> 0"
  by (cases "me_state m") (auto simp: memory_validate_def known_memory_state_def is_zero_time_def simp del: scope_validate_None)

lemma memory_validate_state:
  "memory_validate m = None \<Longrightarrow> known_memory_state s \<Longrightarrow> memory_validate (m\<lparr>me_state := s\<rparr>) = None"
  by (simp add: memory_validate_None del: scope_validate_None)

lemma memory_validate_advance:
  "memory_validate m = None \<Longrightarrow> 1 \<le> n \<Longrightarrow>
     memory_validate (m\<lparr>me_current_version := n, me_state := MemoryActive\<rparr>) = None"
  by (simp add: memory_validate_None known_memory_state_def del: scope_validate_None)

lemma state_agrees_known: "state_agrees s t \<Longrightarrow> known_memory_state s"
  by (cases s) (auto simp: known_memory_state_def)

text \<open>The identifiers of a version, as its validation leaves them, and its payload as its JSON column holds it.\<close>

definition version_named :: "memory_version \<Rightarrow> bool" where
  "version_named v \<longleftrightarrow> id_pattern (mv_id v) \<and> (mv_conflict_group v = '''' \<or> id_pattern (mv_conflict_group v)) \<and>
     payload_encodable (mv_payload v)"

lemma version_named_update [simp]:
  "version_named (v\<lparr>mv_state := s\<rparr>) = version_named v"
  "version_named (v\<lparr>mv_system_time := r\<rparr>) = version_named v"
  "version_named (v\<lparr>mv_valid_time := r\<rparr>) = version_named v"
  by (simp_all add: version_named_def)

lemma version_validate_named: "version_validate f v = None \<Longrightarrow> encode_version v = None \<Longrightarrow> version_named v"
  by (simp add: version_validate_def version_named_def encode_version_def)

definition memories_ok :: "store \<Rightarrow> bool" where
  "memories_ok st \<longleftrightarrow> (\<forall>m \<in> set (st_memories st). memory_validate m = None) \<and>
     (\<forall>v \<in> set (st_versions st). version_named v)"

definition store_ok :: "store \<Rightarrow> bool" where
  "store_ok st \<longleftrightarrow>
     keys_ok st \<and> edges_ok st \<and> chain_ok st \<and> flow_ok st \<and> index_ok st \<and> memories_ok st"

lemma store_okI:
  "keys_ok st \<Longrightarrow> edges_ok st \<Longrightarrow> chain_ok st \<Longrightarrow> flow_ok st \<Longrightarrow> index_ok st \<Longrightarrow> memories_ok st \<Longrightarrow> store_ok st"
  by (simp add: store_ok_def)

lemma store_ok_empty: "store_ok empty_store"
  by (simp add: store_ok_def keys_ok_def edges_ok_def chain_ok_def flow_ok_def index_ok_def memories_ok_def
      empty_store_def acyclic_def)

section \<open>Adding a version\<close>

lemmas add_version_defs = add_version_def index_version_def

lemma add_version_sel [simp]:
  "st_memories (add_version m v st) = st_memories st"
  "st_versions (add_version m v st) = st_versions st @ [v]"
  "st_dependencies (add_version m v st) = st_dependencies st @ map (\<lambda>p. (p, mv_id v)) (mv_derived_from v)"
  "st_embeddings (add_version m v st) = st_embeddings st"
  "st_operations (add_version m v st) = st_operations st"
  "st_fts (add_version m v st) = st_fts st @
     [\<lparr>fx_version = mv_id v, fx_memory = me_id m, fx_namespace = sc_namespace (me_scope m),
       fx_text = memory_text (mv_payload v)\<rparr>]"
  by (simp_all add: add_version_defs)

lemma keys_add_version: "keys_ok st \<Longrightarrow> version_fits v st \<Longrightarrow> keys_ok (add_version m v st)"
  by (auto simp: keys_ok_def version_fits_def distinct_map inj_on_def)

lemma edges_add_version:
  assumes "edges_ok st" and "version_fits v st"
  shows "edges_ok (add_version m v st)"
proof -
  let ?new = "{(p, mv_id v) | p. p \<in> set (mv_derived_from v)}"
  have sink: "(mv_id v, y) \<notin> set (st_dependencies st)" for y
    using assms by (auto simp: edges_ok_def version_fits_def)
  have "mv_id v \<notin> set (mv_derived_from v)" using assms by (auto simp: version_fits_def)
  with assms sink have "acyclic (set (st_dependencies st) \<union> ?new)"
    by (intro acyclic_new_sink) (auto simp: edges_ok_def)
  moreover have "set (st_dependencies (add_version m v st)) = set (st_dependencies st) \<union> ?new"
    by auto
  ultimately show ?thesis
    using assms by (force simp: edges_ok_def version_fits_def)
qed

lemma version_memory_add_old:
  "version_fits v st \<Longrightarrow> i \<noteq> mv_id v \<Longrightarrow> version_scope (add_version m v st) i = version_scope st i"
  by (auto simp: version_scope_def version_memory_def find_row_append split: option.splits)

lemma version_memory_add_new:
  "version_fits v st \<Longrightarrow>
     version_memory (add_version m v st) (mv_id v) = find_row me_id (mv_memory_id v) (st_memories st)"
  by (simp add: version_memory_def find_row_append version_fits_def
      find_row_None [THEN iffD2])

lemma flow_add_version:
  assumes "flow_ok st" and "edges_ok st" and fits: "version_fits v st"
    and flows: "\<And>p a b. p \<in> set (mv_derived_from v) \<Longrightarrow> version_scope st p = Some a \<Longrightarrow>
      version_scope (add_version m v st) (mv_id v) = Some b \<Longrightarrow> scope_flows a b"
  shows "flow_ok (add_version m v st)"
  unfolding flow_ok_def
proof (intro ballI, clarify)
  fix p c a b
  assume pc: "(p, c) \<in> set (st_dependencies (add_version m v st))"
    and a: "version_scope (add_version m v st) p = Some a"
    and b: "version_scope (add_version m v st) c = Some b"
  from pc have "p \<in> mv_id ` set (st_versions st)"
    using assms(2) fits by (auto simp: edges_ok_def version_fits_def)
  then have "p \<noteq> mv_id v" using fits unfolding version_fits_def by blast
  with fits a have a': "version_scope st p = Some a" by (simp add: version_memory_add_old)
  show "scope_flows a b"
  proof (cases "(p, c) \<in> set (st_dependencies st)")
    case True
    then have "c \<noteq> mv_id v" using assms(2) fits by (auto simp: edges_ok_def version_fits_def)
    with fits b have "version_scope st c = Some b" by (simp add: version_memory_add_old)
    with True a' assms(1) show ?thesis by (auto simp: flow_ok_def)
  next
    case False
    with pc have "c = mv_id v" "p \<in> set (mv_derived_from v)" by auto
    with a' b flows show ?thesis by blast
  qed
qed

lemma index_add_version:
  assumes "index_ok st" "mv_memory_id v = me_id m"
    and "\<And>n. n \<in> set (st_memories st) \<Longrightarrow> me_id n = me_id m \<Longrightarrow>
      me_state n \<noteq> MemoryForgotten \<and> me_scope n = me_scope m"
  shows "index_ok (add_version m v st)"
  using assms unfolding index_ok_def by auto

section \<open>Updating version rows\<close>

text \<open>What an \<open>UPDATE\<close> of a version row never touches.\<close>

definition keeps_version :: "(memory_version \<Rightarrow> memory_version) \<Rightarrow> bool" where
  "keeps_version g \<longleftrightarrow> (\<forall>v. mv_id (g v) = mv_id v \<and> mv_memory_id (g v) = mv_memory_id v \<and>
     mv_number (g v) = mv_number v \<and> mv_payload (g v) = mv_payload v \<and>
     mv_provenance (g v) = mv_provenance v \<and> mv_derived_from (g v) = mv_derived_from v \<and>
     tr_from (mv_system_time (g v)) = tr_from (mv_system_time v) \<and> (version_named v \<longrightarrow> version_named (g v)))"

definition map_versions :: "(memory_version \<Rightarrow> memory_version) \<Rightarrow> store \<Rightarrow> store" where
  "map_versions g st = st\<lparr>st_versions := map g (st_versions st)\<rparr>"

lemma map_versions_sel [simp]:
  "st_memories (map_versions g st) = st_memories st"
  "st_versions (map_versions g st) = map g (st_versions st)"
  "st_dependencies (map_versions g st) = st_dependencies st"
  "st_fts (map_versions g st) = st_fts st"
  "st_embeddings (map_versions g st) = st_embeddings st"
  "st_operations (map_versions g st) = st_operations st"
  by (simp_all add: map_versions_def)

lemma keeps_versionD:
  assumes "keeps_version g"
  shows "mv_id (g v) = mv_id v" "mv_memory_id (g v) = mv_memory_id v" "mv_number (g v) = mv_number v"
    "mv_payload (g v) = mv_payload v" "mv_provenance (g v) = mv_provenance v"
    "mv_derived_from (g v) = mv_derived_from v"
    "tr_from (mv_system_time (g v)) = tr_from (mv_system_time v)"
  using assms by (simp_all add: keeps_version_def)

lemma keeps_version_named: "keeps_version g \<Longrightarrow> version_named v \<Longrightarrow> version_named (g v)"
  by (simp add: keeps_version_def)

lemma keeps_version_comp: "keeps_version f \<Longrightarrow> keeps_version g \<Longrightarrow> keeps_version (f \<circ> g)"
  by (simp add: keeps_version_def)

lemma keeps_version_if: "keeps_version f \<Longrightarrow> keeps_version (\<lambda>v. if p v then f v else v)"
  by (simp add: keeps_version_def)

lemma image_id_map [simp]: "keeps_version g \<Longrightarrow> mv_id ` g ` S = mv_id ` S"
  by (simp add: image_image keeps_versionD)

lemma keys_map_versions: "keys_ok st \<Longrightarrow> keeps_version g \<Longrightarrow> keys_ok (map_versions g st)"
  by (simp add: keys_ok_def comp_def keeps_versionD)

lemma edges_map_versions: "edges_ok st \<Longrightarrow> keeps_version g \<Longrightarrow> edges_ok (map_versions g st)"
  by (simp add: edges_ok_def)

lemma find_row_map:
  "(\<And>r. key (g r) = key r) \<Longrightarrow> find_row key k (map g rows) = map_option g (find_row key k rows)"
  by (induction rows) (auto simp: find_row_def)

lemma version_scope_map_versions:
  "keeps_version g \<Longrightarrow> version_scope (map_versions g st) i = version_scope st i"
  by (simp add: version_scope_def version_memory_def find_row_map keeps_versionD split: option.splits)

lemma flow_map_versions: "flow_ok st \<Longrightarrow> keeps_version g \<Longrightarrow> flow_ok (map_versions g st)"
  by (simp add: flow_ok_def version_scope_map_versions)

lemma index_map_versions: "index_ok st \<Longrightarrow> keeps_version g \<Longrightarrow> index_ok (map_versions g st)"
  unfolding index_ok_def by (simp add: keeps_versionD)

text \<open>The only state change an update makes beside the target's: current to stale.\<close>

definition stale_step :: "version_state \<Rightarrow> version_state \<Rightarrow> bool" where
  "stale_step s t \<longleftrightarrow> t = s \<or> s = VersionCurrent \<and> t = VersionStale"

lemma stale_step_agrees: "stale_step s t \<Longrightarrow> state_agrees ms s \<Longrightarrow> state_agrees ms t"
  by (cases ms) (auto simp: stale_step_def)

lemma stale_step_superseded: "stale_step VersionSuperseded t \<longleftrightarrow> t = VersionSuperseded"
  by (auto simp: stale_step_def)

definition only_stales :: "(memory_version \<Rightarrow> memory_version) \<Rightarrow> memory_version \<Rightarrow> bool" where
  "only_stales g v \<longleftrightarrow> mv_system_time (g v) = mv_system_time v \<and> stale_step (mv_state v) (mv_state (g v))"

lemma open_version_only_stales: "only_stales g v \<Longrightarrow> open_version m v \<Longrightarrow> open_version m (g v)"
  by (auto simp: only_stales_def open_version_def stale_step_agrees)

lemma succeeded_by_map:
  "keeps_version g \<Longrightarrow> mv_system_time (g v) = mv_system_time v \<Longrightarrow> succeeded_by v w \<Longrightarrow> succeeded_by (g v) (g w)"
  by (simp add: succeeded_by_def keeps_versionD)

lemma chain_map_versions:
  assumes chain: "chain_ok st" and keeps: "keeps_version g"
    and stales: "\<And>v. v \<in> set (st_versions st) \<Longrightarrow> only_stales g v"
  shows "chain_ok (map_versions g st)"
  unfolding chain_ok_def map_versions_sel
proof (intro conjI ballI)
  fix m assume "m \<in> set (st_memories st)"
  with chain obtain v where "v \<in> set (st_versions st)" "mv_memory_id v = me_id m"
      "mv_number v = me_current_version m" "open_version m v"
    unfolding chain_ok_def by blast
  then show "\<exists>v\<in>set (map g (st_versions st)). mv_memory_id v = me_id m \<and>
      mv_number v = me_current_version m \<and> open_version m v"
    using keeps stales by (auto simp: keeps_versionD open_version_only_stales intro!: bexI [of _ v])
next
  fix u assume "u \<in> set (map g (st_versions st))"
  then obtain v where u: "u = g v" and v: "v \<in> set (st_versions st)" by auto
  with chain obtain m where m: "m \<in> set (st_memories st)" "me_id m = mv_memory_id v"
      "mv_number v \<le> me_current_version m" "payload_validate (me_function m) (mv_payload v) = None"
      "mv_provenance v \<noteq> []"
    and closed: "mv_number v < me_current_version m \<Longrightarrow>
      mv_state v = VersionSuperseded \<and> (\<exists>w \<in> set (st_versions st). succeeded_by v w)"
    unfolding chain_ok_def by blast
  have "mv_state u = VersionSuperseded \<and> (\<exists>w \<in> set (map g (st_versions st)). succeeded_by u w)"
    if "mv_number u < me_current_version m"
  proof -
    from that closed obtain w where "mv_state v = VersionSuperseded" "w \<in> set (st_versions st)" "succeeded_by v w"
      unfolding u keeps_versionD(3) [OF keeps] by blast
    then show ?thesis
      using stales [OF v] keeps succeeded_by_map [of g v w] unfolding u only_stales_def
      by (auto simp: stale_step_superseded)
  qed
  with m show "\<exists>m\<in>set (st_memories st). me_id m = mv_memory_id u \<and> mv_number u \<le> me_current_version m \<and>
      payload_validate (me_function m) (mv_payload u) = None \<and> mv_provenance u \<noteq> [] \<and>
      (mv_number u < me_current_version m \<longrightarrow>
        mv_state u = VersionSuperseded \<and> (\<exists>w\<in>set (map g (st_versions st)). succeeded_by u w))"
    unfolding u by (intro bexI [of _ m]) (simp_all add: keeps_versionD [OF keeps])
qed

section \<open>Superseding the open version\<close>

lemma keys_memory_unique:
  "keys_ok st \<Longrightarrow> m \<in> set (st_memories st) \<Longrightarrow> n \<in> set (st_memories st) \<Longrightarrow> me_id m = me_id n \<Longrightarrow> m = n"
  by (auto simp: keys_ok_def distinct_map inj_on_def)

lemma keys_version_unique:
  "keys_ok st \<Longrightarrow> v \<in> set (st_versions st) \<Longrightarrow> w \<in> set (st_versions st) \<Longrightarrow> mv_id v = mv_id w \<Longrightarrow> v = w"
  by (auto simp: keys_ok_def distinct_map inj_on_def)

lemma keys_number_unique:
  "keys_ok st \<Longrightarrow> v \<in> set (st_versions st) \<Longrightarrow> w \<in> set (st_versions st) \<Longrightarrow>
     mv_memory_id v = mv_memory_id w \<Longrightarrow> mv_number v = mv_number w \<Longrightarrow> v = w"
  unfolding keys_ok_def distinct_map inj_on_def by blast

lemma advance_memory_sel [simp]:
  "st_versions (advance_memory i n st) = st_versions st"
  "st_dependencies (advance_memory i n st) = st_dependencies st"
  "st_fts (advance_memory i n st) = st_fts st"
  "st_embeddings (advance_memory i n st) = st_embeddings st"
  "st_operations (advance_memory i n st) = st_operations st"
  "st_memories (advance_memory i n st) = update_rows (\<lambda>m. me_id m = i)
     (\<lambda>m. m\<lparr>me_current_version := n, me_state := MemoryActive\<rparr>) (st_memories st)"
  by (simp_all add: advance_memory_def)

lemma chain_memoryD:
  assumes "chain_ok st" and "m \<in> set (st_memories st)"
  obtains v where "v \<in> set (st_versions st)" "mv_memory_id v = me_id m"
    "mv_number v = me_current_version m" "open_version m v"
  using assms unfolding chain_ok_def by blast

lemma chain_versionD:
  assumes "chain_ok st" and "v \<in> set (st_versions st)"
  obtains m where "m \<in> set (st_memories st)" "me_id m = mv_memory_id v" "mv_number v \<le> me_current_version m"
    "payload_validate (me_function m) (mv_payload v) = None" "mv_provenance v \<noteq> []"
    "mv_number v < me_current_version m \<longrightarrow>
       mv_state v = VersionSuperseded \<and> (\<exists>w \<in> set (st_versions st). succeeded_by v w)"
  using assms unfolding chain_ok_def by blast

lemma chain_supersede:
  assumes chain: "chain_ok st" and keys: "keys_ok st"
    and m: "m \<in> set (st_memories st)" "me_state m = MemoryActive"
    and c: "c \<in> set (st_versions st)" "mv_memory_id c = me_id m" "mv_number c = me_current_version m"
    and g: "keeps_version g"
    and stales: "\<And>u. u \<in> set (st_versions st) \<Longrightarrow> u \<noteq> c \<Longrightarrow> only_stales g u"
    and closed: "mv_state (g c) = VersionSuperseded" "tr_to (mv_system_time (g c)) = Some (tr_from (mv_system_time v))"
      "tr_from (mv_system_time c) < tr_from (mv_system_time v)"
    and v: "mv_memory_id v = me_id m" "mv_number v = mv_number c + 1" "tr_to (mv_system_time v) = None"
      "mv_state v = VersionCurrent" "payload_validate (me_function m) (mv_payload v) = None" "mv_provenance v \<noteq> []"
  shows "chain_ok (advance_memory (me_id m) (mv_number v) (add_version m v (map_versions g st)))"
proof -
  let ?adv = "\<lambda>n. if me_id n = me_id m then n\<lparr>me_current_version := mv_number v, me_state := MemoryActive\<rparr> else n"
  let ?vs = "g ` set (st_versions st) \<union> {v}"
  have same: "n = m" if "n \<in> set (st_memories st)" "me_id n = me_id m" for n
    using keys_memory_unique [OF keys that(1) m(1) that(2)] .
  have part1: "\<exists>u\<in>?vs. mv_memory_id u = me_id (?adv n) \<and> mv_number u = me_current_version (?adv n) \<and> open_version (?adv n) u"
    if n: "n \<in> set (st_memories st)" for n
  proof (cases "me_id n = me_id m")
    case True
    then show ?thesis using v by (intro bexI [of _ v]) (auto simp: open_version_def)
  next
    case False
    obtain u where u: "u \<in> set (st_versions st)" "mv_memory_id u = me_id n"
        "mv_number u = me_current_version n" "open_version n u"
      by (rule chain_memoryD [OF chain n])
    then have "u \<noteq> c" using c False by auto
    then show ?thesis
      using u False open_version_only_stales [OF stales [OF u(1)] u(4)]
      by (intro bexI [of _ "g u"]) (auto simp: keeps_versionD [OF g])
  qed
  have part2: "\<exists>n\<in>?adv ` set (st_memories st). me_id n = mv_memory_id w \<and> mv_number w \<le> me_current_version n \<and>
      payload_validate (me_function n) (mv_payload w) = None \<and> mv_provenance w \<noteq> [] \<and>
      (mv_number w < me_current_version n \<longrightarrow>
        mv_state w = VersionSuperseded \<and> (\<exists>x\<in>?vs. succeeded_by w x))"
    if w: "w \<in> ?vs" for w
  proof (cases "w = v")
    case True
    then show ?thesis using m v by (intro bexI [of _ "?adv m"]) auto
  next
    case False
    with w obtain u where u: "u \<in> set (st_versions st)" and wu: "w = g u" by auto
    obtain n where n: "n \<in> set (st_memories st)" "me_id n = mv_memory_id u" "mv_number u \<le> me_current_version n"
        "payload_validate (me_function n) (mv_payload u) = None" "mv_provenance u \<noteq> []"
        "mv_number u < me_current_version n \<longrightarrow>
           mv_state u = VersionSuperseded \<and> (\<exists>x \<in> set (st_versions st). succeeded_by u x)"
      by (rule chain_versionD [OF chain u])
    have le: "mv_number u \<le> me_current_version (?adv n)"
    proof (cases "me_id n = me_id m")
      case True
      then have "n = m" using same n(1) by simp
      then show ?thesis using n(3) c(3) v(2) by simp
    qed (use n(3) in simp)
    have "mv_state w = VersionSuperseded \<and> (\<exists>x\<in>?vs. succeeded_by w x)"
      if less: "mv_number u < me_current_version (?adv n)"
    proof (cases "u = c")
      case True
      have "succeeded_by (g c) v"
        using v c closed by (simp add: succeeded_by_def keeps_versionD [OF g])
      then show ?thesis using closed(1) by (auto simp: wu True)
    next
      case False
      have "mv_number u < me_current_version n"
      proof (cases "n = m")
        case True
        then have "mv_number u \<noteq> mv_number c"
          using keys_number_unique [OF keys u c(1)] n(2) c False by auto
        with True n(3) c(3) show ?thesis by auto
      next
        case False
        then have "me_id n \<noteq> me_id m" using same n(1) by auto
        with less show ?thesis by simp
      qed
      with n(6) obtain x where x: "mv_state u = VersionSuperseded" "x \<in> set (st_versions st)" "succeeded_by u x"
        by blast
      have "only_stales g u" using stales u False .
      then have "mv_state (g u) = VersionSuperseded" "succeeded_by (g u) (g x)"
        using x succeeded_by_map [OF g, of u x] by (auto simp: only_stales_def stale_step_superseded)
      then show ?thesis using x(2) by (auto simp: wu)
    qed
    then show ?thesis
      using n le by (intro bexI [of _ "?adv n"]) (auto simp: wu keeps_versionD [OF g])
  qed
  show ?thesis
    unfolding chain_ok_def advance_memory_sel add_version_sel map_versions_sel set_update_rows
      set_append set_map list.set
    using part1 part2 by blast
qed

section \<open>A new memory\<close>

lemma add_memory_sel [simp]:
  "st_memories (add_memory m v st) = st_memories st @ [m]"
  "st_versions (add_memory m v st) = st_versions st @ [v]"
  "st_dependencies (add_memory m v st) = st_dependencies st @ map (\<lambda>p. (p, mv_id v)) (mv_derived_from v)"
  "st_embeddings (add_memory m v st) = st_embeddings st"
  "st_operations (add_memory m v st) = st_operations st"
  by (simp_all add: add_memory_def)

definition append_memory :: "memory \<Rightarrow> store \<Rightarrow> store" where
  "append_memory m st = st\<lparr>st_memories := st_memories st @ [m]\<rparr>"

lemma append_memory_sel [simp]:
  "st_memories (append_memory m st) = st_memories st @ [m]"
  "st_versions (append_memory m st) = st_versions st"
  "st_dependencies (append_memory m st) = st_dependencies st"
  "st_fts (append_memory m st) = st_fts st"
  "st_embeddings (append_memory m st) = st_embeddings st"
  "st_operations (append_memory m st) = st_operations st"
  by (simp_all add: append_memory_def)

lemma add_memory_alt: "add_memory m v st = add_version m v (append_memory m st)"
  by (simp add: add_memory_def append_memory_def)

lemma memory_fitsD:
  assumes "memory_fits m v st"
  shows "me_id m \<notin> me_id ` set (st_memories st)" "version_fits v (append_memory m st)"
    "mv_memory_id v = me_id m" "mv_number v = me_current_version m"
    "payload_validate (me_function m) (mv_payload v) = None" "mv_provenance v \<noteq> []"
  using assms by (auto simp: memory_fits_def append_memory_def version_validate_def)

lemma keys_add_memory: "keys_ok st \<Longrightarrow> memory_fits m v st \<Longrightarrow> keys_ok (add_memory m v st)"
  unfolding add_memory_alt
  by (rule keys_add_version) (auto simp: keys_ok_def dest: memory_fitsD)

lemma edges_add_memory: "edges_ok st \<Longrightarrow> memory_fits m v st \<Longrightarrow> edges_ok (add_memory m v st)"
  unfolding add_memory_alt
  by (rule edges_add_version) (auto simp: edges_ok_def dest: memory_fitsD)

lemma version_scope_append_memory:
  assumes "chain_ok st" and "me_id m \<notin> me_id ` set (st_memories st)"
  shows "version_scope (append_memory m st) i = version_scope st i"
proof (cases "find_row mv_id i (st_versions st)")
  case None
  then show ?thesis by (simp add: version_scope_def version_memory_def)
next
  case (Some v)
  then have "v \<in> set (st_versions st)" by (auto dest: find_row_SomeD)
  then obtain n where "n \<in> set (st_memories st)" "me_id n = mv_memory_id v"
    by (rule chain_versionD [OF assms(1)])
  then have "find_row me_id (mv_memory_id v) (st_memories st) \<noteq> None"
    unfolding find_row_None by (metis image_eqI)
  with Some show ?thesis
    by (auto simp: version_scope_def version_memory_def find_row_append split: option.splits)
qed

lemma version_scope_add_memory_new:
  assumes "memory_fits m v st"
  shows "version_scope (add_memory m v st) (mv_id v) = Some (me_scope m)"
proof -
  have "find_row me_id (me_id m) (st_memories st @ [m]) = Some m"
    using memory_fitsD(1) [OF assms] by (simp add: find_row_append find_row_None [THEN iffD2])
  then show ?thesis
    using memory_fitsD(2,3) [OF assms]
    by (simp add: version_scope_def add_memory_alt version_memory_add_new)
qed

lemma flow_add_memory:
  assumes "flow_ok st" "edges_ok st" "chain_ok st" and fits: "memory_fits m v st"
    and flows: "\<And>p a. p \<in> set (mv_derived_from v) \<Longrightarrow> version_scope st p = Some a \<Longrightarrow> scope_flows a (me_scope m)"
  shows "flow_ok (add_memory m v st)"
proof -
  have scope: "version_scope (append_memory m st) i = version_scope st i" for i
    using version_scope_append_memory [OF assms(3) memory_fitsD(1) [OF fits]] .
  have "flow_ok (append_memory m st)" "edges_ok (append_memory m st)"
    using assms(1,2) by (simp_all add: flow_ok_def edges_ok_def scope)
  then show ?thesis
    unfolding add_memory_alt
  proof (rule flow_add_version [OF _ _ memory_fitsD(2) [OF fits]])
    fix p a b assume "p \<in> set (mv_derived_from v)" "version_scope (append_memory m st) p = Some a"
      "version_scope (add_version m v (append_memory m st)) (mv_id v) = Some b"
    then show "scope_flows a b"
      using flows version_scope_add_memory_new [OF fits] by (simp add: scope add_memory_alt)
  qed
qed

lemma chain_add_memory:
  assumes chain: "chain_ok st" and fits: "memory_fits m v st" and v: "open_version m v"
  shows "chain_ok (add_memory m v st)"
  unfolding chain_ok_def add_memory_sel
proof (intro conjI ballI)
  fix n assume "n \<in> set (st_memories st @ [m])"
  then consider "n \<in> set (st_memories st)" | "n = m" by auto
  then show "\<exists>u\<in>set (st_versions st @ [v]). mv_memory_id u = me_id n \<and>
      mv_number u = me_current_version n \<and> open_version n u"
  proof cases
    case 1
    then obtain u where "u \<in> set (st_versions st)" "mv_memory_id u = me_id n"
        "mv_number u = me_current_version n" "open_version n u"
      by (rule chain_memoryD [OF chain])
    then show ?thesis by auto
  qed (use v memory_fitsD(3,4) [OF fits] in auto)
next
  fix u assume "u \<in> set (st_versions st @ [v])"
  then consider "u \<in> set (st_versions st)" | "u = v" by auto
  then show "\<exists>n\<in>set (st_memories st @ [m]). me_id n = mv_memory_id u \<and> mv_number u \<le> me_current_version n \<and>
      payload_validate (me_function n) (mv_payload u) = None \<and> mv_provenance u \<noteq> [] \<and>
      (mv_number u < me_current_version n \<longrightarrow>
        mv_state u = VersionSuperseded \<and> (\<exists>w\<in>set (st_versions st @ [v]). succeeded_by u w))"
  proof cases
    case 1
    then show ?thesis by (rule chain_versionD [OF chain]) fastforce
  next
    case 2
    then show ?thesis using memory_fitsD [OF fits] by auto
  qed
qed

lemma index_add_memory:
  assumes "index_ok st" and "chain_ok st" and fits: "memory_fits m v st" and "me_state m \<noteq> MemoryForgotten"
  shows "index_ok (add_memory m v st)"
proof -
  have "fx_memory r \<noteq> me_id m" if "r \<in> set (st_fts st)" for r
  proof -
    from that assms(1) obtain u where u: "u \<in> set (st_versions st)" "fx_memory r = mv_memory_id u"
      unfolding index_ok_def by blast
    from assms(2) u(1) obtain n where "n \<in> set (st_memories st)" "me_id n = mv_memory_id u"
      by (rule chain_versionD)
    then show ?thesis using u(2) memory_fitsD(1) [OF fits] by force
  qed
  then have "index_ok (append_memory m st)"
    using assms(1) unfolding index_ok_def by auto
  then show ?thesis
    unfolding add_memory_alt
    using assms(4) memory_fitsD(1,3) [OF fits]
    by (intro index_add_version) (auto intro: rev_image_eqI)
qed

lemma add_memory_ok:
  assumes "store_ok st" "memory_fits m v st" "open_version m v" "me_state m \<noteq> MemoryForgotten"
    and "\<And>p a. p \<in> set (mv_derived_from v) \<Longrightarrow> version_scope st p = Some a \<Longrightarrow> scope_flows a (me_scope m)"
  shows "store_ok (add_memory m v st)"
  using assms
  by (intro store_okI)
    (auto simp: store_ok_def memories_ok_def memory_fits_def version_validate_named
      intro: keys_add_memory edges_add_memory chain_add_memory flow_add_memory index_add_memory)

section \<open>State changes and operations\<close>

lemma load_current_memoryD:
  assumes "load_current_memory st i = Inr (m, v)"
  shows "m \<in> set (st_memories st)" "me_id m = i" "v \<in> set (st_versions st)" "mv_memory_id v = me_id m"
    "mv_number v = me_current_version m"
  using assms by (auto simp: load_current_memory_def split: option.splits dest!: find_row_SomeD)

lemma load_current_memory_open:
  assumes "store_ok st" and load: "load_current_memory st i = Inr (m, v)"
  shows "open_version m v"
proof -
  have keys: "keys_ok st" and chain: "chain_ok st" using assms(1) by (simp_all add: store_ok_def)
  note l = load_current_memoryD [OF load]
  obtain u where "u \<in> set (st_versions st)" "mv_memory_id u = me_id m"
      "mv_number u = me_current_version m" "open_version m u"
    by (rule chain_memoryD [OF chain l(1)])
  then show ?thesis using keys_number_unique [OF keys _ l(3), of u] l by simp
qed

lemma load_current_memory_total:
  assumes "store_ok st" and "m \<in> set (st_memories st)"
  shows "\<exists>v. load_current_memory st (me_id m) = Inr (m, v)"
proof -
  have keys: "keys_ok st" and chain: "chain_ok st" using assms(1) by (simp_all add: store_ok_def)
  obtain u where u: "u \<in> set (st_versions st)" "mv_memory_id u = me_id m"
      "mv_number u = me_current_version m" "open_version m u"
    by (rule chain_memoryD [OF chain assms(2)])
  have "find_row me_id (me_id m) (st_memories st) = Some m"
    using keys assms(2) by (simp add: find_row_distinct keys_ok_def)
  moreover have "find_row (\<lambda>v. (mv_memory_id v, mv_number v)) (me_id m, me_current_version m) (st_versions st) = Some u"
    using keys u by (simp add: find_row_eq_Some keys_ok_def)
  ultimately show ?thesis by (simp add: load_current_memory_def)
qed

definition change_state :: "ident \<Rightarrow> memory_state \<Rightarrow> ident \<Rightarrow> version_state \<Rightarrow> store \<Rightarrow> store" where
  "change_state mi ms vi vs st = set_version_state vi vs (set_memory_state mi ms st)"

lemma change_state_sel [simp]:
  "st_memories (change_state mi ms vi vs st) = update_rows (\<lambda>m. me_id m = mi) (\<lambda>m. m\<lparr>me_state := ms\<rparr>) (st_memories st)"
  "st_versions (change_state mi ms vi vs st) = update_rows (\<lambda>v. mv_id v = vi) (\<lambda>v. v\<lparr>mv_state := vs\<rparr>) (st_versions st)"
  "st_dependencies (change_state mi ms vi vs st) = st_dependencies st"
  "st_fts (change_state mi ms vi vs st) = st_fts st"
  "st_embeddings (change_state mi ms vi vs st) = st_embeddings st"
  "st_operations (change_state mi ms vi vs st) = st_operations st"
  by (simp_all add: change_state_def set_version_state_def set_memory_state_def)

lemma keys_change_state: "keys_ok st \<Longrightarrow> keys_ok (change_state mi ms vi vs st)"
  by (simp add: keys_ok_def map_key_update_rows)

lemma id_update_rows [simp]:
  "(\<And>r. key (f r) = key r) \<Longrightarrow> key ` set (update_rows p f rows) = key ` set rows"
  by (metis list.set_map map_key_update_rows)

lemma edges_change_state: "edges_ok st \<Longrightarrow> edges_ok (change_state mi ms vi vs st)"
  by (simp add: edges_ok_def)

lemma version_scope_change_state: "version_scope (change_state mi ms vi vs st) i = version_scope st i"
  by (auto simp: version_scope_def version_memory_def find_row_update option.map_comp comp_def
      split: option.splits intro!: option.map_cong)

lemma flow_change_state: "flow_ok st \<Longrightarrow> flow_ok (change_state mi ms vi vs st)"
  by (simp add: flow_ok_def version_scope_change_state)

definition keeps_memory :: "(memory \<Rightarrow> memory) \<Rightarrow> bool" where
  "keeps_memory f \<longleftrightarrow> (\<forall>m. me_id (f m) = me_id m \<and> me_current_version (f m) = me_current_version m \<and>
     me_function (f m) = me_function m \<and> me_scope (f m) = me_scope m \<and> me_created_at (f m) = me_created_at m)"

definition restate :: "(memory \<Rightarrow> memory) \<Rightarrow> (memory_version \<Rightarrow> memory_version) \<Rightarrow> store \<Rightarrow> store" where
  "restate f g st = st\<lparr>st_memories := map f (st_memories st), st_versions := map g (st_versions st)\<rparr>"

lemma restate_sel [simp]:
  "st_memories (restate f g st) = map f (st_memories st)"
  "st_versions (restate f g st) = map g (st_versions st)"
  "st_dependencies (restate f g st) = st_dependencies st"
  "st_fts (restate f g st) = st_fts st"
  "st_embeddings (restate f g st) = st_embeddings st"
  "st_operations (restate f g st) = st_operations st"
  by (simp_all add: restate_def)

lemma keeps_memoryD:
  assumes "keeps_memory f"
  shows "me_id (f m) = me_id m" "me_current_version (f m) = me_current_version m"
    "me_function (f m) = me_function m" "me_scope (f m) = me_scope m" "me_created_at (f m) = me_created_at m"
  using assms by (simp_all add: keeps_memory_def)

text \<open>
  The chain of versions survives any restating of rows that keeps the open version of
  each memory open and superseded versions superseded.
\<close>

lemma chain_restate:
  assumes chain: "chain_ok st" and f: "keeps_memory f" and g: "keeps_version g"
    and time: "\<And>v. mv_system_time (g v) = mv_system_time v"
    and opens: "\<And>m v. m \<in> set (st_memories st) \<Longrightarrow> v \<in> set (st_versions st) \<Longrightarrow> mv_memory_id v = me_id m \<Longrightarrow>
      mv_number v = me_current_version m \<Longrightarrow> open_version m v \<Longrightarrow> open_version (f m) (g v)"
    and closed: "\<And>m v. m \<in> set (st_memories st) \<Longrightarrow> v \<in> set (st_versions st) \<Longrightarrow> mv_memory_id v = me_id m \<Longrightarrow>
      mv_number v < me_current_version m \<Longrightarrow> mv_state (g v) = mv_state v"
  shows "chain_ok (restate f g st)"
  unfolding chain_ok_def restate_sel set_map
proof (intro conjI ballI)
  fix m' assume "m' \<in> f ` set (st_memories st)"
  then obtain m where m: "m \<in> set (st_memories st)" "m' = f m" by blast
  obtain v where v: "v \<in> set (st_versions st)" "mv_memory_id v = me_id m"
      "mv_number v = me_current_version m" "open_version m v"
    by (rule chain_memoryD [OF chain m(1)])
  from opens [OF m(1) v] show "\<exists>v\<in>g ` set (st_versions st). mv_memory_id v = me_id m' \<and>
      mv_number v = me_current_version m' \<and> open_version m' v"
    using v(2,3) by (intro bexI [OF _ imageI [OF v(1)]]) (simp add: m(2) keeps_memoryD [OF f] keeps_versionD [OF g])
next
  fix v' assume "v' \<in> g ` set (st_versions st)"
  then obtain v where v: "v \<in> set (st_versions st)" "v' = g v" by blast
  obtain n where n: "n \<in> set (st_memories st)" "me_id n = mv_memory_id v" "mv_number v \<le> me_current_version n"
      "payload_validate (me_function n) (mv_payload v) = None" "mv_provenance v \<noteq> []"
      "mv_number v < me_current_version n \<longrightarrow>
         mv_state v = VersionSuperseded \<and> (\<exists>w \<in> set (st_versions st). succeeded_by v w)"
    by (rule chain_versionD [OF chain v(1)])
  have "mv_state v' = VersionSuperseded \<and> (\<exists>w\<in>g ` set (st_versions st). succeeded_by v' w)"
    if "mv_number v < me_current_version n"
    using n(6) that closed [OF n(1) v(1) n(2) [symmetric] that] succeeded_by_map [OF g time] v(2) by force
  then show "\<exists>m\<in>f ` set (st_memories st). me_id m = mv_memory_id v' \<and> mv_number v' \<le> me_current_version m \<and>
      payload_validate (me_function m) (mv_payload v') = None \<and> mv_provenance v' \<noteq> [] \<and>
      (mv_number v' < me_current_version m \<longrightarrow>
        mv_state v' = VersionSuperseded \<and> (\<exists>w\<in>g ` set (st_versions st). succeeded_by v' w))"
    using n(2-5) v(2)
    by (intro bexI [OF _ imageI [OF n(1)]]) (simp add: keeps_memoryD [OF f] keeps_versionD [OF g])
qed

lemma version_scope_restate:
  assumes "keeps_memory f" "keeps_version g"
  shows "version_scope (restate f g st) i = version_scope st i"
  using assms
  by (simp add: version_scope_def version_memory_def find_row_map keeps_versionD keeps_memoryD option.map_comp comp_def
      split: option.splits)

lemma restate_ok:
  assumes ok: "store_ok st" and f: "keeps_memory f" and g: "keeps_version g"
    and chain: "chain_ok (restate f g st)"
    and state: "\<And>m. m \<in> set (st_memories st) \<Longrightarrow> known_memory_state (me_state (f m)) \<and>
      (me_state (f m) = MemoryForgotten \<longrightarrow> me_state m = MemoryForgotten)"
  shows "store_ok (restate f g st)"
proof (rule store_okI [OF _ _ chain])
  have parts: "keys_ok st" "edges_ok st" "flow_ok st" "index_ok st" "memories_ok st"
    using ok by (simp_all add: store_ok_def)
  show "keys_ok (restate f g st)"
    using parts(1) by (simp add: keys_ok_def comp_def keeps_versionD [OF g] keeps_memoryD [OF f])
  show "edges_ok (restate f g st)" using parts(2) g by (simp add: edges_ok_def)
  show "flow_ok (restate f g st)" using parts(3) by (simp add: flow_ok_def version_scope_restate [OF f g])
  show "memories_ok (restate f g st)"
    using parts(5) state
    by (auto simp: memories_ok_def memory_validate_None keeps_memoryD [OF f] keeps_version_named [OF g]
        simp del: scope_validate_None)
  show "index_ok (restate f g st)"
    using parts(4) state unfolding index_ok_def restate_sel set_map bex_simps(7) ball_simps(9)
      keeps_versionD [OF g] keeps_memoryD [OF f] by blast
qed

lemma chain_change_state:
  assumes chain: "chain_ok st" and keys: "keys_ok st"
    and load: "load_current_memory st i = Inr (m, c)" and agrees: "state_agrees ms vs"
    and c: "tr_to (mv_system_time c) = None"
  shows "chain_ok (change_state (me_id m) ms (mv_id c) vs st)"
proof -
  note l = load_current_memoryD [OF load]
  let ?f = "\<lambda>n. if me_id n = me_id m then n\<lparr>me_state := ms\<rparr> else n"
  let ?g = "\<lambda>v. if mv_id v = mv_id c then v\<lparr>mv_state := vs\<rparr> else v"
  have same: "v = c \<longleftrightarrow> mv_id v = mv_id c" if "v \<in> set (st_versions st)" for v
    using keys_version_unique [OF keys that l(3)] by blast
  have current: "v = c \<longleftrightarrow> me_id n = me_id m" if "n \<in> set (st_memories st)" "v \<in> set (st_versions st)"
      "mv_memory_id v = me_id n" "mv_number v = me_current_version n" for n v
  proof
    assume "me_id n = me_id m"
    then have "n = m" using keys_memory_unique [OF keys that(1) l(1)] by simp
    then show "v = c" using keys_number_unique [OF keys that(2) l(3)] that(3,4) l(4,5) by simp
  qed (use that(3) l(4) in simp)
  have "chain_ok (restate ?f ?g st)"
  proof (rule chain_restate [OF chain])
    show "keeps_memory ?f" "keeps_version ?g" by (simp_all add: keeps_memory_def keeps_version_def)
    fix n v assume n: "n \<in> set (st_memories st)" "v \<in> set (st_versions st)" "mv_memory_id v = me_id n"
    show "open_version (?f n) (?g v)" if "mv_number v = me_current_version n" "open_version n v"
      using current [OF n that(1)] same [OF n(2)] that(2) agrees c by (auto simp: open_version_def)
    show "mv_state (?g v) = mv_state v" if less: "mv_number v < me_current_version n"
    proof -
      have "v \<noteq> c"
      proof
        assume "v = c"
        then have "n = m" using keys_memory_unique [OF keys n(1) l(1)] n(3) l(4) by simp
        with \<open>v = c\<close> less l(5) show False by simp
      qed
      then show ?thesis using same [OF n(2)] by simp
    qed
  qed simp
  moreover have "change_state (me_id m) ms (mv_id c) vs st = restate ?f ?g st"
    by (simp add: change_state_def set_version_state_def set_memory_state_def restate_def update_rows_def)
  ultimately show ?thesis by simp
qed

lemma remove_indexes_sel [simp]:
  "st_memories (remove_indexes i st) = st_memories st"
  "st_versions (remove_indexes i st) = st_versions st"
  "st_dependencies (remove_indexes i st) = st_dependencies st"
  "st_operations (remove_indexes i st) = st_operations st"
  by (simp_all add: remove_indexes_def)

lemma version_scope_cong:
  "st_memories s = st_memories t \<Longrightarrow> st_versions s = st_versions t \<Longrightarrow> version_scope s = version_scope t"
  by (intro ext) (simp add: version_scope_def version_memory_def split: option.split)

lemma version_scope_remove_indexes [simp]: "version_scope (remove_indexes i st) = version_scope st"
  by (rule version_scope_cong) simp_all

lemma frame_remove_indexes:
  "keys_ok (remove_indexes i st) = keys_ok st" "edges_ok (remove_indexes i st) = edges_ok st"
  "chain_ok (remove_indexes i st) = chain_ok st" "flow_ok (remove_indexes i st) = flow_ok st"
  "memories_ok (remove_indexes i st) = memories_ok st"
  by (simp_all add: keys_ok_def edges_ok_def chain_ok_def flow_ok_def memories_ok_def)

lemma store_ok_cong:
  assumes "st_memories s = st_memories t" "st_versions s = st_versions t" "st_dependencies s = st_dependencies t"
    "st_fts s = st_fts t" "st_embeddings s = st_embeddings t" "st_operations s = st_operations t"
  shows "store_ok s = store_ok t"
proof -
  have "version_scope s = version_scope t" using assms(1,2) by (rule version_scope_cong)
  then show ?thesis
    using assms
    by (simp add: store_ok_def keys_ok_def edges_ok_def chain_ok_def flow_ok_def index_ok_def memories_ok_def)
qed

text \<open>Nothing of a memory is left in either index once its rows are removed.\<close>

lemma remove_indexes_empty:
  "r \<in> set (st_fts (remove_indexes i st)) \<Longrightarrow> fx_memory r \<noteq> i"
  "e \<in> set (st_embeddings (remove_indexes i st)) \<Longrightarrow> v \<in> set (st_versions st) \<Longrightarrow>
     mv_id v = eb_version e \<Longrightarrow> mv_memory_id v \<noteq> i"
  by (force simp: remove_indexes_def set_delete_rows)+

definition index_rows_ok :: "store \<Rightarrow> bool" where
  "index_rows_ok st \<longleftrightarrow>
     (\<forall>r \<in> set (st_fts st). \<exists>v \<in> set (st_versions st).
        fx_version r = mv_id v \<and> fx_memory r = mv_memory_id v \<and> fx_text r = memory_text (mv_payload v)) \<and>
     (\<forall>e \<in> set (st_embeddings st). eb_version e \<in> fx_version ` set (st_fts st))"

lemma index_ok_split:
  "index_ok st \<longleftrightarrow> index_rows_ok st \<and>
     (\<forall>r \<in> set (st_fts st). \<forall>m \<in> set (st_memories st). me_id m = fx_memory r \<longrightarrow>
        me_state m \<noteq> MemoryForgotten \<and> fx_namespace r = sc_namespace (me_scope m))"
  by (auto simp: index_ok_def index_rows_ok_def)

lemma index_rows_change_state:
  assumes "index_rows_ok st"
  shows "index_rows_ok (change_state mi ms vi vs st)"
proof -
  let ?g = "\<lambda>v. if mv_id v = vi then v\<lparr>mv_state := vs\<rparr> else v"
  have g: "mv_id (?g v) = mv_id v" "mv_memory_id (?g v) = mv_memory_id v" "mv_payload (?g v) = mv_payload v" for v
    by simp_all
  show ?thesis
    using assms unfolding index_rows_ok_def change_state_sel set_update_rows bex_simps(7) g .
qed

lemma index_rows_remove:
  assumes "index_rows_ok st"
  shows "index_rows_ok (remove_indexes i st)"
  unfolding index_rows_ok_def
proof (intro conjI ballI)
  fix r assume "r \<in> set (st_fts (remove_indexes i st))"
  then show "\<exists>v\<in>set (st_versions (remove_indexes i st)).
      fx_version r = mv_id v \<and> fx_memory r = mv_memory_id v \<and> fx_text r = memory_text (mv_payload v)"
    using assms by (auto simp: index_rows_ok_def remove_indexes_def set_delete_rows)
next
  fix e assume e: "e \<in> set (st_embeddings (remove_indexes i st))"
  then have "e \<in> set (st_embeddings st)" by (auto simp: remove_indexes_def set_delete_rows)
  then obtain r where r: "r \<in> set (st_fts st)" "fx_version r = eb_version e"
    using assms unfolding index_rows_ok_def by (metis imageE)
  then obtain v where v: "v \<in> set (st_versions st)" "fx_version r = mv_id v" "fx_memory r = mv_memory_id v"
    using assms unfolding index_rows_ok_def by blast
  then have "fx_memory r \<noteq> i" using remove_indexes_empty(2) [OF e v(1)] r(2) by simp
  with r have "r \<in> set (st_fts (remove_indexes i st))" by (simp add: remove_indexes_def set_delete_rows)
  with r(2) show "eb_version e \<in> fx_version ` set (st_fts (remove_indexes i st))" by force
qed

lemma change_state_ok:
  assumes ok: "store_ok st" and load: "load_current_memory st i = Inr (m, c)" and agrees: "state_agrees ms vs"
    and forget: "remove = (ms = MemoryForgotten)"
  shows "store_ok (if remove then remove_indexes (me_id m) (change_state (me_id m) ms (mv_id c) vs st)
                   else change_state (me_id m) ms (mv_id c) vs st)"
proof -
  let ?st = "change_state (me_id m) ms (mv_id c) vs st"
  have c: "tr_to (mv_system_time c) = None"
    using load_current_memory_open [OF ok load] by (simp add: open_version_def)
  have parts: "keys_ok st" "edges_ok st" "chain_ok st" "flow_ok st" "index_ok st"
    using ok by (simp_all add: store_ok_def)
  have new: "keys_ok ?st" "edges_ok ?st" "chain_ok ?st" "flow_ok ?st"
    using parts keys_change_state edges_change_state flow_change_state
      chain_change_state [OF parts(3,1) load agrees c] by blast+
  have valid: "memories_ok ?st"
    using ok agrees by (auto simp: store_ok_def memories_ok_def set_update_rows state_agrees_known memory_validate_state)
  have rows: "index_rows_ok ?st" using parts(5) by (auto simp: index_ok_split intro: index_rows_change_state)
  show ?thesis
  proof (cases remove)
    case True
    have "index_ok (remove_indexes (me_id m) ?st)"
      using parts(5) index_rows_remove [OF rows]
      by (auto simp: index_ok_split set_update_rows remove_indexes_def set_delete_rows)
    then show ?thesis using True new valid by (simp add: store_ok_def frame_remove_indexes)
  next
    case False
    then have "index_ok ?st"
      using parts(5) rows forget by (auto simp: index_ok_split set_update_rows split: if_splits)
    then show ?thesis using False new valid by (simp add: store_ok_def)
  qed
qed

lemma find_apply_None:
  "find_apply st i = None \<longleftrightarrow>
     i \<notin> op_proposal_id ` set (filter (\<lambda>o'. op_phase o' = PhaseApply) (st_operations st))"
  by (auto simp: find_apply_def find_None_iff)

lemma insert_operation_Inr [result_simps]:
  "insert_operation o' st = Inr st' \<longleftrightarrow>
     op_id o' \<notin> op_id ` set (st_operations st) \<and>
     (op_phase o' = PhaseApply \<longrightarrow> find_apply st (op_proposal_id o') = None) \<and>
     st' = st\<lparr>st_operations := st_operations st @ [o']\<rparr>"
  by (auto simp: insert_operation_def result_simps)

lemma insert_operation_ok:
  assumes "store_ok st" and "insert_operation o' st = Inr st'"
  shows "store_ok st'"
proof -
  have st': "st' = st\<lparr>st_operations := st_operations st @ [o']\<rparr>"
    using assms(2) by (simp add: result_simps)
  have scope: "version_scope st' = version_scope st"
    by (rule version_scope_cong) (simp_all add: st')
  have "keys_ok st'"
    using assms by (auto simp: store_ok_def keys_ok_def insert_operation_Inr find_apply_None)
  moreover have "edges_ok st'" "chain_ok st'" "index_ok st'" "flow_ok st'" "memories_ok st'"
    using assms(1)
    by (simp_all add: st' store_ok_def edges_ok_def chain_ok_def index_ok_def flow_ok_def memories_ok_def
        scope [unfolded st'])
  ultimately show ?thesis by (simp add: store_ok_def)
qed

section \<open>The mutations\<close>

lemma dependencies_flow:
  assumes "validate_dependencies st target cur parents = None" and "p \<in> set parents"
    and "version_scope st p = Some a"
  shows "scope_flows a target"
  using assms
  by (auto simp: validate_dependencies_def parent_check_def version_scope_def scope_flows_def split: option.splits)

lemma apply_create_Inr:
  "apply_create L st p auth at' = Inr (st', m, v) \<longleftrightarrow>
    (\<exists>c. lb_decode_create L (pr_payload p) = Inr c \<and> create_validate c = None \<and>
       sc_namespace (mc_scope c) = pr_namespace p \<and>
       (\<forall>a. auth = Some a \<longrightarrow> scope_authorizes_create a (mc_scope c)) \<and>
       validate_dependencies st (mc_scope c) '''' (mc_derived_from c) = None \<and>
       validate_payload_references st (mc_scope c) at' (mc_payload c) = None \<and>
       m = create_memory L p c at' \<and> v = create_version L p c at' \<and>
       memory_fits m v st \<and> encode_version v = None \<and> st' = add_memory m v st)"
  by (auto simp: apply_create_def result_simps split: option.splits)

lemma apply_create_ok:
  assumes "store_ok st" and "apply_create L st p auth at' = Inr (st', m, v)"
  shows "store_ok st'"
proof -
  from assms(2) obtain c where deps: "validate_dependencies st (mc_scope c) '''' (mc_derived_from c) = None"
    and m: "m = create_memory L p c at'" and v: "v = create_version L p c at'"
    and fits: "memory_fits m v st" and st': "st' = add_memory m v st"
    by (auto simp: apply_create_Inr)
  show ?thesis unfolding st'
  proof (rule add_memory_ok [OF assms(1) fits])
    show "open_version m v" "me_state m \<noteq> MemoryForgotten"
      by (simp_all add: m v create_memory_def create_version_def open_version_def)
    fix q a assume "q \<in> set (mv_derived_from v)" "version_scope st q = Some a"
    then show "scope_flows a (me_scope m)"
      using dependencies_flow [OF deps] by (simp add: m v create_memory_def create_version_def)
  qed
qed

definition supersede_row :: "ident \<Rightarrow> gtime \<Rightarrow> gtime \<Rightarrow> ident set \<Rightarrow> memory_version \<Rightarrow> memory_version" where
  "supersede_row i at' vf D =
     (\<lambda>v. if mv_id v \<in> D \<and> mv_state v = VersionCurrent then v\<lparr>mv_state := VersionStale\<rparr> else v) \<circ>
     (\<lambda>v. if mv_id v = i \<and> mv_state v \<in> {VersionCurrent, VersionStale} then close_version at' vf v else v)"

lemma supersede_rows:
  "mark_descendants_stale i (close_current i at' vf st) =
     map_versions (supersede_row i at' vf (set (descendants (st_dependencies st) i))) st"
  by (simp add: mark_descendants_stale_def close_current_def mark_stale_def update_rows_def map_versions_def
      supersede_row_def)

lemma keeps_close_version: "keeps_version (close_version at' vf)"
  by (simp add: keeps_version_def close_version_def)

lemma keeps_supersede_row: "keeps_version (supersede_row i at' vf D)"
  unfolding supersede_row_def
  by (intro keeps_version_comp keeps_version_if keeps_close_version) (simp add: keeps_version_def)

lemma supersede_row_other: "mv_id u \<noteq> i \<Longrightarrow> only_stales (supersede_row i at' vf D) u"
  by (simp add: only_stales_def supersede_row_def stale_step_def)

lemma supersede_row_target:
  "mv_state c \<in> {VersionCurrent, VersionStale} \<Longrightarrow> supersede_row (mv_id c) at' vf D c = close_version at' vf c"
  by (auto simp: supersede_row_def close_version_def)

lemma supersede_current_Inr:
  "supersede_current L st p m c e at' = Inr (st', m', v) \<longleftrightarrow>
    (let g = supersede_row (mv_id c) at' (tr_from (ev_valid_time e)) (set (descendants (st_dependencies st) (mv_id c))) in
     tr_from (mv_system_time c) < at' \<and> v = evolved_version L p m c e at' \<and>
     version_validate (me_function m) v = None \<and> encode_version v = None \<and>
     version_fits v (map_versions g st) \<and>
     st' = advance_memory (me_id m) (mv_number v) (add_version m v (map_versions g st)) \<and>
     m' = m\<lparr>me_current_version := mv_number v, me_state := MemoryActive\<rparr>)"
  by (auto simp: supersede_current_def insert_version_rows_def result_simps Let_def supersede_rows)

lemma advance_frame:
  "keys_ok st \<Longrightarrow> keys_ok (advance_memory i n st)"
  "edges_ok st \<Longrightarrow> edges_ok (advance_memory i n st)"
  "index_ok st \<Longrightarrow> index_ok (advance_memory i n st)"
  by (auto simp: keys_ok_def edges_ok_def index_ok_def map_key_update_rows set_update_rows)

lemma version_scope_advance: "version_scope (advance_memory i n st) = version_scope st"
  by (rule ext)
    (auto simp: version_scope_def version_memory_def find_row_update option.map_comp comp_def
      split: option.splits intro!: option.map_cong)

lemma flow_advance: "flow_ok st \<Longrightarrow> flow_ok (advance_memory i n st)"
  by (simp add: flow_ok_def version_scope_advance)

lemma supersede_current_ok:
  assumes ok: "store_ok st" and load: "load_current_memory st i = Inr (m, c)"
    and active: "me_state m = MemoryActive"
    and deps: "validate_dependencies st (me_scope m) (mv_id c) (ev_derived_from e) = None"
    and run: "supersede_current L st p m c e at' = Inr (st', m', v)"
  shows "store_ok st'"
proof -
  define g where "g = supersede_row (mv_id c) at' (tr_from (ev_valid_time e)) (set (descendants (st_dependencies st) (mv_id c)))"
  let ?st1 = "map_versions g st"
  have parts: "keys_ok st" "edges_ok st" "chain_ok st" "flow_ok st" "index_ok st"
    using ok by (simp_all add: store_ok_def)
  note l = load_current_memoryD [OF load]
  have g: "keeps_version g" by (simp add: g_def keeps_supersede_row)
  from run have later: "tr_from (mv_system_time c) < at'" and v: "v = evolved_version L p m c e at'"
    and valid: "version_validate (me_function m) v = None" and enc: "encode_version v = None" and fits: "version_fits v ?st1"
    and st': "st' = advance_memory (me_id m) (mv_number v) (add_version m v ?st1)"
    unfolding supersede_current_Inr Let_def g_def by blast+
  have open_c: "mv_state c \<in> {VersionCurrent, VersionStale}"
    using load_current_memory_open [OF ok load] active by (simp add: open_version_def)
  have gc: "g c = close_version at' (tr_from (ev_valid_time e)) c"
    unfolding g_def by (rule supersede_row_target [OF open_c])
  have "chain_ok st'"
    unfolding st'
  proof (rule chain_supersede [OF parts(3,1) l(1) active l(3-5) g])
    show "only_stales g u" if "u \<in> set (st_versions st)" "u \<noteq> c" for u
      using keys_version_unique [OF parts(1) that(1) l(3)] that(2) unfolding g_def
      by (intro supersede_row_other) blast
  qed (use later valid in \<open>simp_all add: gc close_version_def v evolved_version_def version_validate_def\<close>)
  moreover have "keys_ok st'" "edges_ok st'"
    unfolding st' using fits keys_map_versions [OF parts(1) g] edges_map_versions [OF parts(2) g]
    by (auto intro!: advance_frame keys_add_version edges_add_version)
  moreover have "index_ok st'"
    unfolding st'
  proof (intro advance_frame(3) index_add_version index_map_versions [OF parts(5) g])
    show "mv_memory_id v = me_id m" by (simp add: v evolved_version_def)
    fix n assume "n \<in> set (st_memories ?st1)" "me_id n = me_id m"
    then have "n = m" using keys_memory_unique [OF parts(1) _ l(1)] by simp
    then show "me_state n \<noteq> MemoryForgotten \<and> me_scope n = me_scope m" using active by simp
  qed
  moreover have "flow_ok st'"
    unfolding st'
  proof (intro flow_advance flow_add_version [OF _ _ fits])
    fix q a b assume q: "q \<in> set (mv_derived_from v)" "version_scope ?st1 q = Some a"
      and b: "version_scope (add_version m v ?st1) (mv_id v) = Some b"
    have "find_row me_id (me_id m) (st_memories st) = Some m"
      using parts(1) l(1) by (simp add: find_row_distinct keys_ok_def)
    moreover have "mv_memory_id v = me_id m" by (simp add: v evolved_version_def)
    ultimately have "version_memory (add_version m v ?st1) (mv_id v) = Some m"
      using version_memory_add_new [OF fits, of m] by simp
    then have "b = me_scope m" using b by (simp add: version_scope_def)
    then show "scope_flows a b"
      using dependencies_flow [OF deps, of q a] q g by (simp add: version_scope_map_versions v evolved_version_def)
  qed (use flow_map_versions [OF parts(4) g] edges_map_versions [OF parts(2) g] in auto)
  moreover have "memories_ok st'"
    using ok valid unfolding st'
    by (auto simp: store_ok_def memories_ok_def set_update_rows version_validate_def memory_validate_advance
        version_validate_named [OF valid enc] keeps_version_named [OF g])
  ultimately show ?thesis by (simp add: store_ok_def)
qed

lemma set_conflict_group_map:
  "set_conflict_group i grp st =
     map_versions (\<lambda>v. if mv_id v = i then v\<lparr>mv_conflict_group := grp\<rparr> else v) st"
  by (simp add: set_conflict_group_def update_rows_def map_versions_def)

lemma apply_conflict_Inr:
  "apply_conflict L st p m c e at' = Inr (st', m', v) \<longleftrightarrow>
    (mv_conflict_group c \<noteq> '''' \<longrightarrow> ev_conflict_group e = '''' \<or> ev_conflict_group e = mv_conflict_group c) \<and>
    m' = conflict_memory L p m at' \<and> v = conflict_version L p m c e at' \<and>
    memory_fits m' v (set_conflict_group (mv_id c) (conflict_group_for L m c e) st) \<and> encode_version v = None \<and>
    st' = add_memory m' v (set_conflict_group (mv_id c) (conflict_group_for L m c e) st)"
  by (auto simp: apply_conflict_def result_simps)

lemma map_versions_ok:
  assumes "store_ok st" and keeps: "keeps_version g" and "\<And>v. only_stales g v"
  shows "store_ok (map_versions g st)"
  using assms
  by (intro store_okI)
    (auto simp: store_ok_def memories_ok_def keeps_version_named [OF keeps]
      intro!: keys_map_versions edges_map_versions chain_map_versions flow_map_versions index_map_versions)

lemma keeps_conflict_group:
  assumes "apply_conflict L st p m c e at' = Inr (st', m', v)"
  shows "keeps_version (\<lambda>u. if mv_id u = i then u\<lparr>mv_conflict_group := conflict_group_for L m c e\<rparr> else u)"
proof -
  from assms have "version_validate (me_function m') v = None" "encode_version v = None"
    and v: "v = conflict_version L p m c e at'"
    unfolding apply_conflict_Inr memory_fits_def by blast+
  then have "version_named v" by (intro version_validate_named)
  then show ?thesis by (auto simp: keeps_version_def version_named_def v conflict_version_def)
qed

lemma apply_conflict_ok:
  assumes ok: "store_ok st" and active: "me_state m = MemoryActive"
    and deps: "validate_dependencies st (me_scope m) (mv_id c) (ev_derived_from e) = None"
    and run: "apply_conflict L st p m c e at' = Inr (st', m', v)"
  shows "store_ok st'"
proof -
  let ?st1 = "set_conflict_group (mv_id c) (conflict_group_for L m c e) st"
  let ?g = "\<lambda>v. if mv_id v = mv_id c then v\<lparr>mv_conflict_group := conflict_group_for L m c e\<rparr> else v"
  have g: "keeps_version ?g" by (rule keeps_conflict_group [OF run])
  have st1: "?st1 = map_versions ?g st" by (rule set_conflict_group_map)
  have ok1: "store_ok ?st1"
    unfolding st1 by (rule map_versions_ok [OF ok g]) (simp add: only_stales_def stale_step_def)
  from run have st': "st' = add_memory m' v ?st1" and fits: "memory_fits m' v ?st1"
    and m': "m' = conflict_memory L p m at'" and v: "v = conflict_version L p m c e at'"
    unfolding apply_conflict_Inr by blast+
  show ?thesis unfolding st'
  proof (rule add_memory_ok [OF ok1 fits])
    show "open_version m' v" "me_state m' \<noteq> MemoryForgotten"
      using active by (simp_all add: m' v conflict_memory_def conflict_version_def open_version_def)
    fix q a assume "q \<in> set (mv_derived_from v)" "version_scope ?st1 q = Some a"
    then show "scope_flows a (me_scope m')"
      using dependencies_flow [OF deps, of q a]
      by (simp add: st1 version_scope_map_versions [OF g] m' v conflict_memory_def conflict_version_def)
  qed
qed

text \<open>The guards an accepted evolution passed, and which of its two ways it took.\<close>

definition evolution_accepted ::
  "lib \<Rightarrow> store \<Rightarrow> proposal \<Rightarrow> scope option \<Rightarrow> gtime \<Rightarrow> memory \<Rightarrow> memory_version \<Rightarrow> memory_evolution \<Rightarrow> bool" where
  "evolution_accepted L st p auth at' m c e \<longleftrightarrow>
     load_current_memory st (pr_target_id p) = Inr (m, c) \<and> sc_namespace (me_scope m) = pr_namespace p \<and>
     (\<forall>a. auth = Some a \<longrightarrow> scope_authorizes_memory a (me_scope m)) \<and> me_state m = MemoryActive \<and>
     lb_decode_evolution L (pr_payload p) = Inr e \<and> evolution_validate (me_function m) e = None \<and>
     (pr_kind p = ProposalConsolidate \<longrightarrow> ev_mode e = EvolutionRebuild) \<and>
     validate_dependencies st (me_scope m) (mv_id c) (ev_derived_from e) = None \<and>
     validate_payload_references st (me_scope m) at' (ev_payload e) = None"

lemma authorized_guard:
  "(case auth of None \<Rightarrow> False | Some a \<Rightarrow> \<not> P a) \<longleftrightarrow> \<not> (\<forall>a. auth = Some a \<longrightarrow> P a)"
  by (cases auth) simp_all

lemma apply_evolution_Inr:
  "apply_evolution L st p auth at' = Inr r \<longleftrightarrow>
    (\<exists>m c e. evolution_accepted L st p auth at' m c e \<and>
       (if ev_mode e = EvolutionConflict then apply_conflict L st p m c e at' = Inr r
        else supersede_current L st p m c e at' = Inr r))"
proof (cases "load_current_memory st (pr_target_id p)")
  case (Inl e)
  then show ?thesis by (simp add: apply_evolution_def evolution_accepted_def)
next
  case (Inr r0)
  obtain m c where r0: "r0 = (m, c)" by (cases r0)
  show ?thesis
  proof (cases "lb_decode_evolution L (pr_payload p)")
    case (Inl e)
    then show ?thesis by (auto simp: apply_evolution_def evolution_accepted_def result_simps)
  next
    case (Inr e)
    then show ?thesis
      using \<open>load_current_memory st (pr_target_id p) = Inr r0\<close>
      by (auto simp: apply_evolution_def evolution_accepted_def guard_check_Inr r0 authorized_guard)
  qed
qed

lemma apply_evolution_ok:
  assumes "store_ok st" and "apply_evolution L st p auth at' = Inr (st', m', v)"
  shows "store_ok st'"
proof -
  from assms(2) obtain m c e where acc: "evolution_accepted L st p auth at' m c e"
    and run: "if ev_mode e = EvolutionConflict then apply_conflict L st p m c e at' = Inr (st', m', v)
      else supersede_current L st p m c e at' = Inr (st', m', v)"
    unfolding apply_evolution_Inr by blast
  then have load: "load_current_memory st (pr_target_id p) = Inr (m, c)" and active: "me_state m = MemoryActive"
    and deps: "validate_dependencies st (me_scope m) (mv_id c) (ev_derived_from e) = None"
    by (simp_all only: evolution_accepted_def)
  show ?thesis
  proof (cases "ev_mode e = EvolutionConflict")
    case True
    with run show ?thesis by (intro apply_conflict_ok [OF assms(1) active deps]) simp
  next
    case False
    with run show ?thesis by (intro supersede_current_ok [OF assms(1) load active deps]) simp
  qed
qed

lemma apply_state_Inr:
  "apply_state L st p auth ms vs remove = Inr (st', m', v') \<longleftrightarrow>
    (\<exists>u m v. trim_space (pr_payload p) = ''{}'' \<and> lb_decode_empty L (pr_payload p) = Inr u \<and>
       load_current_memory st (pr_target_id p) = Inr (m, v) \<and> sc_namespace (me_scope m) = pr_namespace p \<and>
       (\<forall>a. auth = Some a \<longrightarrow> scope_authorizes_memory a (me_scope m)) \<and>
       m' = m\<lparr>me_state := ms\<rparr> \<and> v' = v\<lparr>mv_state := vs\<rparr> \<and>
       st' = (if remove then remove_indexes (me_id m) (change_state (me_id m) ms (mv_id v) vs st)
              else change_state (me_id m) ms (mv_id v) vs st))"
proof (cases "load_current_memory st (pr_target_id p)")
  case (Inl e)
  then show ?thesis by (auto simp: apply_state_def bind_result_Inr guard_check_Inr)
next
  case (Inr r0)
  obtain m v where r0: "r0 = (m, v)" by (cases r0)
  show ?thesis
    using Inr
    by (auto simp: apply_state_def guard_check_Inr bind_result_Inr wrap_result_Inr r0 authorized_guard
        Let_def change_state_def)
qed

lemma apply_state_ok:
  assumes "store_ok st" and "apply_state L st p auth ms vs remove = Inr (st', m', v')"
    and "state_agrees ms vs" and "remove = (ms = MemoryForgotten)"
  shows "store_ok st'"
proof -
  from assms(2) obtain m v where load: "load_current_memory st (pr_target_id p) = Inr (m, v)"
    and st': "st' = (if remove then remove_indexes (me_id m) (change_state (me_id m) ms (mv_id v) vs st)
              else change_state (me_id m) ms (mv_id v) vs st)"
    unfolding apply_state_Inr by blast
  show ?thesis unfolding st' by (rule change_state_ok [OF assms(1) load assms(3,4)])
qed

lemma apply_mutation_cases:
  assumes "apply_mutation L st p auth at' = Inr r"
  obtains (create) "apply_create L st p auth at' = Inr r"
  | (evolve) "apply_evolution L st p auth at' = Inr r"
  | (state) ms vs remove where "apply_state L st p auth ms vs remove = Inr r"
      "state_agrees ms vs" "remove = (ms = MemoryForgotten)"
proof (cases "pr_kind p")
  case ProposalArchive
  with assms show ?thesis by (intro state [of MemoryArchived VersionArchived False]) (simp_all add: apply_mutation_def)
next
  case ProposalForget
  with assms show ?thesis by (intro state [of MemoryForgotten VersionForgotten True]) (simp_all add: apply_mutation_def)
next
  case ProposalCreate
  with assms show ?thesis by (intro create) (simp add: apply_mutation_def)
next
  case ProposalUpdate
  with assms show ?thesis by (intro evolve) (simp add: apply_mutation_def)
next
  case ProposalConsolidate
  with assms show ?thesis by (intro evolve) (simp add: apply_mutation_def)
next
  case (ProposalOther k)
  with assms show ?thesis by (simp add: apply_mutation_def)
qed

lemma apply_mutation_ok:
  assumes "store_ok st" and "apply_mutation L st p auth at' = Inr (st', m, v)"
  shows "store_ok st'"
  using assms(2)
proof (cases rule: apply_mutation_cases)
  case create
  then show ?thesis by (rule apply_create_ok [OF assms(1)])
next
  case evolve
  then show ?thesis by (rule apply_evolution_ok [OF assms(1)])
next
  case (state ms vs remove)
  then show ?thesis by (rule apply_state_ok [OF assms(1)])
qed

lemma apply_with_Inr:
  "apply_with L st p auth actor at' = (st', Inr a) \<longleftrightarrow>
    proposal_validate L p = None \<and> actor \<noteq> '''' \<and> at' \<noteq> 0 \<and>
    (load_applied_proposal st (pr_id p) = Inr (Some a) \<and> st' = st \<and>
       (\<forall>s. auth = Some s \<longrightarrow> scope_authorizes_memory s (me_scope (am_memory a))) \<or>
     load_applied_proposal st (pr_id p) = Inr None \<and> apply_fresh L st p auth actor at' = Inr (st', a))"
  by (auto simp: apply_with_def result_simps is_zero_time_def split: option.splits)

theorem apply_with_ok:
  assumes "store_ok st"
  shows "store_ok (fst (apply_with L st p auth actor at'))"
proof (cases "apply_with L st p auth actor at'")
  case (Pair st' r)
  show ?thesis
  proof (cases r)
    case (Inl e)
    then have "st' = st" using Pair unfolding apply_with_def transaction_def by (auto split: sum.splits)
    then show ?thesis using Pair assms by simp
  next
    case (Inr a)
    with Pair consider "st' = st" | "apply_fresh L st p auth actor at' = Inr (st', a)"
      by (auto simp: apply_with_Inr)
    then have "store_ok st'"
    proof cases
      case 2
      then show ?thesis using assms
        by (auto simp: apply_fresh_def bind_result_Inr split: prod.splits
            intro: insert_operation_ok dest: apply_mutation_ok)
    qed (use assms in simp)
    then show ?thesis using Pair by simp
  qed
qed

section \<open>Replay\<close>

lemma scope_authorizes_create_memory: "scope_authorizes_create a t \<Longrightarrow> scope_authorizes_memory a t"
  by (simp add: scope_authorizes_create_def scope_authorizes_memory_def)

lemma mutation_memory:
  assumes "store_ok st" and run: "apply_mutation L st p auth at' = Inr (st', m, v)"
  shows "m \<in> set (st_memories st')" "v \<in> set (st_versions st')" "mv_memory_id v = me_id m"
    "mv_number v = me_current_version m"
    "\<And>a. auth = Some a \<Longrightarrow> scope_authorizes_memory a (me_scope m)"
proof -
  have state: "m \<in> set (st_memories st') \<and> v \<in> set (st_versions st') \<and> mv_memory_id v = me_id m \<and>
      mv_number v = me_current_version m \<and> (\<forall>a. auth = Some a \<longrightarrow> scope_authorizes_memory a (me_scope m))"
    if st: "apply_state L st p auth ms vs remove = Inr (st', m, v)" for ms vs remove
  proof -
    from st obtain m0 v0 where load: "load_current_memory st (pr_target_id p) = Inr (m0, v0)"
      and auth: "\<forall>a. auth = Some a \<longrightarrow> scope_authorizes_memory a (me_scope m0)"
      and m: "m = m0\<lparr>me_state := ms\<rparr>" and v: "v = v0\<lparr>mv_state := vs\<rparr>"
      and st': "st_memories st' = update_rows (\<lambda>m. me_id m = me_id m0) (\<lambda>m. m\<lparr>me_state := ms\<rparr>) (st_memories st)"
        "st_versions st' = update_rows (\<lambda>v. mv_id v = mv_id v0) (\<lambda>v. v\<lparr>mv_state := vs\<rparr>) (st_versions st)"
      by (auto simp: apply_state_Inr)
    note l = load_current_memoryD [OF load]
    have "m \<in> set (st_memories st')" "v \<in> set (st_versions st')"
      unfolding st' set_update_rows m v using l(1,3) by (auto intro: rev_image_eqI)
    then show ?thesis using l auth by (simp add: m v)
  qed
  have create: "m \<in> set (st_memories st') \<and> v \<in> set (st_versions st') \<and> mv_memory_id v = me_id m \<and>
      mv_number v = me_current_version m \<and> (\<forall>a. auth = Some a \<longrightarrow> scope_authorizes_memory a (me_scope m))"
    if "apply_create L st p auth at' = Inr (st', m, v)"
  proof -
    from that obtain c where auth: "\<forall>a. auth = Some a \<longrightarrow> scope_authorizes_create a (mc_scope c)"
      and m: "m = create_memory L p c at'" and v: "v = create_version L p c at'" and st': "st' = add_memory m v st"
      unfolding apply_create_Inr by blast
    have "m \<in> set (st_memories st')" "v \<in> set (st_versions st')" unfolding st' by simp_all
    moreover have "mv_memory_id v = me_id m" "mv_number v = me_current_version m" "me_scope m = mc_scope c"
      by (simp_all add: m v create_memory_def create_version_def)
    ultimately show ?thesis
      using auth scope_authorizes_create_memory by metis
  qed
  have evolve: "m \<in> set (st_memories st') \<and> v \<in> set (st_versions st') \<and> mv_memory_id v = me_id m \<and>
      mv_number v = me_current_version m \<and> (\<forall>a. auth = Some a \<longrightarrow> scope_authorizes_memory a (me_scope m))"
    if ev: "apply_evolution L st p auth at' = Inr (st', m, v)"
  proof -
    from ev obtain m0 c e where acc: "evolution_accepted L st p auth at' m0 c e"
      and run: "if ev_mode e = EvolutionConflict then apply_conflict L st p m0 c e at' = Inr (st', m, v)
        else supersede_current L st p m0 c e at' = Inr (st', m, v)"
      by (auto simp: apply_evolution_Inr)
    have load: "load_current_memory st (pr_target_id p) = Inr (m0, c)"
      and auth: "\<forall>a. auth = Some a \<longrightarrow> scope_authorizes_memory a (me_scope m0)"
      using acc by (simp_all add: evolution_accepted_def)
    note l = load_current_memoryD [OF load]
    show ?thesis
    proof (cases "ev_mode e = EvolutionConflict")
      case True
      then have m: "m = conflict_memory L p m0 at'" and v: "v = conflict_version L p m0 c e at'"
        and st': "\<exists>st1. st' = add_memory m v st1"
        using run unfolding apply_conflict_Inr by auto
      from st' have "m \<in> set (st_memories st')" "v \<in> set (st_versions st')" by auto
      with auth show ?thesis by (simp add: m v conflict_memory_def conflict_version_def)
    next
      case False
      then have "supersede_current L st p m0 c e at' = Inr (st', m, v)" using run by simp
      then have v: "v = evolved_version L p m0 c e at'"
        and m: "m = m0\<lparr>me_current_version := mv_number v, me_state := MemoryActive\<rparr>"
        and vin: "v \<in> set (st_versions st')"
        and mems: "st_memories st' = update_rows (\<lambda>m. me_id m = me_id m0)
          (\<lambda>m. m\<lparr>me_current_version := mv_number v, me_state := MemoryActive\<rparr>) (st_memories st)"
        unfolding supersede_current_Inr Let_def by (blast, blast, simp, simp)
      have "m \<in> set (st_memories st')"
        unfolding mems set_update_rows m using l(1) by (auto intro: rev_image_eqI)
      with vin auth l show ?thesis by (simp add: m v evolved_version_def)
    qed
  qed
  from run have all: "m \<in> set (st_memories st') \<and> v \<in> set (st_versions st') \<and> mv_memory_id v = me_id m \<and>
      mv_number v = me_current_version m \<and> (\<forall>a. auth = Some a \<longrightarrow> scope_authorizes_memory a (me_scope m))"
    by (cases rule: apply_mutation_cases) (rule create evolve state, assumption)+
  from all show "m \<in> set (st_memories st')" "v \<in> set (st_versions st')" "mv_memory_id v = me_id m"
    "mv_number v = me_current_version m"
    "\<And>a. auth = Some a \<Longrightarrow> scope_authorizes_memory a (me_scope m)" by blast+
qed

end
