(* ===== verification/LifecycleLaws.thy ===== *)
theory LifecycleLaws
  imports LifecycleInv
begin

text \<open>
  Consequences of the lifecycle invariant: the SQLite adapter is a repository in the
  sense of the lifecycle service (interpretation of \<open>lifecycle_repository\<close>), applied
  proposals replay, system time is a history that a mutation only continues (what is in
  force at each instant), sequences of service calls keep the invariant, visibility
  restrictions survive any chain of derivations, and no mutation rewrites content or
  touches memories outside the authorized scope except by marking versions stale.
\<close>

section \<open>The repository contract\<close>

lemma apply_fresh_record:
  assumes "apply_fresh L st p auth actor at' = Inr (st', a)"
  shows "am_operation a = apply_operation L p actor at' (am_memory a)"
  using assms by (auto simp: apply_fresh_def bind_result_Inr)

lemma load_applied_record:
  assumes "load_applied_proposal st i = Inr (Some a)"
  shows "op_phase (am_operation a) = PhaseApply" "op_proposal_id (am_operation a) = i"
    "am_operation a \<in> set (st_operations st)"
    "load_current_memory st (op_target_id (am_operation a)) = Inr (am_memory a, am_version a)"
  using assms
  by (auto simp: load_applied_proposal_def bind_result_Inr find_apply_def find_Some_iff split: option.splits)

lemma apply_with_failed: "apply_with L st p auth actor at' = (st', Inl e) \<Longrightarrow> st' = st"
  by (simp add: apply_with_def)

lemma apply_with_record:
  assumes "apply_with L st p auth actor at' = (st', Inr a)"
  shows "op_phase (am_operation a) = PhaseApply" "op_proposal_id (am_operation a) = pr_id p"
  using assms load_applied_record [of st "pr_id p" a] apply_fresh_record [of L st p auth actor at' st' a]
  by (auto simp: apply_with_Inr apply_operation_def)

interpretation sqlite_repository: lifecycle_repository "apply_proposal_authorized L" for L
proof (unfold_locales, goal_cases)
  case (1 st p sc t st' e)
  then show ?case by (auto simp: apply_proposal_authorized_def dest: apply_with_failed split: option.splits)
next
  case (2 st p sc t st' m)
  then have "apply_with L st p (Some sc) (sc_actor sc) t = (st', Inr m)"
    by (auto simp: apply_proposal_authorized_def split: option.splits)
  then show ?case using apply_with_record by blast
qed

section \<open>Replay\<close>

lemma find_append: "find P (xs @ ys) = (case find P xs of Some x \<Rightarrow> Some x | None \<Rightarrow> find P ys)"
  by (induction xs) simp_all

lemma apply_fresh_replays:
  assumes "store_ok st" and run: "apply_fresh L st p auth actor at' = Inr (st', a)"
  shows "load_applied_proposal st' (pr_id p) = Inr (Some a)"
    "\<And>s. auth = Some s \<Longrightarrow> scope_authorizes_memory s (me_scope (am_memory a))"
proof -
  obtain m v o' where a: "a = \<lparr>am_memory = m, am_version = v, am_operation = o'\<rparr>" by (cases a)
  from run obtain st1 where mut: "apply_mutation L st p auth at' = Inr (st1, m, v)"
    and ins: "insert_operation o' st1 = Inr st'" and o': "o' = apply_operation L p actor at' m"
    unfolding apply_fresh_def a by (auto simp: bind_result_Inr)
  have ok1: "store_ok st1" using apply_mutation_ok [OF assms(1) mut] .
  have ok': "store_ok st'" using insert_operation_ok [OF ok1 ins] .
  have phase: "op_phase o' = PhaseApply" "op_proposal_id o' = pr_id p" "op_target_id o' = me_id m"
    by (simp_all add: o' apply_operation_def)
  have st': "st' = st1\<lparr>st_operations := st_operations st1 @ [o']\<rparr>" and none: "find_apply st1 (pr_id p) = None"
    using ins phase by (simp_all add: insert_operation_Inr)
  note mm = mutation_memory [OF assms(1) mut]
  have "find_apply st' (pr_id p) = Some o'"
    using none phase by (simp add: find_apply_def st' find_append)
  moreover have "load_current_memory st' (me_id m) = Inr (m, v)"
  proof -
    have m: "m \<in> set (st_memories st')" and v: "v \<in> set (st_versions st')" using mm by (simp_all add: st')
    obtain u where u: "load_current_memory st' (me_id m) = Inr (m, u)"
      using load_current_memory_total [OF ok' m] by blast
    have "u = v"
      using keys_number_unique [of st' u v] ok' load_current_memoryD [OF u] v mm(3,4) by (simp add: store_ok_def)
    with u show ?thesis by simp
  qed
  ultimately show "load_applied_proposal st' (pr_id p) = Inr (Some a)"
    by (simp add: load_applied_proposal_def a phase)
  show "\<And>s. auth = Some s \<Longrightarrow> scope_authorizes_memory s (me_scope (am_memory a))"
    using mm(5) by (simp add: a)
qed

lemma apply_with_replays:
  assumes ok: "store_ok st" and first: "apply_with L st p auth actor t = (st', Inr a)"
    and again: "actor' \<noteq> ''''" "t' \<noteq> 0"
  shows "apply_with L st' p auth actor' t' = (st', Inr a)"
proof -
  from first have valid: "proposal_validate L p = None" by (simp add: apply_with_Inr)
  from first consider "load_applied_proposal st (pr_id p) = Inr (Some a)" "st' = st"
      "\<forall>s. auth = Some s \<longrightarrow> scope_authorizes_memory s (me_scope (am_memory a))"
    | "apply_fresh L st p auth actor t = Inr (st', a)"
    by (auto simp: apply_with_Inr)
  then have "load_applied_proposal st' (pr_id p) = Inr (Some a) \<and>
    (\<forall>s. auth = Some s \<longrightarrow> scope_authorizes_memory s (me_scope (am_memory a)))"
    by cases (use apply_fresh_replays [OF ok] in blast)+
  with valid again show ?thesis by (simp add: apply_with_Inr)
qed

section \<open>System time\<close>

definition time_contains :: "time_range \<Rightarrow> gtime \<Rightarrow> bool" where
  "time_contains r t \<longleftrightarrow> tr_from r \<le> t \<and> (case tr_to r of None \<Rightarrow> True | Some u \<Rightarrow> t < u)"

lemma chain_ordered:
  assumes "store_ok st" and "v \<in> set (st_versions st)" "w \<in> set (st_versions st)"
    and "mv_memory_id v = mv_memory_id w" and "mv_number v < mv_number w"
  shows "\<exists>t. tr_to (mv_system_time v) = Some t \<and> t \<le> tr_from (mv_system_time w)"
  using assms(2-5)
proof (induction "nat (mv_number w - mv_number v)" arbitrary: v)
  case 0
  then show ?case by simp
next
  case (Suc k)
  have keys: "keys_ok st" and chain: "chain_ok st" using assms(1) by (simp_all add: store_ok_def)
  obtain m where m: "m \<in> set (st_memories st)" "me_id m = mv_memory_id v" "mv_number v \<le> me_current_version m"
      "payload_validate (me_function m) (mv_payload v) = None" "mv_provenance v \<noteq> []"
      "mv_number v < me_current_version m \<longrightarrow>
         mv_state v = VersionSuperseded \<and> (\<exists>w \<in> set (st_versions st). succeeded_by v w)"
    by (rule chain_versionD [OF chain Suc.prems(1)])
  obtain n where n: "n \<in> set (st_memories st)" "me_id n = mv_memory_id w" "mv_number w \<le> me_current_version n"
    by (rule chain_versionD [OF chain Suc.prems(2)])
  have "n = m" using keys_memory_unique [OF keys n(1) m(1)] n(2) m(2) Suc.prems(3) by simp
  then have "mv_number v < me_current_version m" using n(3) Suc.prems(4) by simp
  with m(6) obtain x where x: "x \<in> set (st_versions st)" "succeeded_by v x" by blast
  show ?case
  proof (cases "mv_number x = mv_number w")
    case True
    then have "x = w" using keys_number_unique [OF keys x(1) Suc.prems(2)] x(2) Suc.prems(3)
      by (simp add: succeeded_by_def)
    then show ?thesis using x(2) by (simp add: succeeded_by_def)
  next
    case False
    then have "mv_number x < mv_number w" using x(2) Suc.prems(4) by (simp add: succeeded_by_def)
    moreover have "k = nat (mv_number w - mv_number x)" using Suc.hyps(2) x(2) by (simp add: succeeded_by_def)
    ultimately obtain t where "tr_to (mv_system_time x) = Some t" "t \<le> tr_from (mv_system_time w)"
      using Suc.hyps(1) [OF _ x(1) Suc.prems(2)] x(2) Suc.prems(3) by (auto simp: succeeded_by_def)
    moreover have "tr_from (mv_system_time x) < t"
      if "tr_to (mv_system_time x) = Some t" for t
    proof -
      obtain m' where m': "m' \<in> set (st_memories st)" "me_id m' = mv_memory_id x" "mv_number x \<le> me_current_version m'"
          "payload_validate (me_function m') (mv_payload x) = None" "mv_provenance x \<noteq> []"
          "mv_number x < me_current_version m' \<longrightarrow>
             mv_state x = VersionSuperseded \<and> (\<exists>w \<in> set (st_versions st). succeeded_by x w)"
        by (rule chain_versionD [OF chain x(1)])
      have "m' = m" using keys_memory_unique [OF keys m'(1) m(1)] m'(2) m(2) x(2) by (simp add: succeeded_by_def)
      then have "mv_number x < me_current_version m'" using \<open>mv_number x < mv_number w\<close> n(3) \<open>n = m\<close> by simp
      with m'(6) that show ?thesis by (auto simp: succeeded_by_def)
    qed
    ultimately show ?thesis using x(2) by (force simp: succeeded_by_def)
  qed
qed

theorem one_version_at_a_time:
  assumes "store_ok st" and "v \<in> set (st_versions st)" "w \<in> set (st_versions st)"
    and "mv_memory_id v = mv_memory_id w"
    and "time_contains (mv_system_time v) t" "time_contains (mv_system_time w) t"
  shows "v = w"
proof (cases "mv_number v" "mv_number w" rule: linorder_cases)
  case equal
  then show ?thesis using keys_number_unique [of st v w] assms by (simp add: store_ok_def)
next
  case less
  then show ?thesis using chain_ordered [OF assms(1-4)] assms(5,6) by (auto simp: time_contains_def)
next
  case greater
  then show ?thesis
    using chain_ordered [OF assms(1,3,2) assms(4) [symmetric]] assms(5,6) by (auto simp: time_contains_def)
qed

section \<open>Visibility along dependencies\<close>

lemma scope_flows_trans:
  "known_visibility (sc_visibility b) \<Longrightarrow> scope_flows a b \<Longrightarrow> scope_flows b c \<Longrightarrow> scope_flows a c"
  unfolding scope_flows_def known_visibility_def by (cases "sc_visibility b") auto

lemma version_scope_known:
  assumes "memories_ok st" and "version_scope st i = Some a"
  shows "known_visibility (sc_visibility a)"
  using assms
  by (auto simp: version_scope_def version_memory_def memories_ok_def memory_validate_None
      split: option.splits dest: find_row_SomeD)

lemma version_scope_defined:
  assumes "chain_ok st" and "i \<in> mv_id ` set (st_versions st)"
  shows "\<exists>a. version_scope st i = Some a"
proof -
  obtain v where v: "find_row mv_id i (st_versions st) = Some v"
    using assms(2) find_row_None [of mv_id i "st_versions st"] by blast
  then have "v \<in> set (st_versions st)" by (auto dest: find_row_SomeD)
  then obtain m where "m \<in> set (st_memories st)" "me_id m = mv_memory_id v"
    by (rule chain_versionD [OF assms(1)])
  then have "find_row me_id (mv_memory_id v) (st_memories st) \<noteq> None"
    unfolding find_row_None by (metis image_eqI)
  with v show ?thesis by (auto simp: version_scope_def version_memory_def)
qed

lemma descendants_flow:
  assumes "store_ok st" and "c \<in> set (descendants (st_dependencies st) p)"
    and a: "version_scope st p = Some a" and b: "version_scope st c = Some b"
  shows "scope_flows a b"
proof -
  have parts: "edges_ok st" "chain_ok st" "flow_ok st" "memories_ok st" using assms(1) by (simp_all add: store_ok_def)
  have "(p, c) \<in> (set (st_dependencies st))\<^sup>+" using assms(2) by (simp add: set_descendants)
  then show ?thesis using b
  proof (induction arbitrary: b rule: trancl_induct)
    case (base y)
    then show ?case using parts(3) a by (auto simp: flow_ok_def)
  next
    case (step y z)
    have "y \<in> mv_id ` set (st_versions st)" using step.hyps(2) parts(1) unfolding edges_ok_def by blast
    then obtain d where d: "version_scope st y = Some d" using version_scope_defined [OF parts(2)] by blast
    have "scope_flows a d" using step.IH d .
    moreover have "scope_flows d b" using parts(3) step.hyps(2) d step.prems by (auto simp: flow_ok_def)
    ultimately show ?case by (rule scope_flows_trans [OF version_scope_known [OF parts(4) d]])
  qed
qed

section \<open>What a mutation may touch\<close>

text \<open>
  \<open>touches st st' S\<close>: every old version row is still there with its content, only
  rows of memories in \<open>S\<close> changed beyond turning stale, and memory rows outside \<open>S\<close>
  are unchanged.
\<close>

definition same_content :: "memory_version \<Rightarrow> memory_version \<Rightarrow> bool" where
  "same_content v w \<longleftrightarrow> mv_id w = mv_id v \<and> mv_memory_id w = mv_memory_id v \<and> mv_number w = mv_number v \<and>
     mv_payload w = mv_payload v \<and> mv_provenance w = mv_provenance v \<and> mv_derived_from w = mv_derived_from v \<and>
     tr_from (mv_system_time w) = tr_from (mv_system_time v)"

definition turned_stale :: "memory_version \<Rightarrow> memory_version \<Rightarrow> bool" where
  "turned_stale v w \<longleftrightarrow> w = v \<or> mv_state v = VersionCurrent \<and> w = v\<lparr>mv_state := VersionStale\<rparr>"

definition touches :: "store \<Rightarrow> store \<Rightarrow> ident set \<Rightarrow> bool" where
  "touches st st' S \<longleftrightarrow>
     (\<forall>v \<in> set (st_versions st). \<exists>w \<in> set (st_versions st'). same_content v w \<and>
        (mv_memory_id v \<notin> S \<longrightarrow> turned_stale v w)) \<and>
     (\<forall>m \<in> set (st_memories st). \<exists>n \<in> set (st_memories st'). me_id n = me_id m \<and> me_scope n = me_scope m \<and>
        me_function n = me_function m \<and> me_created_at n = me_created_at m \<and> (me_id m \<notin> S \<longrightarrow> n = m))"

lemma touches_map:
  assumes keeps: "keeps_version g" and vs: "set (map g (st_versions st)) \<subseteq> set (st_versions st')"
    and stale: "\<And>v. v \<in> set (st_versions st) \<Longrightarrow> mv_memory_id v \<notin> S \<Longrightarrow> turned_stale v (g v)"
    and ms: "set (map f (st_memories st)) \<subseteq> set (st_memories st')"
    and f: "\<And>m. me_id (f m) = me_id m \<and> me_scope (f m) = me_scope m \<and> me_function (f m) = me_function m \<and>
        me_created_at (f m) = me_created_at m"
    and same: "\<And>m. m \<in> set (st_memories st) \<Longrightarrow> me_id m \<notin> S \<Longrightarrow> f m = m"
  shows "touches st st' S"
  unfolding touches_def
proof (intro conjI ballI)
  fix v assume v: "v \<in> set (st_versions st)"
  have "same_content v (g v)" using keeps by (simp add: same_content_def keeps_version_def)
  moreover have "g v \<in> set (st_versions st')" using v vs by auto
  ultimately show "\<exists>w\<in>set (st_versions st'). same_content v w \<and> (mv_memory_id v \<notin> S \<longrightarrow> turned_stale v w)"
    using stale [OF v] by blast
next
  fix m assume m: "m \<in> set (st_memories st)"
  then have "f m \<in> set (st_memories st')" using ms by auto
  then show "\<exists>n\<in>set (st_memories st'). me_id n = me_id m \<and> me_scope n = me_scope m \<and>
      me_function n = me_function m \<and> me_created_at n = me_created_at m \<and> (me_id m \<notin> S \<longrightarrow> n = m)"
    using f same [OF m] by blast
qed

lemma touches_cong:
  "st_versions st1 = st_versions st' \<Longrightarrow> st_memories st1 = st_memories st' \<Longrightarrow> touches st st1 S \<Longrightarrow> touches st st' S"
  by (simp add: touches_def)

lemma keeps_version_id: "keeps_version (\<lambda>v. v)"
  by (simp add: keeps_version_def)

lemma touches_mono: "touches st st' S \<Longrightarrow> S \<subseteq> T \<Longrightarrow> touches st st' T"
  unfolding touches_def by (meson subsetD)

lemma state_touches:
  assumes ok: "store_ok st" and run: "apply_state L st p auth ms vs remove = Inr (st', m, v)"
  shows "touches st st' {pr_target_id p}"
proof -
  from run obtain m0 v0 where load: "load_current_memory st (pr_target_id p) = Inr (m0, v0)"
    and vs: "st_versions st' = update_rows (\<lambda>v. mv_id v = mv_id v0) (\<lambda>v. v\<lparr>mv_state := vs\<rparr>) (st_versions st)"
    and ms: "st_memories st' = update_rows (\<lambda>m. me_id m = me_id m0) (\<lambda>m. m\<lparr>me_state := ms\<rparr>) (st_memories st)"
    unfolding apply_state_Inr by force
  note l = load_current_memoryD [OF load]
  have keys: "keys_ok st" using ok by (simp add: store_ok_def)
  show ?thesis
  proof (rule touches_map [where g = "\<lambda>v. if mv_id v = mv_id v0 then v\<lparr>mv_state := vs\<rparr> else v"
        and f = "\<lambda>m. if me_id m = me_id m0 then m\<lparr>me_state := ms\<rparr> else m"])
    fix v assume v: "v \<in> set (st_versions st)" "mv_memory_id v \<notin> {pr_target_id p}"
    then have "mv_id v \<noteq> mv_id v0" using keys_version_unique [OF keys v(1) l(3)] l by auto
    then show "turned_stale v (if mv_id v = mv_id v0 then v\<lparr>mv_state := vs\<rparr> else v)" by (simp add: turned_stale_def)
  qed (use l in \<open>auto simp: vs ms update_rows_def keeps_version_def\<close>)
qed

lemma create_touches:
  "apply_create L st p auth at' = Inr (st', m, v) \<Longrightarrow> touches st st' {}"
  by (rule touches_map [where g = "\<lambda>v. v" and f = "\<lambda>m. m"])
    (auto simp: apply_create_Inr keeps_version_id turned_stale_def)

lemma conflict_touches:
  assumes ok: "store_ok st" and load: "load_current_memory st i = Inr (m0, c)"
    and run: "apply_conflict L st p m0 c e at' = Inr (st', m, v)"
  shows "touches st st' {i}"
proof -
  note l = load_current_memoryD [OF load]
  have keys: "keys_ok st" using ok by (simp add: store_ok_def)
  let ?g = "\<lambda>v. if mv_id v = mv_id c then v\<lparr>mv_conflict_group := conflict_group_for L m0 c e\<rparr> else v"
  from run have st': "st' = add_memory m v (map_versions ?g st)"
    unfolding apply_conflict_Inr set_conflict_group_map by blast
  show ?thesis
  proof (rule touches_map [where g = ?g and f = "\<lambda>m. m"])
    fix v assume v: "v \<in> set (st_versions st)" "mv_memory_id v \<notin> {i}"
    then have "mv_id v \<noteq> mv_id c" using keys_version_unique [OF keys v(1) l(3)] l by auto
    then show "turned_stale v (?g v)" by (simp add: turned_stale_def)
  qed (use keeps_conflict_group [OF run] in \<open>auto simp: st'\<close>)
qed

lemma supersede_touches:
  assumes ok: "store_ok st" and load: "load_current_memory st i = Inr (m0, c)"
    and run: "supersede_current L st p m0 c e at' = Inr (st', m, v)"
  shows "touches st st' {i}"
proof -
  note l = load_current_memoryD [OF load]
  have keys: "keys_ok st" using ok by (simp add: store_ok_def)
  let ?g = "supersede_row (mv_id c) at' (tr_from (ev_valid_time e)) (set (descendants (st_dependencies st) (mv_id c)))"
  from run have st': "st' = advance_memory (me_id m0) (mv_number v) (add_version m0 v (map_versions ?g st))"
    unfolding supersede_current_Inr Let_def by blast
  show ?thesis
  proof (rule touches_map [where g = ?g and f = "\<lambda>m. if me_id m = me_id m0
        then m\<lparr>me_current_version := mv_number v, me_state := MemoryActive\<rparr> else m"])
    fix v assume v: "v \<in> set (st_versions st)" "mv_memory_id v \<notin> {i}"
    then have "mv_id v \<noteq> mv_id c" using keys_version_unique [OF keys v(1) l(3)] l by auto
    then show "turned_stale v (?g v)" by (simp add: turned_stale_def supersede_row_def)
  qed (use l in \<open>auto simp: st' keeps_supersede_row update_rows_def\<close>)
qed

lemma mutation_touches:
  assumes ok: "store_ok st" and run: "apply_mutation L st p auth at' = Inr (st', m, v)"
  shows "touches st st' {pr_target_id p}"
  using run
proof (cases rule: apply_mutation_cases)
  case create
  then show ?thesis using create_touches touches_mono by blast
next
  case evolve
  then obtain m0 c e where "load_current_memory st (pr_target_id p) = Inr (m0, c)"
      "if ev_mode e = EvolutionConflict then apply_conflict L st p m0 c e at' = Inr (st', m, v)
       else supersede_current L st p m0 c e at' = Inr (st', m, v)"
    unfolding apply_evolution_Inr evolution_accepted_def by blast
  then show ?thesis using conflict_touches [OF ok] supersede_touches [OF ok] by (auto split: if_splits)
next
  case (state ms vs remove)
  then show ?thesis using state_touches [OF ok] by blast
qed

text \<open>Under an authorized scope the target is one of its own memories.\<close>

definition authorized_ids :: "scope \<Rightarrow> store \<Rightarrow> ident set" where
  "authorized_ids s st =
     {i. \<forall>n \<in> set (st_memories st). me_id n = i \<longrightarrow> scope_authorizes_memory s (me_scope n)}"

lemma load_authorized:
  assumes "store_ok st" and load: "load_current_memory st i = Inr (m, c)"
    and "scope_authorizes_memory s (me_scope m)"
  shows "{i} \<subseteq> authorized_ids s st"
proof -
  have "n = m" if "n \<in> set (st_memories st)" "me_id n = i" for n
    using keys_memory_unique [of st n m] load_current_memoryD(1,2) [OF load] that assms(1)
    by (simp add: store_ok_def)
  then show ?thesis using assms(3) unfolding authorized_ids_def by blast
qed

lemma mutation_touches_authorized:
  assumes ok: "store_ok st" and run: "apply_mutation L st p (Some s) at' = Inr (st', m, v)"
  shows "touches st st' (authorized_ids s st)"
  using run
proof (cases rule: apply_mutation_cases)
  case create
  then show ?thesis using create_touches touches_mono by blast
next
  case evolve
  then obtain m0 c e where load: "load_current_memory st (pr_target_id p) = Inr (m0, c)"
    and auth: "scope_authorizes_memory s (me_scope m0)"
    unfolding apply_evolution_Inr evolution_accepted_def by blast
  show ?thesis
    using mutation_touches [OF ok run] load_authorized [OF ok load auth] by (rule touches_mono)
next
  case (state ms vs remove)
  then obtain m0 c where load: "load_current_memory st (pr_target_id p) = Inr (m0, c)"
    and auth: "scope_authorizes_memory s (me_scope m0)"
    unfolding apply_state_Inr by blast
  show ?thesis
    using mutation_touches [OF ok run] load_authorized [OF ok load auth] by (rule touches_mono)
qed

lemma touches_refl: "touches st st S"
  by (rule touches_map [where g = "\<lambda>v. v" and f = "\<lambda>m. m"]) (auto simp: keeps_version_id turned_stale_def)

lemma apply_with_touches:
  assumes ok: "store_ok st" and run: "apply_with L st p (Some s) actor at' = (st', Inr a)"
  shows "touches st st' (authorized_ids s st)"
proof -
  from run consider "st' = st" | "apply_fresh L st p (Some s) actor at' = Inr (st', a)"
    by (auto simp: apply_with_Inr)
  then show ?thesis
  proof cases
    case 1
    then show ?thesis by (simp add: touches_refl)
  next
    case 2
    then obtain st1 m v o' where mut: "apply_mutation L st p (Some s) at' = Inr (st1, m, v)"
      and ins: "insert_operation o' st1 = Inr st'"
      unfolding apply_fresh_def by (auto simp: bind_result_Inr)
    show ?thesis
      by (rule touches_cong [OF _ _ mutation_touches_authorized [OF ok mut]]) (use ins in \<open>auto simp: insert_operation_Inr\<close>)
  qed
qed

section \<open>Effects of supersede and forget\<close>

text \<open>
  After a supersede, nothing derived from the replaced version, at any distance, is
  current any more, and the replaced version ends exactly where the new one starts.
\<close>

lemma supersede_effect:
  assumes ok: "store_ok st" and load: "load_current_memory st i = Inr (m0, c)" and "me_state m0 = MemoryActive"
    and run: "supersede_current L st p m0 c e at' = Inr (st', m, v)"
  shows "\<exists>w \<in> set (st_versions st'). mv_id w = mv_id c \<and> mv_state w = VersionSuperseded \<and>
      tr_to (mv_system_time w) = Some at' \<and> tr_from (mv_system_time v) = at' \<and> mv_supersedes v = [mv_id c]"
    and "w \<in> set (st_versions st') \<Longrightarrow> mv_id w \<in> set (descendants (st_dependencies st) (mv_id c)) \<Longrightarrow>
      mv_state w \<noteq> VersionCurrent"
proof -
  note l = load_current_memoryD [OF load]
  let ?D = "set (descendants (st_dependencies st) (mv_id c))"
  let ?g = "supersede_row (mv_id c) at' (tr_from (ev_valid_time e)) ?D"
  from run have st': "st' = advance_memory (me_id m0) (mv_number v) (add_version m0 v (map_versions ?g st))"
    and v: "v = evolved_version L p m0 c e at'" and fits: "version_fits v (map_versions ?g st)"
    unfolding supersede_current_Inr Let_def by blast+
  have "mv_state c \<in> {VersionCurrent, VersionStale}"
    using load_current_memory_open [OF ok load] assms(3) by (simp add: open_version_def)
  then have gc: "?g c = close_version at' (tr_from (ev_valid_time e)) c" by (rule supersede_row_target)
  have "?g c \<in> set (st_versions st')" using l(3) by (simp add: st')
  then show "\<exists>w \<in> set (st_versions st'). mv_id w = mv_id c \<and> mv_state w = VersionSuperseded \<and>
      tr_to (mv_system_time w) = Some at' \<and> tr_from (mv_system_time v) = at' \<and> mv_supersedes v = [mv_id c]"
    by (intro bexI [of _ "?g c"]) (simp_all add: gc close_version_def v evolved_version_def)
  assume w: "w \<in> set (st_versions st')" "mv_id w \<in> ?D"
  show "mv_state w \<noteq> VersionCurrent"
  proof (cases "w = v")
    case True
    have "mv_id v \<in> mv_id ` set (st_versions st)"
    proof -
      from w(2) True have "(mv_id c, mv_id v) \<in> (set (st_dependencies st))\<^sup>+" by (simp add: set_descendants)
      then obtain y where "(y, mv_id v) \<in> set (st_dependencies st)" by (auto elim: tranclE)
      then show ?thesis using ok unfolding store_ok_def edges_ok_def by blast
    qed
    then show ?thesis using fits keeps_supersede_row by (simp add: version_fits_def)
  next
    case False
    then obtain u where u: "u \<in> set (st_versions st)" "w = ?g u" using w(1) by (auto simp: st')
    then have "mv_id u \<in> ?D" using w(2) by (simp add: keeps_versionD [OF keeps_supersede_row])
    then show ?thesis by (simp add: u(2) supersede_row_def close_version_def)
  qed
qed

lemma forget_effect:
  assumes run: "apply_state L st p auth MemoryForgotten VersionForgotten True = Inr (st', m, v)"
  shows "r \<in> set (st_fts st') \<Longrightarrow> fx_memory r \<noteq> pr_target_id p"
    and "e \<in> set (st_embeddings st') \<Longrightarrow> u \<in> set (st_versions st') \<Longrightarrow> mv_id u = eb_version e \<Longrightarrow>
      mv_memory_id u \<noteq> pr_target_id p"
proof -
  from run obtain m0 v0 where load: "load_current_memory st (pr_target_id p) = Inr (m0, v0)"
    and st': "st' = remove_indexes (me_id m0) (change_state (me_id m0) MemoryForgotten (mv_id v0) VersionForgotten st)"
    unfolding apply_state_Inr by auto
  have i: "me_id m0 = pr_target_id p" using load_current_memoryD(2) [OF load] .
  show "r \<in> set (st_fts st') \<Longrightarrow> fx_memory r \<noteq> pr_target_id p"
    using remove_indexes_empty(1) by (simp add: st' i)
  show "e \<in> set (st_embeddings st') \<Longrightarrow> u \<in> set (st_versions st') \<Longrightarrow> mv_id u = eb_version e \<Longrightarrow>
      mv_memory_id u \<noteq> pr_target_id p"
    using remove_indexes_empty(2) unfolding st' i remove_indexes_sel by blast
qed

section \<open>What is in force\<close>

text \<open>The versions of a memory that an instant of system time shows.\<close>

definition in_force :: "store \<Rightarrow> ident \<Rightarrow> gtime \<Rightarrow> ident set" where
  "in_force st i s = mv_id ` set (filter (\<lambda>v. mv_memory_id v = i \<and> time_contains (mv_system_time v) s) (st_versions st))"

lemma in_force_cong: "st_versions st' = st_versions st \<Longrightarrow> in_force st' i s = in_force st i s"
  by (simp add: in_force_def)

lemma in_force_map:
  assumes "keeps_version g"
    and "\<And>v. v \<in> set (st_versions st) \<Longrightarrow> mv_memory_id v = i \<Longrightarrow>
      time_contains (mv_system_time (g v)) s = time_contains (mv_system_time v) s"
  shows "in_force (map_versions g st) i s = in_force st i s"
proof -
  have "filter ((\<lambda>v. mv_memory_id v = i \<and> time_contains (mv_system_time v) s) \<circ> g) (st_versions st) =
      filter (\<lambda>v. mv_memory_id v = i \<and> time_contains (mv_system_time v) s) (st_versions st)"
    by (rule filter_cong) (auto simp: keeps_versionD [OF assms(1)] assms(2))
  then show ?thesis
    by (simp only: in_force_def map_versions_sel filter_map set_map image_image keeps_versionD [OF assms(1)])
qed

lemma in_force_add:
  assumes "mv_system_time v = \<lparr>tr_from = t, tr_to = None\<rparr>"
  shows "in_force (add_version m v st) i s =
    (if mv_memory_id v = i \<and> t \<le> s then insert (mv_id v) (in_force st i s) else in_force st i s)"
  using assms by (auto simp: in_force_def add_version_def index_version_def time_contains_def)

lemma in_force_new:
  assumes "chain_ok st" and "i \<notin> me_id ` set (st_memories st)"
  shows "in_force st i s = {}"
proof -
  have "mv_memory_id v \<noteq> i" if v: "v \<in> set (st_versions st)" for v
    by (rule chain_versionD [OF assms(1) v]) (use assms(2) in \<open>metis imageI\<close>)
  then show ?thesis by (simp add: in_force_def)
qed

lemma only_current_in_force:
  assumes ok: "store_ok st" and load: "load_current_memory st i = Inr (m, c)" and "tr_from (mv_system_time c) \<le> s"
    and "v \<in> set (st_versions st)" "mv_memory_id v = i" "time_contains (mv_system_time v) s"
  shows "v = c"
proof -
  note l = load_current_memoryD [OF load]
  have "time_contains (mv_system_time c) s"
    using load_current_memory_open [OF ok load] assms(3) by (simp add: open_version_def time_contains_def)
  then show ?thesis using one_version_at_a_time [OF ok assms(4) l(3)] l assms(5,6) by simp
qed

text \<open>What a mutation at \<open>t\<close> makes of it.\<close>

definition shows_from :: "gtime \<Rightarrow> ident \<Rightarrow> ident \<Rightarrow> store \<Rightarrow> store \<Rightarrow> bool" where
  "shows_from t i n st st' \<longleftrightarrow>
     (\<forall>j s. in_force st' j s = (if j = i \<and> t \<le> s then {n} else in_force st j s))"

lemma new_memory_shows:
  assumes "chain_ok st" and "memory_fits m v (map_versions g st)" and "mv_system_time v = \<lparr>tr_from = t, tr_to = None\<rparr>"
    and "keeps_version g" "\<And>u. mv_system_time (g u) = mv_system_time u"
  shows "shows_from t (me_id m) (mv_id v) st (add_memory m v (map_versions g st))"
proof -
  have new: "mv_memory_id v = me_id m" "me_id m \<notin> me_id ` set (st_memories st)"
    using assms(2) by (simp_all add: memory_fits_def)
  have "in_force ((map_versions g st)\<lparr>st_memories := ms\<rparr>) j s = in_force st j s" for ms j s
    using in_force_map [OF assms(4), of st j s] assms(5) by (simp add: in_force_def)
  then show ?thesis
    using new in_force_new [OF assms(1)] unfolding shows_from_def add_memory_def in_force_add [OF assms(3)] by auto
qed

lemma supersede_shows:
  assumes ok: "store_ok st" and load: "load_current_memory st i = Inr (m0, c)" and active: "me_state m0 = MemoryActive"
    and run: "supersede_current L st p m0 c e t = Inr (st', m, v)"
  shows "shows_from t i (mv_id v) st st'"
proof -
  note l = load_current_memoryD [OF load]
  let ?g = "supersede_row (mv_id c) t (tr_from (ev_valid_time e)) (set (descendants (st_dependencies st) (mv_id c)))"
  from run have st': "st' = advance_memory (me_id m0) (mv_number v) (add_version m0 v (map_versions ?g st))"
    and v: "v = evolved_version L p m0 c e t" and later: "tr_from (mv_system_time c) < t"
    unfolding supersede_current_Inr Let_def by blast+
  have vv: "mv_system_time v = \<lparr>tr_from = t, tr_to = None\<rparr>" "mv_memory_id v = i"
    using l by (simp_all add: v evolved_version_def)
  have keys: "keys_ok st" using ok by (simp add: store_ok_def)
  have gc: "?g c = close_version t (tr_from (ev_valid_time e)) c"
    using load_current_memory_open [OF ok load] active by (intro supersede_row_target) (simp add: open_version_def)
  have other: "mv_system_time (?g u) = mv_system_time u" if "u \<in> set (st_versions st)" "u \<noteq> c" for u
    using keys_version_unique [OF keys that(1) l(3)] that(2) by (auto simp: supersede_row_def)
  have closed: "time_contains (mv_system_time (?g c)) s \<longleftrightarrow> time_contains (mv_system_time c) s \<and> s < t" for s
    using load_current_memory_open [OF ok load] by (auto simp: gc close_version_def time_contains_def open_version_def)
  have before: "in_force (map_versions ?g st) j s = in_force st j s" if "j \<noteq> i \<or> s < t" for j s
  proof (rule in_force_map [OF keeps_supersede_row])
    fix u assume "u \<in> set (st_versions st)" "mv_memory_id u = j"
    then show "time_contains (mv_system_time (?g u)) s = time_contains (mv_system_time u) s"
      using that other [of u] closed [of s] l by (cases "u = c") auto
  qed
  have after: "in_force (map_versions ?g st) i s = {}" if "t \<le> s" for s
  proof -
    have "tr_from (mv_system_time c) \<le> s" using later that by simp
    note only = only_current_in_force [OF ok load this]
    have "\<not> time_contains (mv_system_time (?g u)) s" if u: "u \<in> set (st_versions st)" "mv_memory_id u = i" for u
    proof (cases "u = c")
      case False
      then have "\<not> time_contains (mv_system_time u) s" using only [OF u] by blast
      then show ?thesis unfolding other [OF u(1) False] .
    qed (use closed [of s] \<open>t \<le> s\<close> in simp)
    then have "filter (\<lambda>v. mv_memory_id v = i \<and> time_contains (mv_system_time v) s) (map ?g (st_versions st)) = []"
      by (auto simp: filter_empty_conv keeps_versionD [OF keeps_supersede_row])
    then show ?thesis by (simp only: in_force_def map_versions_sel list.set image_empty)
  qed
  have "in_force st' j s = in_force (add_version m0 v (map_versions ?g st)) j s" for j s
    by (simp add: st' in_force_def advance_memory_def)
  then show ?thesis using before after unfolding shows_from_def in_force_add [OF vv(1)] vv(2) by auto
qed

lemma mutation_shows:
  assumes ok: "store_ok st" and run: "apply_mutation L st p auth t = Inr (st', m, v)"
  shows "if pr_kind p \<in> {ProposalArchive, ProposalForget} then \<forall>i s. in_force st' i s = in_force st i s
    else shows_from t (me_id m) (mv_id v) st st'"
proof -
  have chain: "chain_ok st" using ok by (simp add: store_ok_def)
  have state: "in_force st' i s = in_force st i s" if "apply_state L st p auth ms vs remove = Inr (st', m, v)" for i s ms vs remove
  proof -
    from that obtain k j where "st_versions st' = st_versions (map_versions (\<lambda>v. if mv_id v = k then v\<lparr>mv_state := j\<rparr> else v) st)"
      unfolding apply_state_Inr by (force simp: update_rows_def)
    then have "in_force st' i s = in_force (map_versions (\<lambda>v. if mv_id v = k then v\<lparr>mv_state := j\<rparr> else v) st) i s"
      by (rule in_force_cong)
    also have "\<dots> = in_force st i s" by (rule in_force_map) (auto simp: keeps_version_def version_named_def)
    finally show ?thesis .
  qed
  have evolve: "shows_from t (me_id m) (mv_id v) st st'" if evolved: "apply_evolution L st p auth t = Inr (st', m, v)"
  proof -
    from evolved obtain m0 c e where load: "load_current_memory st (pr_target_id p) = Inr (m0, c)" and active: "me_state m0 = MemoryActive"
      and e: "if ev_mode e = EvolutionConflict then apply_conflict L st p m0 c e t = Inr (st', m, v)
        else supersede_current L st p m0 c e t = Inr (st', m, v)"
      unfolding apply_evolution_Inr evolution_accepted_def by blast
    show ?thesis
    proof (cases "ev_mode e = EvolutionConflict")
      case True
      then have conflict: "apply_conflict L st p m0 c e t = Inr (st', m, v)" using e by simp
      then have fits: "memory_fits m v (map_versions (\<lambda>u. if mv_id u = mv_id c then u\<lparr>mv_conflict_group := conflict_group_for L m0 c e\<rparr> else u) st)"
        and st': "st' = add_memory m v (map_versions (\<lambda>u. if mv_id u = mv_id c then u\<lparr>mv_conflict_group := conflict_group_for L m0 c e\<rparr> else u) st)"
        and v: "v = conflict_version L p m0 c e t"
        unfolding apply_conflict_Inr set_conflict_group_map by blast+
      show ?thesis unfolding st'
        by (rule new_memory_shows [OF chain fits _ keeps_conflict_group [OF conflict]]) (simp_all add: v conflict_version_def)
    next
      case False
      then have run: "supersede_current L st p m0 c e t = Inr (st', m, v)" using e by simp
      then have "me_id m = pr_target_id p" using load_current_memoryD(2) [OF load] by (simp add: supersede_current_Inr Let_def)
      then show ?thesis using supersede_shows [OF ok load active run] by simp
    qed
  qed
  have create: "shows_from t (me_id m) (mv_id v) st st'" if "apply_create L st p auth t = Inr (st', m, v)"
  proof -
    have "map_versions (\<lambda>u. u) st = st" by (simp add: map_versions_def)
    then show ?thesis
      using that new_memory_shows [OF chain, of m v "\<lambda>u. u" t] by (auto simp: apply_create_Inr keeps_version_id create_version_def)
  qed
  show ?thesis using run state evolve create by (cases "pr_kind p") (auto simp: apply_mutation_def)
qed

section \<open>The service over the adapter\<close>

lemma apply_authorized_ok: "store_ok st \<Longrightarrow> store_ok (fst (apply_proposal_authorized L st p sc t))"
  using apply_with_ok by (auto simp: apply_proposal_authorized_def split: option.splits)

lemma service_state:
  "fst (service_apply L policy repo st sc p t) = st \<or>
   fst (service_apply L policy repo st sc p t) = fst (repo st p sc t)"
  by (auto simp: service_apply_def split: option.splits sum.splits prod.splits)

lemma service_ok:
  assumes "store_ok st"
  shows "store_ok (fst (service_apply L policy (apply_proposal_authorized L) st sc p t))"
  using service_state [of L policy "apply_proposal_authorized L" st sc p t]
    apply_authorized_ok [OF assms, of L p sc t] assms by metis

text \<open>Any sequence of calls of the service.\<close>

definition service_calls :: "lib \<Rightarrow> (scope \<Rightarrow> proposal \<Rightarrow> policy_decision result) \<Rightarrow> (scope \<times> proposal \<times> gtime) list \<Rightarrow> store \<Rightarrow> store" where
  "service_calls L policy calls st =
     fold (\<lambda>(sc, p, t) st. fst (service_apply L policy (apply_proposal_authorized L) st sc p t)) calls st"

lemma service_calls_ok: "store_ok st \<Longrightarrow> store_ok (service_calls L policy calls st)"
  by (induction calls arbitrary: st) (auto simp: service_calls_def service_ok)

end
