(* ===== verification/Jobs.thy ===== *)
theory Jobs
  imports LifecycleLaws
begin

text \<open>
  The durable job queue: \<open>internal/application/jobs.go\<close>, \<open>sqlite/jobs.go\<close>,
  \<open>sqlite/agent_events.go\<close> and the observation read of \<open>sqlite/read.go\<close>. A job moves
  through queued, running and the terminal states under a lease; workers share the
  table and each call carries the instant its worker reads from its clock. Durations
  are nanoseconds.
\<close>

section \<open>Capturing an observation with its job\<close>

definition job_validate_enqueue :: "lib \<Rightarrow> job \<Rightarrow> check" where
  "job_validate_enqueue L j = err_if
     (jb_id j = '''' \<or> jb_namespace j = '''' \<or> jb_kind j = '''' \<or> jb_idempotency_key j = '''' \<or>
      \<not> lb_json_valid L (jb_payload j))
     ''job id, namespace, kind, idempotency key, and JSON payload are required''"

definition job_key :: "job \<Rightarrow> ident \<times> string \<times> string" where
  "job_key j = (jb_namespace j, jb_kind j, jb_idempotency_key j)"

text \<open>The row an enqueue inserts: queued, never attempted, without lease or result.\<close>

definition queued_job :: "job \<Rightarrow> gtime \<Rightarrow> job" where
  "queued_job j now =
     \<lparr>jb_id = jb_id j, jb_namespace = jb_namespace j, jb_kind = jb_kind j, jb_state = JobQueued,
      jb_idempotency_key = jb_idempotency_key j, jb_payload = jb_payload j, jb_result = None,
      jb_error_code = '''', jb_error_message = '''', jb_attempts = 0, jb_lease_owner = '''',
      jb_lease_expires_at = None,
      jb_available_at = (if is_zero_time (jb_available_at j) then now else jb_available_at j),
      jb_created_at = now, jb_updated_at = now\<rparr>"

definition insert_receipt :: "event_receipt \<Rightarrow> ident \<Rightarrow> ident \<Rightarrow> store \<Rightarrow> store result" where
  "insert_receipt r ob j st =
     bind_result
      (wrap_result ''insert AgentEvent receipt''
        (insert_row ''agent_event_receipts''
          ((rr_source r, rr_event_id r) \<in>
             (\<lambda>w. (rr_source (rw_receipt w), rr_event_id (rw_receipt w))) ` set (st_receipts st) \<or>
           ob \<notin> (ob_id \<circ> fst) ` set (st_observations st) \<or> j \<notin> jb_id ` set (st_jobs st))
          \<lparr>rw_receipt = r, rw_observation_id = ob, rw_job_id = j\<rparr> (st_receipts st)))
      (\<lambda>rows. Inr (st\<lparr>st_receipts := rows\<rparr>))"

text \<open>
  \<open>INSERT ... ON CONFLICT(namespace_id, kind, idempotency_key) DO NOTHING RETURNING id\<close>:
  SQLite tests the conflict target first, and a duplicate primary key of another job
  is an error. The instant \<open>now\<close> is the adapter's \<open>time.Now\<close>.
\<close>

definition enqueue_rows :: "lib \<Rightarrow> observation \<Rightarrow> job \<Rightarrow> event_receipt option \<Rightarrow> gtime \<Rightarrow> store \<Rightarrow> store result" where
  "enqueue_rows L ob j receipt now st =
     bind_result
      (wrap_result ''insert durable job''
        (insert_row ''durable_jobs.id'' (jb_id j \<in> jb_id ` set (st_jobs st)) (queued_job j now) (st_jobs st)))
      (\<lambda>rows. bind_result (insert_observation ob now (st\<lparr>st_jobs := rows\<rparr>)) (\<lambda>st.
        case receipt of None \<Rightarrow> Inr st | Some r \<Rightarrow> insert_receipt r (ob_id ob) (jb_id j) st))"

definition get_job :: "store \<Rightarrow> ident \<Rightarrow> job result" where
  "get_job st i = (case find_row jb_id i (st_jobs st) of None \<Rightarrow> Inl ErrJobNotFound | Some j \<Rightarrow> Inr j)"

definition enqueue_observation ::
  "lib \<Rightarrow> observation \<Rightarrow> job \<Rightarrow> event_receipt option \<Rightarrow> gtime \<Rightarrow> store \<Rightarrow> store \<times> (job \<times> bool) result" where
  "enqueue_observation L ob j receipt now st =
     (case first_error
        [wrap_check ''validate observation'' (observation_validate ob),
         wrap_check ''validate job'' (job_validate_enqueue L j),
         err_if (jb_namespace j \<noteq> sc_namespace (ob_scope ob)) ''observation and job namespaces differ''] of
       Some e \<Rightarrow> (st, Inl e)
     | None \<Rightarrow>
         (case find_row job_key (job_key j) (st_jobs st) of
            Some existing \<Rightarrow> (st, Inr (existing, False))
          | None \<Rightarrow>
              transaction st (bind_result (enqueue_rows L ob j receipt now st) (\<lambda>st'.
                bind_result (get_job st' (jb_id j)) (\<lambda>created. Inr (st', created, True))))))"

definition enqueue_agent_event ::
  "lib \<Rightarrow> event_receipt \<Rightarrow> observation \<Rightarrow> job \<Rightarrow> gtime \<Rightarrow> store \<Rightarrow> store \<times> (job \<times> bool) result" where
  "enqueue_agent_event L r ob j now st =
     (if rr_event_id r = '''' \<or> rr_schema_version r = '''' \<or> rr_source r = '''' \<or> is_zero_time (rr_received_at r)
      then (st, Inl (Errorf ''AgentEvent receipt requires event id, schema, source, and receive time''))
      else enqueue_observation L ob j (Some r) now st)"

section \<open>Claim, complete, fail\<close>

definition claimable :: "gtime \<Rightarrow> job \<Rightarrow> bool" where
  "claimable now j \<longleftrightarrow>
     jb_state j = JobQueued \<and> text_le (jb_available_at j) now \<or>
     jb_state j = JobRunning \<and> (case jb_lease_expires_at j of None \<Rightarrow> False | Some t \<Rightarrow> text_le t now)"

text \<open>\<open>ORDER BY available_at, created_at, id\<close>, compared as text.\<close>

definition claim_order :: "job \<Rightarrow> string list" where
  "claim_order j = [format_time (jb_available_at j), format_time (jb_created_at j), jb_id j]"

definition next_job :: "gtime \<Rightarrow> store \<Rightarrow> job option" where
  "next_job now st =
     (case sort_key claim_order (filter (claimable now) (st_jobs st)) of [] \<Rightarrow> None | j # _ \<Rightarrow> Some j)"

definition leased :: "string \<Rightarrow> gtime \<Rightarrow> int \<Rightarrow> job \<Rightarrow> job" where
  "leased worker now lease j = j\<lparr>jb_state := JobRunning, jb_attempts := jb_attempts j + 1,
     jb_lease_owner := worker, jb_lease_expires_at := Some (now + lease), jb_updated_at := now\<rparr>"

definition claim :: "string \<Rightarrow> gtime \<Rightarrow> int \<Rightarrow> store \<Rightarrow> store \<times> job result" where
  "claim worker now lease st =
     (if worker = '''' \<or> is_zero_time now \<or> lease \<le> 0
      then (st, Inl (Errorf ''worker, current time, and positive lease are required''))
      else case next_job now st of
        None \<Rightarrow> (st, Inl ErrNoJob)
      | Some j \<Rightarrow> (st\<lparr>st_jobs := update_rows (\<lambda>r. jb_id r = jb_id j) (leased worker now lease) (st_jobs st)\<rparr>,
                   Inr (leased worker now lease j)))"

text \<open>\<open>WHERE id = ? AND state = 'running' AND lease_owner = ? AND lease_expires_at > ?\<close>\<close>

definition holds_lease :: "ident \<Rightarrow> string \<Rightarrow> gtime \<Rightarrow> job \<Rightarrow> bool" where
  "holds_lease i worker now j \<longleftrightarrow> jb_id j = i \<and> jb_state j = JobRunning \<and> jb_lease_owner j = worker \<and>
     (case jb_lease_expires_at j of None \<Rightarrow> False | Some t \<Rightarrow> text_less now t)"

definition require_lease :: "nat \<Rightarrow> unit result" where
  "require_lease n = (if n \<noteq> 1 then Inl ErrLeaseLost else Inr ())"

definition completed :: "string \<Rightarrow> gtime \<Rightarrow> job \<Rightarrow> job" where
  "completed result now j = j\<lparr>jb_state := JobSucceeded, jb_result := Some result, jb_error_code := '''',
     jb_error_message := '''', jb_lease_owner := '''', jb_lease_expires_at := None, jb_updated_at := now\<rparr>"

definition complete_job :: "lib \<Rightarrow> ident \<Rightarrow> string \<Rightarrow> string \<Rightarrow> gtime \<Rightarrow> store \<Rightarrow> store \<times> unit result" where
  "complete_job L i worker result now st =
     (if i = '''' \<or> worker = '''' \<or> is_zero_time now \<or> \<not> lb_json_valid L result
      then (st, Inl (Errorf ''job id, worker, current time, and JSON result are required''))
      else (st\<lparr>st_jobs := update_rows (holds_lease i worker now) (completed result now) (st_jobs st)\<rparr>,
            require_lease (length (filter (holds_lease i worker now) (st_jobs st)))))"

definition failed_job :: "string \<Rightarrow> string \<Rightarrow> gtime \<Rightarrow> int \<Rightarrow> int \<Rightarrow> job \<Rightarrow> job" where
  "failed_job code message now backoff max_attempts j =
     j\<lparr>jb_state := (if jb_attempts j \<ge> max_attempts then JobFailed else JobQueued),
       jb_error_code := code, jb_error_message := message, jb_available_at := now + backoff,
       jb_lease_owner := '''', jb_lease_expires_at := None, jb_updated_at := now\<rparr>"

definition fail_job ::
  "ident \<Rightarrow> string \<Rightarrow> string \<Rightarrow> string \<Rightarrow> gtime \<Rightarrow> int \<Rightarrow> int \<Rightarrow> store \<Rightarrow> store \<times> unit result" where
  "fail_job i worker code message now backoff max_attempts st =
     (if i = '''' \<or> worker = '''' \<or> code = '''' \<or> is_zero_time now \<or> backoff < 0 \<or> max_attempts < 1
      then (st, Inl (Errorf ''job id, worker, error code, current time, backoff, and max attempts are required''))
      else (st\<lparr>st_jobs := update_rows (holds_lease i worker now)
                 (failed_job code message now backoff max_attempts) (st_jobs st)\<rparr>,
            require_lease (length (filter (holds_lease i worker now) (st_jobs st)))))"

text \<open>
  \<open>Wait\<close> reads the job again and again; the databases it sees are a parameter, and
  running out of them is the cancelled context.
\<close>

definition terminal :: "job \<Rightarrow> bool" where
  "terminal j \<longleftrightarrow> jb_state j \<in> {JobSucceeded, JobFailed, JobCanceled}"

fun wait_job :: "ident \<Rightarrow> store list \<Rightarrow> job result" where
  "wait_job i [] = Inl (Errorf ''context canceled'')"
| "wait_job i (st # sts) =
     (case get_job st i of Inl e \<Rightarrow> Inl e | Inr j \<Rightarrow> if terminal j then Inr j else wait_job i sts)"

section \<open>Reading observations\<close>

definition get_observation :: "store \<Rightarrow> ident \<Rightarrow> observation result" where
  "get_observation st i =
     (case find_row (ob_id \<circ> fst) i (st_observations st) of
        None \<Rightarrow> Inl ErrNotFound
      | Some (ob, _) \<Rightarrow> guard_check (wrap_check ''validate stored observation'' (observation_validate ob)) (Inr ob))"

definition get_memory :: "store \<Rightarrow> ident \<Rightarrow> (memory \<times> memory_version) result" where
  "get_memory st i =
     (case load_current_memory st i of
        Inl e \<Rightarrow> (if errors_is e ErrNoRows then Inl ErrNotFound else Inl e)
      | Inr r \<Rightarrow> Inr r)"

section \<open>The queue as a transition system\<close>

text \<open>One call of any worker, with the arguments it passes.\<close>

inductive queue_step :: "lib \<Rightarrow> store \<Rightarrow> store \<Rightarrow> bool" for L where
  enqueue: "queue_step L st (fst (enqueue_observation L ob j receipt now st))"
| claimed: "queue_step L st (fst (claim worker now lease st))"
| completed: "queue_step L st (fst (complete_job L i worker result now st))"
| failed: "queue_step L st (fst (fail_job i worker code message now backoff limit st))"

definition job_ok :: "job \<Rightarrow> bool" where
  "job_ok j \<longleftrightarrow> 0 \<le> jb_attempts j \<and>
     (jb_state j = JobRunning \<longleftrightarrow> jb_lease_owner j \<noteq> '''') \<and>
     (jb_state j = JobRunning \<longleftrightarrow> jb_lease_expires_at j \<noteq> None) \<and>
     (jb_state j = JobRunning \<longrightarrow> 1 \<le> jb_attempts j) \<and>
     (jb_state j = JobSucceeded \<longleftrightarrow> jb_result j \<noteq> None) \<and>
     (jb_state j = JobFailed \<longrightarrow> jb_error_code j \<noteq> '''' \<and> 1 \<le> jb_attempts j)"

definition jobs_ok :: "store \<Rightarrow> bool" where
  "jobs_ok st \<longleftrightarrow> distinct (map jb_id (st_jobs st)) \<and> distinct (map job_key (st_jobs st)) \<and>
     distinct (map (ob_id \<circ> fst) (st_observations st)) \<and> (\<forall>j \<in> set (st_jobs st). job_ok j) \<and>
     (\<forall>r \<in> set (st_receipts st). rw_job_id r \<in> jb_id ` set (st_jobs st) \<and>
        rw_observation_id r \<in> (ob_id \<circ> fst) ` set (st_observations st))"

text \<open>The abstract machine of one job.\<close>

inductive job_move :: "job_state \<Rightarrow> job_state \<Rightarrow> bool" where
  start: "job_move JobQueued JobRunning"
| restart: "job_move JobRunning JobRunning"
| succeed: "job_move JobRunning JobSucceeded"
| give_up: "job_move JobRunning JobFailed"
| retry: "job_move JobRunning JobQueued"

inductive_cases terminal_moveE: "job_move s t"
inductive_simps job_move_succeeded: "job_move JobSucceeded t"
inductive_simps job_move_failed: "job_move JobFailed t"
inductive_simps job_move_canceled: "job_move JobCanceled t"

code_pred job_move .

end
