(* ===== verification/Recall.thy ===== *)
theory Recall
  imports Strategy
begin

text \<open>
  The retrieval use case (\<open>internal/application/retrieval.go\<close>): requests and their
  validation, the choice of the mode and its fallbacks, lexical, exact-cosine and
  reciprocal-rank ranking, the token-budgeted selection with duplicate detection, the
  conflict groups, and \<open>Recall\<close> with the trace it validates and stores. Repository,
  embedding provider and trace sink are interfaces of the source and arguments here;
  instants and the random trace bytes are arguments too, and floating-point expressions
  are evaluated one operation at a time, without fused multiply-add.
\<close>

section \<open>Requests, configuration, results\<close>

datatype retrieval_mode =
  RetrievalUnset | RetrievalAuto | RetrievalLexical | RetrievalSemantic | RetrievalHybrid | RetrievalOther string

fun mode_text :: "retrieval_mode \<Rightarrow> string" where
  "mode_text RetrievalUnset = ''''"
| "mode_text RetrievalAuto = ''auto''"
| "mode_text RetrievalLexical = ''lexical''"
| "mode_text RetrievalSemantic = ''semantic''"
| "mode_text RetrievalHybrid = ''hybrid''"
| "mode_text (RetrievalOther s) = s"

record recall_request =
  rq_trace_id :: ident
  rq_scope :: scope
  rq_access :: access_scope
  rq_query :: string
  rq_functions :: "memory_function list"
  rq_mode :: retrieval_mode
  rq_valid_at :: gtime
  rq_system_at :: gtime
  rq_token_budget :: int
  rq_candidate_limit :: int
  rq_include_global_working :: bool

record candidate_repository =
  cr_lexical :: "candidate_filter \<Rightarrow> string \<Rightarrow> int \<Rightarrow> stored_candidate list result"
  cr_semantic :: "candidate_filter \<Rightarrow> string \<Rightarrow> string \<Rightarrow> int \<Rightarrow> stored_candidate list result"

record embedding_request =
  eq_model :: string
  eq_input :: "string list"
  eq_dimensions :: int

type_synonym embedder = "embedding_request \<Rightarrow> f32 list list result"

record retriever =
  rv_repository :: candidate_repository
  rv_embedder :: "embedder option"
  rv_provider :: string
  rv_model :: string
  rv_dimensions :: int
  rv_rrf_constant :: int

record recall_item =
  ri_memory_id :: ident
  ri_version_id :: ident
  ri_function :: memory_function
  ri_conflict_group :: ident
  ri_payload :: memory_payload
  ri_provenance :: "evidence_ref list"
  ri_estimated_tokens :: int
  ri_score :: score_explanation

record recall_group =
  gr_id :: string
  gr_conflict :: bool
  gr_items :: "recall_item list"

record recall_bundle =
  bu_query :: string
  bu_mode :: retrieval_mode
  bu_fallback_reason :: string
  bu_items :: "recall_item list"
  bu_groups :: "recall_group list"
  bu_trace :: retrieval_trace

definition new_retriever ::
  "candidate_repository option \<Rightarrow> embedder option \<Rightarrow> string \<Rightarrow> string \<Rightarrow> int \<Rightarrow> int \<Rightarrow> retriever result" where
  "new_retriever repository embedder provider model dimensions rrf =
     (case repository of
        None \<Rightarrow> Inl (Errorf ''candidate repository is required'')
      | Some repo \<Rightarrow>
         guard_check (first_error
           [err_if (embedder \<noteq> None \<and> (provider = '''' \<or> model = '''' \<or> dimensions < 1))
              ''configured embedder requires provider, model, and dimensions'',
            err_if (embedder = None \<and> (provider \<noteq> '''' \<or> model \<noteq> '''' \<or> dimensions \<noteq> 0))
              ''embedding identity cannot be configured without an embedder''])
         (Inr \<lparr>rv_repository = repo, rv_embedder = embedder, rv_provider = provider, rv_model = model,
            rv_dimensions = dimensions, rv_rrf_constant = (if rrf \<le> 0 then 60 else rrf)\<rparr>))"

definition validate_recall_request :: "recall_request \<Rightarrow> check" where
  "validate_recall_request q = first_error
     [scope_validate (rq_scope q),
      err_if (ac_principal_id (rq_access q) = '''' \<or> ac_namespace (rq_access q) = '''' \<or>
          ac_namespace (rq_access q) \<noteq> sc_namespace (rq_scope q))
        ''authorized principal and matching namespace are required'',
      err_if (ac_private_owners (rq_access q) = []) ''at least one authorized private owner is required'',
      scan_unique (\<lambda>owner. err_if (owner = '''') ''authorized private owner cannot be empty'')
        ''authorized private owners contain duplicate'' (\<lambda>_. None) [] (ac_private_owners (rq_access q)),
      err_if (is_blank (rq_query q) \<or> rune_count (rq_query q) > 10000)
        ''recall query is required and cannot exceed 10000 characters'',
      err_if (is_zero_time (rq_valid_at q) \<or> is_zero_time (rq_system_at q) \<or>
          rq_token_budget q < 1 \<or> rq_token_budget q > 1000000)
        ''recall times and token budget within [1,1000000] are required'',
      err_if (rq_candidate_limit q < 1 \<or> rq_candidate_limit q > 250) ''candidate limit must be within [1,250]'',
      scan_unique (\<lambda>f. err_if (\<not> known_function f) ''memory function is invalid'')
        ''memory functions contain duplicate'' (\<lambda>_. None) [] (rq_functions q)]"

section \<open>Modes and candidates\<close>

definition resolve_mode :: "retriever \<Rightarrow> retrieval_mode \<Rightarrow> (retrieval_mode \<times> string) result" where
  "resolve_mode r requested =
     (case requested of
        RetrievalLexical \<Rightarrow> Inr (RetrievalLexical, '''')
      | RetrievalOther s \<Rightarrow> Inl (Errorf ''retrieval mode is invalid'')
      | _ \<Rightarrow>
         (if requested \<in> {RetrievalUnset, RetrievalAuto} then
            (if rv_embedder r \<noteq> None then Inr (RetrievalHybrid, '''') else Inr (RetrievalLexical, ''embedding_not_configured''))
          else if rv_embedder r = None then Inl (Errorf ''retrieval requires a configured embedding provider'')
          else Inr (requested, '''')))"

definition recall_filter :: "recall_request \<Rightarrow> candidate_filter" where
  "recall_filter q = \<lparr>cf_access = rq_access q, cf_subject = sc_subject (rq_scope q), cf_context = sc_context (rq_scope q),
     cf_functions = rq_functions q, cf_valid_at = rq_valid_at q, cf_system_at = rq_system_at q,
     cf_include_global_working = rq_include_global_working q\<rparr>"

definition pool_limit :: "recall_request \<Rightarrow> int" where
  "pool_limit q = min (rq_candidate_limit q * 4) 1000"

definition semantic_less :: "stored_candidate \<Rightarrow> stored_candidate \<Rightarrow> bool" where
  "semantic_less a b \<longleftrightarrow>
     (let x = the (sn_semantic a); y = the (sn_semantic b) in
      if \<not> f64_eq x y then f64_less y x else sn_version_id a < sn_version_id b)"

definition score_candidate :: "retriever \<Rightarrow> f32 list \<Rightarrow> stored_candidate \<Rightarrow> stored_candidate result" where
  "score_candidate r query c =
     guard_check (err_if (int (length (sn_vector c)) \<noteq> rv_dimensions r) ''stored embedding dimension mismatch'')
     (bind_result (wrap_result ''score embedding'' (cosine query (sn_vector c))) (\<lambda>x.
      Inr (c\<lparr>sn_semantic := Some x\<rparr>)))"

definition embed_query :: "retriever \<Rightarrow> string \<Rightarrow> f32 list result" where
  "embed_query r query =
     (case rv_embedder r of
        None \<Rightarrow> Inl (Errorf ''nil embedder'')
      | Some provider \<Rightarrow>
         bind_result (wrap_result ''embed recall query''
           (provider \<lparr>eq_model = rv_model r, eq_input = [query], eq_dimensions = rv_dimensions r\<rparr>)) (\<lambda>vectors.
         (case vectors of
            [v] \<Rightarrow> guard_check (err_if (int (length v) \<noteq> rv_dimensions r) ''query embedding dimension mismatch'')
                    (guard_check (wrap_check ''query embedding'' (validate_embedding_vector v)) (Inr v))
          | _ \<Rightarrow> Inl (Errorf ''query embedding dimension mismatch''))))"

definition exact_scan_limit :: int where
  "exact_scan_limit = 10000"

definition semantic_candidates :: "retriever \<Rightarrow> candidate_filter \<Rightarrow> string \<Rightarrow> int \<Rightarrow> stored_candidate list result" where
  "semantic_candidates r f query limit =
     bind_result (embed_query r query) (\<lambda>v.
     bind_result (wrap_result ''load semantic candidates''
       (cr_semantic (rv_repository r) f (rv_provider r) (rv_model r) (exact_scan_limit + 1))) (\<lambda>cs.
     guard_check (err_if (int (length cs) > exact_scan_limit) ''exact semantic candidate set exceeds scan limit'')
     (bind_result (map_result (score_candidate r v) cs) (\<lambda>cs.
      Inr (take (nat limit) (sort_by semantic_less cs))))))"

text \<open>
  The candidates of a request: effective mode, fallback reason, lexical and semantic
  list. An empty lexical result is Go's nil slice, so the source searches again for it;
  a semantic error in auto mode falls back, and clears when the search is repeated.
\<close>

record gathered =
  ga_mode :: retrieval_mode
  ga_fallback :: string
  ga_lexical :: "stored_candidate list"
  ga_semantic :: "stored_candidate list"

definition search_lexical :: "retriever \<Rightarrow> recall_request \<Rightarrow> string \<Rightarrow> stored_candidate list result" where
  "search_lexical r q m = wrap_result m (cr_lexical (rv_repository r) (recall_filter q) (rq_query q) (pool_limit q))"

definition search_again :: "retriever \<Rightarrow> recall_request \<Rightarrow> stored_candidate list \<Rightarrow> stored_candidate list result" where
  "search_again r q lexical = (if lexical = [] then search_lexical r q ''lexical fallback'' else Inr lexical)"

definition after_semantic :: "retriever \<Rightarrow> recall_request \<Rightarrow> gathered \<Rightarrow> gathered result" where
  "after_semantic r q g =
     (if ga_semantic g = [] \<and> rq_mode q = RetrievalAuto then
        bind_result (search_again r q (ga_lexical g)) (\<lambda>lexical.
          Inr (g\<lparr>ga_mode := RetrievalLexical, ga_fallback := ''no_compatible_embeddings'', ga_lexical := lexical\<rparr>))
      else if ga_semantic g = [] \<and> rq_mode q = RetrievalHybrid \<and> ga_lexical g \<noteq> [] then
        Inl (Errorf ''hybrid retrieval found no compatible stored embeddings'')
      else Inr g)"

definition gather :: "retriever \<Rightarrow> recall_request \<Rightarrow> gathered result" where
  "gather r q =
     bind_result (resolve_mode r (rq_mode q)) (\<lambda>(mode, fallback).
     bind_result (if mode = RetrievalLexical \<or> mode = RetrievalHybrid then search_lexical r q ''lexical recall'' else Inr [])
      (\<lambda>lexical.
       let g = \<lparr>ga_mode = mode, ga_fallback = fallback, ga_lexical = lexical, ga_semantic = []\<rparr> in
       if mode = RetrievalSemantic \<or> mode = RetrievalHybrid then
         (case semantic_candidates r (recall_filter q) (rq_query q) (pool_limit q) of
            Inr semantic \<Rightarrow> after_semantic r q (g\<lparr>ga_semantic := semantic\<rparr>)
          | Inl e \<Rightarrow>
             if rq_mode q \<noteq> RetrievalAuto then Inl e
             else let g = g\<lparr>ga_mode := RetrievalLexical, ga_fallback := ''embedding_unavailable''\<rparr> in
               if lexical = [] then
                 bind_result (search_lexical r q ''lexical fallback'') (\<lambda>again. after_semantic r q (g\<lparr>ga_lexical := again\<rparr>))
               else Inr g)
       else Inr g))"

section \<open>Ranking\<close>

record ranked =
  rk_stored :: stored_candidate
  rk_lexical :: "f64 option"
  rk_semantic :: "f64 option"
  rk_rrf :: "f64 option"
  rk_trust :: f64
  rk_total :: f64

definition rk_version :: "ranked \<Rightarrow> ident" where
  "rk_version x = sn_version_id (rk_stored x)"

definition fresh_ranked :: "stored_candidate \<Rightarrow> ranked" where
  "fresh_ranked c = \<lparr>rk_stored = c, rk_lexical = None, rk_semantic = None, rk_rrf = None, rk_trust = Fin 0, rk_total = Fin 0\<rparr>"

text \<open>The maps from a version to its rank: the last position, 0 when absent.\<close>

definition rank_of :: "stored_candidate list \<Rightarrow> ident \<Rightarrow> int" where
  "rank_of cs v = fold (\<lambda>(i, c) n. if sn_version_id c = v then int i + 1 else n) (enumerate 0 cs) 0"

text \<open>The map from a version to its entry, as the list of its entries.\<close>

definition put_lexical :: "stored_candidate \<Rightarrow> ranked list \<Rightarrow> ranked list" where
  "put_lexical c rows =
     (let x = (fresh_ranked c)\<lparr>rk_lexical := sn_lexical c\<rparr> in
      if sn_version_id c \<in> rk_version ` set rows then update_rows (\<lambda>r. rk_version r = sn_version_id c) (\<lambda>_. x) rows
      else rows @ [x])"

definition put_semantic :: "stored_candidate \<Rightarrow> ranked list \<Rightarrow> ranked list" where
  "put_semantic c rows =
     (let rows = (if sn_version_id c \<in> rk_version ` set rows then rows else rows @ [fresh_ranked c]) in
      case sn_semantic c of None \<Rightarrow> rows
      | Some s \<Rightarrow> update_rows (\<lambda>r. rk_version r = sn_version_id c) (\<lambda>r. r\<lparr>rk_semantic := Some s\<rparr>) rows)"

definition by_version :: "stored_candidate list \<Rightarrow> stored_candidate list \<Rightarrow> ranked list" where
  "by_version lexical semantic = fold put_semantic semantic (fold put_lexical lexical [])"

fun epistemic_trust :: "epistemic \<Rightarrow> f64" where
  "epistemic_trust EpistemicObserved = f64_round (9 / 10)"
| "epistemic_trust EpistemicAsserted = f64_round (7 / 10)"
| "epistemic_trust EpistemicInferred = f64_round (1 / 2)"
| "epistemic_trust EpistemicContested = f64_round (1 / 5)"
| "epistemic_trust EpistemicUnknown = f64_round (3 / 10)"
| "epistemic_trust (EpistemicOther s) = Fin 0"

definition candidate_trust :: "stored_candidate \<Rightarrow> f64" where
  "candidate_trust c =
     (let p = sn_payload c in
      case pl_factual p of
        Some f \<Rightarrow> (case fm_confidence f of
            None \<Rightarrow> epistemic_trust (fm_epistemic f)
          | Some x \<Rightarrow> f64_mul (epistemic_trust (fm_epistemic f)) x)
      | None \<Rightarrow> (if pl_experiential p \<noteq> None then f64_round (7 / 10)
          else if pl_working p \<noteq> None then f64_round (3 / 5) else Fin 0))"

definition reciprocal_rank :: "int \<Rightarrow> int \<Rightarrow> f64" where
  "reciprocal_rank k rank = f64_div (Fin 1) (f64_of_int (k + rank))"

definition with_trust :: "f64 \<Rightarrow> f64 \<Rightarrow> f64" where
  "with_trust score trust = f64_add score (f64_mul trust (f64_round (1 / 1000)))"

definition reciprocal_sum :: "int \<Rightarrow> int \<Rightarrow> int \<Rightarrow> f64" where
  "reciprocal_sum k lexical semantic =
     (let x = (if lexical > 0 then f64_add (Fin 0) (reciprocal_rank k lexical) else Fin 0) in
      if semantic > 0 then f64_add x (reciprocal_rank k semantic) else x)"

definition scored ::
  "retrieval_mode \<Rightarrow> stored_candidate list \<Rightarrow> stored_candidate list \<Rightarrow> int \<Rightarrow> ranked \<Rightarrow> ranked" where
  "scored mode lexical semantic k x =
     (let trust = candidate_trust (rk_stored x); x = x\<lparr>rk_trust := trust\<rparr>; v = rk_version x in
      case mode of
        RetrievalLexical \<Rightarrow> x\<lparr>rk_total := with_trust (reciprocal_rank k (rank_of lexical v)) trust\<rparr>
      | RetrievalSemantic \<Rightarrow> (case rk_semantic x of None \<Rightarrow> x | Some s \<Rightarrow> x\<lparr>rk_total := with_trust s trust\<rparr>)
      | RetrievalHybrid \<Rightarrow>
          (let rrf = reciprocal_sum k (rank_of lexical v) (rank_of semantic v) in
           x\<lparr>rk_rrf := Some rrf, rk_total := with_trust rrf trust\<rparr>)
      | _ \<Rightarrow> x)"

definition ranked_less :: "ranked \<Rightarrow> ranked \<Rightarrow> bool" where
  "ranked_less a b \<longleftrightarrow>
     (if \<not> f64_eq (rk_total a) (rk_total b) then f64_less (rk_total b) (rk_total a)
      else if \<not> f64_eq (rk_trust a) (rk_trust b) then f64_less (rk_trust b) (rk_trust a)
      else rk_version a < rk_version b)"

definition rank_candidates ::
  "retrieval_mode \<Rightarrow> stored_candidate list \<Rightarrow> stored_candidate list \<Rightarrow> int \<Rightarrow> ranked list" where
  "rank_candidates mode lexical semantic k =
     sort_by ranked_less (map (scored mode lexical semantic k) (by_version lexical semantic))"

section \<open>Selection\<close>

definition estimate_tokens :: "string \<Rightarrow> int" where
  "estimate_tokens text =
     (let n = int (rune_count text) in if n = 0 then 1 else (n + 3) div 4)"

text \<open>\<open>strings.ToLower\<close>, with the simple case mapping of the Unicode parameter.\<close>

definition to_lower :: "unicode \<Rightarrow> string \<Rightarrow> string" where
  "to_lower uc s = concat (map (\<lambda>x. encode_rune (uc_lower uc (fst x))) (runes s))"

definition dedupe_key :: "unicode \<Rightarrow> stored_candidate \<Rightarrow> string" where
  "dedupe_key uc c =
     (let text = to_lower uc (join '' '' (GoText.fields (sn_text c))); text = (if text = '''' then sn_version_id c else text) in
      function_text (sn_function c) @ [CHR 0x00] @ text)"

definition explain :: "ranked \<Rightarrow> score_explanation" where
  "explain x = \<lparr>se_lexical = rk_lexical x, se_semantic = rk_semantic x, se_rrf = rk_rrf x, se_trust = rk_trust x, se_total = rk_total x\<rparr>"

definition recall_item_of :: "ranked \<Rightarrow> recall_item" where
  "recall_item_of x = (let c = rk_stored x in
     \<lparr>ri_memory_id = sn_memory_id c, ri_version_id = sn_version_id c, ri_function = sn_function c,
      ri_conflict_group = sn_conflict_group c, ri_payload = sn_payload c, ri_provenance = sn_provenance c,
      ri_estimated_tokens = estimate_tokens (sn_text c), ri_score = explain x\<rparr>)"

definition trace_candidate :: "bool \<Rightarrow> ident \<Rightarrow> ranked \<Rightarrow> retrieval_candidate" where
  "trace_candidate selected duplicate x = (let c = rk_stored x in
     \<lparr>rc_memory_id = sn_memory_id c, rc_version_id = sn_version_id c, rc_conflict_group = sn_conflict_group c,
      rc_selected = selected, rc_duplicate_of = duplicate, rc_estimated_tokens = estimate_tokens (sn_text c),
      rc_score = explain x\<rparr>)"

text \<open>
  The loop: \<open>seen\<close> is the Go map from keys to version ids, empty where nothing is stored,
  and \<open>used\<close> the tokens selected so far. Items and trace come out in order.
\<close>

fun select_from ::
  "unicode \<Rightarrow> int \<Rightarrow> (string \<Rightarrow> ident) \<Rightarrow> int \<Rightarrow> ranked list \<Rightarrow> recall_item list \<times> retrieval_candidate list \<times> int" where
  "select_from uc budget seen used [] = ([], [], used)"
| "select_from uc budget seen used (x # xs) =
     (let estimated = estimate_tokens (sn_text (rk_stored x));
          key = dedupe_key uc (rk_stored x);
          duplicate = seen key;
          seen = (if duplicate = '''' then seen(key := rk_version x) else seen);
          selected = (duplicate = '''' \<and> used + estimated \<le> budget)
      in if selected
         then (case select_from uc budget seen (used + estimated) xs of
             (items, trace, tokens) \<Rightarrow> (recall_item_of x # items, trace_candidate True duplicate x # trace, tokens))
         else (case select_from uc budget seen used xs of
             (items, trace, tokens) \<Rightarrow> (items, trace_candidate False duplicate x # trace, tokens)))"

definition select_candidates ::
  "unicode \<Rightarrow> ranked list \<Rightarrow> int \<Rightarrow> recall_item list \<times> retrieval_candidate list \<times> int" where
  "select_candidates uc xs budget = select_from uc budget (\<lambda>_. '''') 0 xs"

section \<open>Groups\<close>

definition group_id :: "recall_item \<Rightarrow> string" where
  "group_id i = (if ri_conflict_group i \<noteq> '''' then ''conflict:'' @ ri_conflict_group i else ''memory:'' @ ri_memory_id i)"

fun put_group :: "recall_item \<Rightarrow> recall_group list \<Rightarrow> recall_group list" where
  "put_group i [] = [\<lparr>gr_id = group_id i, gr_conflict = (ri_conflict_group i \<noteq> ''''), gr_items = [i]\<rparr>]"
| "put_group i (g # gs) =
     (if gr_id g = group_id i then g\<lparr>gr_items := gr_items g @ [i]\<rparr> # gs else g # put_group i gs)"

definition group_recall_items :: "recall_item list \<Rightarrow> recall_group list" where
  "group_recall_items items = fold put_group items []"

section \<open>Recall\<close>

definition retrieval_parameters :: "retriever \<Rightarrow> retrieval_mode \<Rightarrow> json" where
  "retrieval_parameters r mode = JObject
     [(''embedding_dimensions'', JInt (rv_dimensions r)), (''embedding_model'', JString (rv_model r)),
      (''embedding_provider'', JString (rv_provider r)), (''exact_scan_limit'', JInt 10000),
      (''mode'', JString (mode_text mode)), (''rrf_constant'', JInt (rv_rrf_constant r))]"

definition strategy_package :: "retriever \<Rightarrow> retrieval_mode \<Rightarrow> package" where
  "strategy_package r mode =
     \<lparr>pk_id = ''retrieval.'' @ mode_text mode, pk_version = ''1.0.0'',
      pk_implementation = ''internal/application/retrieval.go'', pk_label = LabelReference,
      pk_fidelity = FidelityConceptual, pk_prompt = '''', pk_json_schema = '''',
      pk_parameters = json_encode (retrieval_parameters r mode),
      pk_capabilities = [''retrieval'', mode_text mode] @
        (if mode = RetrievalSemantic \<or> mode = RetrievalHybrid then [''exact-cosine''] else []) @
        (if mode = RetrievalHybrid then [''rrf''] else []),
      pk_repair = \<lparr>rp_max_attempts = 0, rp_strict = True\<rparr>,
      pk_paper_sources = [''survey:section-3.4'', ''survey:section-5'']\<rparr>"

definition random_trace_id :: "string \<Rightarrow> ident" where
  "random_trace_id bytes = ''trace-'' @ hex_encode bytes"

definition recall_trace ::
  "recall_request \<Rightarrow> ident \<Rightarrow> string \<Rightarrow> string \<Rightarrow> string \<Rightarrow> retrieval_candidate list \<Rightarrow> int \<Rightarrow> gtime \<Rightarrow> gtime \<Rightarrow> retrieval_trace" where
  "recall_trace q trace_id strategy_id hash fallback candidates used started completed =
     \<lparr>rt_id = trace_id, rt_scope = rq_scope q, rt_query = rq_query q, rt_strategy_id = strategy_id, rt_strategy_hash = hash,
      rt_fallback_reason = fallback,
      rt_authorization = \<lparr>ra_principal_id = ac_principal_id (rq_access q), ra_private_owners = ac_private_owners (rq_access q),
         ra_allow_shared = ac_allow_shared (rq_access q), ra_allow_public = ac_allow_public (rq_access q)\<rparr>,
      rt_functions = rq_functions q, rt_include_global_working = rq_include_global_working q,
      rt_valid_at = rq_valid_at q, rt_system_at = rq_system_at q,
      rt_token_budget = rq_token_budget q, rt_tokens_used = used, rt_candidates = candidates,
      rt_started_at = started, rt_completed_at = completed\<rparr>"

text \<open>The bundle of a request, up to the validated trace.\<close>

definition recall_bundle_of ::
  "lib \<Rightarrow> unicode \<Rightarrow> retriever \<Rightarrow> gtime \<Rightarrow> gtime \<Rightarrow> string \<Rightarrow> recall_request \<Rightarrow> recall_bundle result" where
  "recall_bundle_of L uc r started completed bytes q =
     guard_check (validate_recall_request q)
     (bind_result (gather r q) (\<lambda>g.
      case select_candidates uc
        (take (nat (rq_candidate_limit q)) (rank_candidates (ga_mode g) (ga_lexical g) (ga_semantic g) (rv_rrf_constant r)))
        (rq_token_budget q) of (items, candidates, used) \<Rightarrow>
      let definition' = strategy_package r (ga_mode g);
          trace_id = (if rq_trace_id q = '''' then random_trace_id bytes else rq_trace_id q) in
      bind_result (wrap_result ''hash retrieval strategy'' (package_hash L definition')) (\<lambda>hash.
      let trace = recall_trace q trace_id (pk_id definition' @ ''@'' @ pk_version definition') hash (ga_fallback g)
            candidates used started completed in
      guard_check (wrap_check ''validate retrieval trace'' (trace_validate trace))
      (Inr \<lparr>bu_query = rq_query q, bu_mode = ga_mode g, bu_fallback_reason = ga_fallback g,
         bu_items = items, bu_groups = group_recall_items items, bu_trace = trace\<rparr>))))"

text \<open>\<open>Recall\<close>: the bundle is returned only after its trace is stored, when a sink is configured.\<close>

definition recall ::
  "lib \<Rightarrow> unicode \<Rightarrow> retriever \<Rightarrow> (retrieval_trace \<Rightarrow> 's \<Rightarrow> 's \<times> unit result) option \<Rightarrow> gtime \<Rightarrow> gtime \<Rightarrow> string \<Rightarrow>
     recall_request \<Rightarrow> 's \<Rightarrow> 's \<times> recall_bundle result" where
  "recall L uc r sink started completed bytes q s =
     (case recall_bundle_of L uc r started completed bytes q of
        Inl e \<Rightarrow> (s, Inl e)
      | Inr b \<Rightarrow>
         (case sink of
            None \<Rightarrow> (s, Inr b)
          | Some put \<Rightarrow> (case put (bu_trace b) s of
              (s', Inl e) \<Rightarrow> (s', Inl (Wrapped ''persist retrieval trace'' e))
            | (s', Inr u) \<Rightarrow> (s', Inr b))))"

text \<open>The SQLite adapter as repository and sink.\<close>

definition sqlite_repository :: "lib \<Rightarrow> unicode \<Rightarrow> fts_engine \<Rightarrow> store \<Rightarrow> candidate_repository" where
  "sqlite_repository L uc fts st =
     \<lparr>cr_lexical = search_lexical_candidates uc fts st, cr_semantic = list_semantic_candidates L st\<rparr>"

end
