(* ===== verification/Working.thy ===== *)
theory Working
  imports Store
begin

text \<open>
  Task-scoped working sets (\<open>sqlite/working.go\<close>, \<open>sqlite/existence.go\<close>): creation,
  the opt-in to global recall, and the expiry sweep that closes the sets whose time is
  over and archives the working memories of their tasks.
\<close>

section \<open>Creating and opting in\<close>

definition put_working_set :: "working_set \<Rightarrow> store \<Rightarrow> store \<times> unit result" where
  "put_working_set w st =
     transaction st
      (guard_check (working_set_validate w)
      (bind_result
        (wrap_result ''put working set''
          (insert_row ''working_sets''
            (ws_id w \<in> (ws_id \<circ> wr_set) ` set (st_working_sets st) \<or>
             (sc_namespace (ws_scope w), ws_task_id w) \<in>
               (\<lambda>r. (sc_namespace (ws_scope (wr_set r)), ws_task_id (wr_set r))) ` set (st_working_sets st))
            \<lparr>wr_set = w, wr_state = WorkingActive\<rparr> (st_working_sets st)))
        (\<lambda>rows. Inr (st\<lparr>st_working_sets := rows\<rparr>, ()))))"

definition active_task :: "ident \<Rightarrow> ident \<Rightarrow> working_row \<Rightarrow> bool" where
  "active_task ns task r \<longleftrightarrow> sc_namespace (ws_scope (wr_set r)) = ns \<and> ws_task_id (wr_set r) = task \<and>
     wr_state r = WorkingActive"

definition set_working_global_recall ::
  "ident \<Rightarrow> ident \<Rightarrow> bool \<Rightarrow> gtime \<Rightarrow> store \<Rightarrow> store \<times> unit result" where
  "set_working_global_recall ns task enabled at' st =
     (if ns = '''' \<or> task = '''' \<or> is_zero_time at'
      then (st, Inl (Errorf ''working namespace, task, and timestamp are required''))
      else (st\<lparr>st_working_sets := update_rows (active_task ns task)
                (\<lambda>r. r\<lparr>wr_set := (wr_set r)\<lparr>ws_global_recall := enabled, ws_updated_at := at'\<rparr>\<rparr>)
                (st_working_sets st)\<rparr>,
            if length (filter (active_task ns task) (st_working_sets st)) \<noteq> 1
            then Inl (Errorf ''active working set not found'') else Inr ()))"

definition episode_exists :: "store \<Rightarrow> ident \<Rightarrow> bool" where
  "episode_exists st i \<longleftrightarrow> list_ex (\<lambda>e. es_id e = i) (st_episodes st)"

definition working_set_exists :: "store \<Rightarrow> ident \<Rightarrow> bool" where
  "working_set_exists st i \<longleftrightarrow> list_ex (\<lambda>r. ws_id (wr_set r) = i) (st_working_sets st)"

section \<open>Expiry\<close>

text \<open>
  \<open>expires_at <= ?\<close> compares the stored text of the two instants, an order that is
  chronological up to one second only.
\<close>

definition overdue :: "gtime \<Rightarrow> working_row \<Rightarrow> bool" where
  "overdue now r \<longleftrightarrow> wr_state r = WorkingActive \<and>
     (case ws_expires_at (wr_set r) of None \<Rightarrow> False | Some t \<Rightarrow> text_le t now)"

text \<open>
  \<open>WHERE namespace_id = ? AND context_id = ? AND function = 'working'\<close>; an absent
  context is NULL and equals nothing.
\<close>

definition task_memory :: "ident \<Rightarrow> ident \<Rightarrow> memory \<Rightarrow> bool" where
  "task_memory ns task m \<longleftrightarrow> sc_namespace (me_scope m) = ns \<and> sc_context (me_scope m) \<noteq> '''' \<and>
     sc_context (me_scope m) = task \<and> me_function m = FunctionWorking"

definition task_versions :: "ident \<Rightarrow> ident \<Rightarrow> store \<Rightarrow> ident set" where
  "task_versions ns task st = mv_id ` set (filter
     (\<lambda>v. (mv_memory_id v, mv_number v) \<in>
        (\<lambda>m. (me_id m, me_current_version m)) ` set (filter (task_memory ns task) (st_memories st)))
     (st_versions st))"

definition archive_task :: "ident \<Rightarrow> ident \<Rightarrow> store \<Rightarrow> store" where
  "archive_task ns task st =
     (let st1 = st\<lparr>st_memories := update_rows (task_memory ns task) (\<lambda>m. m\<lparr>me_state := MemoryArchived\<rparr>)
                    (st_memories st)\<rparr>;
          current = task_versions ns task st1 in
      st1\<lparr>st_versions := update_rows (\<lambda>v. mv_id v \<in> current) (\<lambda>v. v\<lparr>mv_state := VersionArchived\<rparr>)
             (st_versions st1)\<rparr>)"

definition expire_set :: "gtime \<Rightarrow> working_row \<Rightarrow> store \<Rightarrow> store" where
  "expire_set now item st =
     archive_task (sc_namespace (ws_scope (wr_set item))) (ws_task_id (wr_set item))
      (st\<lparr>st_working_sets := update_rows (\<lambda>r. ws_id (wr_set r) = ws_id (wr_set item))
            (\<lambda>r. r\<lparr>wr_state := WorkingExpired, wr_set := (wr_set r)\<lparr>ws_updated_at := now\<rparr>\<rparr>)
            (st_working_sets st)\<rparr>)"

definition overdue_sets :: "gtime \<Rightarrow> store \<Rightarrow> working_row list" where
  "overdue_sets now st = sort_key (ws_id \<circ> wr_set) (filter (overdue now) (st_working_sets st))"

definition expire_working_sets :: "gtime \<Rightarrow> store \<Rightarrow> store \<times> ident list result" where
  "expire_working_sets now st =
     (if is_zero_time now then (st, Inl (Errorf ''expiry timestamp is required''))
      else (fold (expire_set now) (overdue_sets now st) st,
            Inr (map (ws_id \<circ> wr_set) (overdue_sets now st))))"

end
