(* ===== verification/Episodes.thy ===== *)
theory Episodes
  imports Lifecycle
begin

text \<open>
  Episodes with their outcomes, and the usage feedback on lesson versions
  (\<open>sqlite/experiential.go\<close>). The REAL columns are NOT NULL and SQLite stores a NaN
  as NULL, so a NaN is a constraint violation.
\<close>

section \<open>Episodes\<close>

definition outcomes_check :: "ident \<Rightarrow> outcome list \<Rightarrow> check" where
  "outcomes_check ep os = check_all (\<lambda>oc. first_error
     [outcome_validate oc, err_if (oc_episode_id oc \<noteq> ep) ''outcome belongs to another episode'']) os"

definition insert_episode :: "episode \<Rightarrow> store \<Rightarrow> store result" where
  "insert_episode ep st =
     bind_result
      (wrap_result ''insert episode''
        (insert_row ''episodes.id'' (ep_id ep \<in> es_id ` set (st_episodes st))
          \<lparr>es_id = ep_id ep, es_namespace = sc_namespace (ep_scope ep), es_subject = sc_subject (ep_scope ep),
           es_task = ep_task ep, es_observation_ids = ep_observation_ids ep,
           es_started_at = ep_started_at ep, es_ended_at = ep_ended_at ep\<rparr> (st_episodes st)))
      (\<lambda>rows. Inr (st\<lparr>st_episodes := rows\<rparr>))"

definition insert_outcome :: "outcome \<Rightarrow> store \<Rightarrow> store result" where
  "insert_outcome oc st =
     bind_result
      (wrap_result ''insert outcome''
        (insert_row ''outcomes''
          (oc_id oc \<in> oc_id ` set (st_outcomes st) \<or> oc_episode_id oc \<notin> es_id ` set (st_episodes st) \<or>
           oc_value oc = NaN)
          oc (st_outcomes st)))
      (\<lambda>rows. Inr (st\<lparr>st_outcomes := rows\<rparr>))"

definition put_episode :: "episode \<Rightarrow> outcome list \<Rightarrow> store \<Rightarrow> store \<times> unit result" where
  "put_episode ep os st =
     transaction st
      (guard_check (episode_validate ep)
      (guard_check (err_if (os = []) ''episode requires at least one outcome'')
      (guard_check (outcomes_check (ep_id ep) os)
      (bind_result (insert_episode ep st) (\<lambda>st1.
       bind_result (fold_result insert_outcome os st1) (\<lambda>st2. Inr (st2, ())))))))"

section \<open>Usage feedback\<close>

definition feedback_key :: "feedback_row \<Rightarrow> ident \<times> ident \<times> ident" where
  "feedback_key r = (fb_version r, uf_trace_id (fb_feedback r), uf_source (fb_feedback r))"

text \<open>\<open>INSERT ... ON CONFLICT(memory_version_id, trace_id, source_id) DO UPDATE\<close>\<close>

definition upsert_feedback :: "feedback_row \<Rightarrow> feedback_row list \<Rightarrow> feedback_row list" where
  "upsert_feedback r rows =
     (if feedback_key r \<in> feedback_key ` set rows
      then update_rows (\<lambda>q. feedback_key q = feedback_key r)
        (\<lambda>q. q\<lparr>fb_feedback := (fb_feedback q)\<lparr>uf_value := uf_value (fb_feedback r),
           uf_recorded_at := uf_recorded_at (fb_feedback r)\<rparr>\<rparr>) rows
      else rows @ [r])"

definition record_usage_feedback :: "ident \<Rightarrow> usage_feedback \<Rightarrow> store \<Rightarrow> store \<times> unit result" where
  "record_usage_feedback version fb st =
     transaction st
      (guard_check (err_if (version = '''' \<or> uf_trace_id fb = '''' \<or> uf_source fb = '''' \<or>
           f64_less (uf_value fb) (Fin (-1)) \<or> f64_less (Fin 1) (uf_value fb) \<or> is_zero_time (uf_recorded_at fb))
         ''valid version and usage feedback are required'')
      (case version_memory st version of
         None \<Rightarrow> Inl (Wrapped ''load feedback memory'' ErrNoRows)
       | Some m \<Rightarrow>
           guard_check (err_if (me_function m \<noteq> FunctionExperiential) ''usage feedback target is not experiential memory'')
           (case find_row rt_id (uf_trace_id fb) (st_traces st) of
              None \<Rightarrow> Inl (Wrapped ''load feedback trace'' ErrNoRows)
            | Some t \<Rightarrow>
                guard_check (err_if (sc_namespace (me_scope m) \<noteq> sc_namespace (rt_scope t)) ''usage feedback crosses namespace'')
                (if uf_value fb = NaN
                 then Inl (Wrapped ''record experiential feedback'' (ErrConstraint ''experiential_feedback.value''))
                 else Inr (st\<lparr>st_feedback := upsert_feedback \<lparr>fb_version = version, fb_feedback = fb\<rparr> (st_feedback st)\<rparr>, ())))))"

text \<open>\<open>ORDER BY recorded_at, trace_id, source_id\<close>\<close>

definition feedback_order :: "usage_feedback \<Rightarrow> string list" where
  "feedback_order f = [format_time (uf_recorded_at f), uf_trace_id f, uf_source f]"

definition usage_feedback_of :: "store \<Rightarrow> ident \<Rightarrow> usage_feedback list" where
  "usage_feedback_of st version =
     sort_key feedback_order (map fb_feedback (filter (\<lambda>r. fb_version r = version) (st_feedback st)))"

end
