(* ===== verification/Worker.thy ===== *)
theory Worker
  imports Formation Jobs Recall Working Episodes
begin

text \<open>
  The formation worker (\<open>internal/daemon/formation.go\<close>) and the durable work contract
  it executes (\<open>internal/application/formation_job.go\<close>): it claims a job, forms a
  proposal from the observation, creates the episode or working set the payload names,
  applies the proposal through the lifecycle service, embeds the result and completes
  the job; a failure goes back to the queue. Each call on the store is its own
  transaction, so an error keeps what the calls before it committed: the functions
  return the database they reached next to their outcome. Every reading of the clock is
  a field of \<open>worker_clock\<close>.
\<close>

section \<open>The work contract\<close>

record formation_job =
  fj_observation_id :: ident
  fj_function :: memory_function
  fj_mode :: string
  fj_apply_scope :: scope
  fj_working_expires_at :: "gtime option"
  fj_working_global_recall :: bool

record formation_result =
  fr_memory_id :: ident
  fr_version_id :: ident
  fr_operation_id :: ident
  fr_proposal_id :: ident

text \<open>
  \<open>encoding/json\<close> on the job payload, and its lenient reading of a create request,
  which ignores unknown fields.
\<close>

record job_codec =
  jc_encode_job :: "formation_job \<Rightarrow> string"
  jc_decode_job :: "string \<Rightarrow> formation_job result"
  jc_unmarshal_create :: "string \<Rightarrow> memory_create result"

definition encode_formation_job :: "job_codec \<Rightarrow> formation_job \<Rightarrow> string result" where
  "encode_formation_job C j =
     (if fj_observation_id j = '''' \<or> scope_validate (fj_apply_scope j) \<noteq> None then Inl ErrInvalidFormationJob
      else if \<not> known_function (fj_function j) then Inl ErrInvalidFormationJob
      else if fj_mode j \<noteq> ''generator-free'' \<and> fj_mode j \<noteq> ''assisted'' then Inl ErrInvalidFormationJob
      else guard_check (err_if (case fj_working_expires_at j of None \<Rightarrow> False | Some t \<Rightarrow> \<not> json_time t)
        ''json: error calling MarshalJSON for type time.Time'')
        (Inr (jc_encode_job C j)))"

definition encode_result :: "formation_result \<Rightarrow> string" where
  "encode_result r = json_encode (JObject [(''memory_id'', JString (fr_memory_id r)), (''version_id'', JString (fr_version_id r)),
     (''operation_id'', JString (fr_operation_id r)), (''proposal_id'', JString (fr_proposal_id r))])"

definition embedding_request_validate :: "embedding_request \<Rightarrow> check" where
  "embedding_request_validate r = first_error
     [err_if (eq_model r = '''' \<or> eq_input r = [] \<or> eq_dimensions r < 0)
        ''embedding model, input, and non-negative dimensions are required'',
      check_all (\<lambda>i. err_if (i = '''') ''embedding input is empty'') (eq_input r)]"

section \<open>Configuration\<close>

record worker_config =
  wk_generator :: "generator option"
  wk_generator_provider :: string
  wk_generator_model :: string
  wk_embedder :: "embedder option"
  wk_embedding_provider :: string
  wk_embedding_model :: string
  wk_embedding_dimensions :: int
  wk_lease :: int
  wk_poll_interval :: int

text \<open>The store is there or \<open>nil\<close>; an unset duration gets its default.\<close>

definition new_formation_worker :: "bool \<Rightarrow> worker_config \<Rightarrow> worker_config result" where
  "new_formation_worker has_store c =
     guard_check (err_if (\<not> has_store) ''formation worker store is required'')
     (guard_check (err_if (wk_generator c \<noteq> None \<and> (wk_generator_provider c = '''' \<or> wk_generator_model c = ''''))
        ''generator identity is required'')
     (guard_check (err_if (wk_embedder c \<noteq> None \<and>
          (wk_embedding_provider c = '''' \<or> wk_embedding_model c = '''' \<or> wk_embedding_dimensions c < 1))
        ''embedding identity is required'')
     (Inr (c\<lparr>wk_lease := (if wk_lease c \<le> 0 then 15 * 60 * nanos_per_sec else wk_lease c),
             wk_poll_interval := (if wk_poll_interval c \<le> 0 then 100000000 else wk_poll_interval c)\<rparr>))))"

definition supports_assisted :: "worker_config \<Rightarrow> bool" where
  "supports_assisted c \<longleftrightarrow> wk_generator c \<noteq> None"

record worker_clock =
  ck_claim :: gtime
  ck_created :: gtime
  ck_updated :: gtime
  ck_apply :: gtime
  ck_embed :: gtime
  ck_complete :: gtime
  ck_fail :: gtime

section \<open>Calls in sequence\<close>

definition and_then :: "store \<times> 'a result \<Rightarrow> ('a \<Rightarrow> store \<Rightarrow> store \<times> 'b result) \<Rightarrow> store \<times> 'b result" where
  "and_then r f = (case snd r of Inl e \<Rightarrow> (fst r, Inl e) | Inr x \<Rightarrow> f x (fst r))"

definition with_value :: "'a result \<Rightarrow> store \<Rightarrow> ('a \<Rightarrow> store \<times> 'b result) \<Rightarrow> store \<times> 'b result" where
  "with_value r st f = (case r of Inl e \<Rightarrow> (st, Inl e) | Inr x \<Rightarrow> f x)"

lemma and_then_Inl: "snd r = Inl e \<Longrightarrow> and_then r f = (fst r, Inl e)"
  by (simp add: and_then_def)

lemma and_then_Inr: "snd r = Inr x \<Longrightarrow> and_then r f = f x (fst r)"
  by (simp add: and_then_def)

section \<open>What a payload refers to\<close>

definition formed_episode :: "observation \<Rightarrow> lesson_evidence \<Rightarrow> episode" where
  "formed_episode b ev = \<lparr>ep_id = le_episode_id ev, ep_scope = ob_scope b, ep_task = ob_content b,
     ep_observation_ids = [ob_id b], ep_started_at = ob_captured_at b - 1, ep_ended_at = ob_captured_at b\<rparr>"

definition formed_outcomes :: "observation \<Rightarrow> lesson_evidence \<Rightarrow> outcome list" where
  "formed_outcomes b ev = map
     (\<lambda>i. \<lparr>oc_id = i, oc_episode_id = le_episode_id ev, oc_source = sc_actor (ob_scope b), oc_kind = ''observation'',
           oc_value = Fin 0, oc_evidence = ob_content b, oc_observed_at = ob_captured_at b\<rparr>)
     (le_outcome_ids ev)"

fun ensure_episodes :: "observation \<Rightarrow> lesson_evidence list \<Rightarrow> store \<Rightarrow> store \<times> unit result" where
  "ensure_episodes b [] st = (st, Inr ())"
| "ensure_episodes b (ev # evs) st =
     (if episode_exists st (le_episode_id ev) then ensure_episodes b evs st
      else and_then (put_episode (formed_episode b ev) (formed_outcomes b ev) st) (\<lambda>_. ensure_episodes b evs))"

definition claimed_at_or :: "gtime \<Rightarrow> gtime \<Rightarrow> gtime" where
  "claimed_at_or captured fallback = (if \<not> is_zero_time captured then captured else fallback)"

definition formed_working_set :: "worker_clock \<Rightarrow> formation_job \<Rightarrow> observation \<Rightarrow> working_memory \<Rightarrow> working_set" where
  "formed_working_set clk j b w = \<lparr>ws_id = wm_working_set_id w, ws_scope = ob_scope b, ws_task_id = wm_task_id w,
     ws_goal = wm_goal w, ws_global_recall = fj_working_global_recall j, ws_expires_at = fj_working_expires_at j,
     ws_created_at = claimed_at_or (ob_captured_at b) (ck_created clk), ws_updated_at = ck_updated clk\<rparr>"

definition ensure_working_set ::
  "worker_clock \<Rightarrow> formation_job \<Rightarrow> observation \<Rightarrow> working_memory \<Rightarrow> store \<Rightarrow> store \<times> unit result" where
  "ensure_working_set clk j b w st =
     (if working_set_exists st (wm_working_set_id w) then (st, Inr ())
      else put_working_set (formed_working_set clk j b w) st)"

definition ensure_functional_references ::
  "job_codec \<Rightarrow> worker_clock \<Rightarrow> proposal \<Rightarrow> formation_job \<Rightarrow> observation \<Rightarrow> store \<Rightarrow> store \<times> unit result" where
  "ensure_functional_references C clk p j b st =
     with_value (jc_unmarshal_create C (pr_payload p)) st (\<lambda>c.
     and_then
       (case pl_experiential (mc_payload c) of None \<Rightarrow> (st, Inr ()) | Some e \<Rightarrow> ensure_episodes b (em_evidence e) st)
       (\<lambda>_ st. case pl_working (mc_payload c) of None \<Rightarrow> (st, Inr ()) | Some w \<Rightarrow> ensure_working_set clk j b w st))"

section \<open>One job\<close>

definition job_strategy :: "worker_config \<Rightarrow> formation_job \<Rightarrow> formation_strategy result" where
  "job_strategy c j =
     (if fj_mode j = ''generator-free'' then new_generator_free (fj_function j)
      else if fj_mode j = ''assisted''
        then new_assisted (fj_function j) (wk_generator c) (wk_generator_provider c) (wk_generator_model c)
      else Inl ErrInvalidFormationJob)"

definition apply_formed :: "lib \<Rightarrow> worker_clock \<Rightarrow> scope \<Rightarrow> proposal \<Rightarrow> store \<Rightarrow> store \<times> applied_mutation result" where
  "apply_formed L clk sc p st =
     (case service_apply L (owner_policy L) (apply_proposal_authorized L) st sc p (ck_apply clk) of (st', _, r) \<Rightarrow> (st', r))"

definition embed_formed :: "lib \<Rightarrow> worker_config \<Rightarrow> worker_clock \<Rightarrow> memory_version \<Rightarrow> store \<Rightarrow> store \<times> unit result" where
  "embed_formed L c clk v st =
     (case wk_embedder c of
        None \<Rightarrow> (st, Inr ())
      | Some provider \<Rightarrow>
          with_value (provider \<lparr>eq_model = wk_embedding_model c, eq_input = [memory_text (mv_payload v)],
              eq_dimensions = wk_embedding_dimensions c\<rparr>) st (\<lambda>vectors.
            (case vectors of
               [v1] \<Rightarrow> put_embedding L (mv_id v) (wk_embedding_provider c) (wk_embedding_model c)
                         (memory_text (mv_payload v)) v1 (ck_embed clk) st
             | _ \<Rightarrow> (st, Inl (Errorf ''embedding provider returned vectors'')))))"

definition mutation_result :: "applied_mutation \<Rightarrow> proposal \<Rightarrow> formation_result" where
  "mutation_result m p = \<lparr>fr_memory_id = me_id (am_memory m), fr_version_id = mv_id (am_version m),
     fr_operation_id = op_id (am_operation m), fr_proposal_id = pr_id p\<rparr>"

definition form_and_apply ::
  "lib \<Rightarrow> job_codec \<Rightarrow> worker_config \<Rightarrow> worker_clock \<Rightarrow> formation_job \<Rightarrow> observation \<Rightarrow> proposal \<Rightarrow>
   store \<Rightarrow> store \<times> applied_mutation result" where
  "form_and_apply L C c clk j b p st =
     and_then (ensure_functional_references C clk p j b st) (\<lambda>_ st.
     and_then (apply_formed L clk (fj_apply_scope j) p st) (\<lambda>m st.
     and_then (embed_formed L c clk (am_version m) st) (\<lambda>_ st. (st, Inr m))))"

definition process_claimed ::
  "lib \<Rightarrow> job_codec \<Rightarrow> worker_config \<Rightarrow> worker_clock \<Rightarrow> job \<Rightarrow> store \<Rightarrow> store \<times> unit result" where
  "process_claimed L C c clk job st =
     with_value (wrap_result ''decode formation job'' (jc_decode_job C (jb_payload job))) st (\<lambda>j.
     with_value (get_observation st (fj_observation_id j)) st (\<lambda>b.
     if ob_scope b \<noteq> fj_apply_scope j \<or> sc_namespace (ob_scope b) \<noteq> jb_namespace job
     then (st, Inl (Errorf ''formation job scope does not match observation''))
     else
     with_value (job_strategy c j) st (\<lambda>s.
     with_value (propose L s b) st (\<lambda>p.
     and_then (form_and_apply L C c clk j b p st) (\<lambda>m st.
     complete_job L (jb_id job) (jb_lease_owner job) (encode_result (mutation_result m p)) (ck_complete clk) st)))))"

text \<open>
  The text of an error is a parameter, since the errors of the model carry only the
  constant parts of the messages. A failure is retried a second later, three times.
\<close>

definition process_one ::
  "lib \<Rightarrow> job_codec \<Rightarrow> worker_config \<Rightarrow> (go_error \<Rightarrow> string) \<Rightarrow> string \<Rightarrow> worker_clock \<Rightarrow> store \<Rightarrow> store \<times> unit result" where
  "process_one L C c error_text worker clk st =
     and_then (claim worker (ck_claim clk) (wk_lease c) st) (\<lambda>job st1.
     (case process_claimed L C c clk job st1 of
        (st2, Inr _) \<Rightarrow> (st2, Inr ())
      | (st2, Inl e) \<Rightarrow>
          (case fail_job (jb_id job) worker ''formation_failed'' (take 2048 (error_text e)) (ck_fail clk) nanos_per_sec 3 st2 of
             (st3, Inl fe) \<Rightarrow> (st3, Inl (Wrapped ''formation failed; persist failure'' fe))
           | (st3, Inr _) \<Rightarrow> (st3, Inl (Wrapped ''formation job'' e)))))"

text \<open>
  The inner loop of \<open>Run\<close>: jobs until there is none, errors or not. Each pass has its
  clock readings; running out of them is the cancelled context.
\<close>

fun drain ::
  "lib \<Rightarrow> job_codec \<Rightarrow> worker_config \<Rightarrow> (go_error \<Rightarrow> string) \<Rightarrow> worker_clock list \<Rightarrow> store \<Rightarrow> store \<times> bool" where
  "drain L C c error_text [] st = (st, False)"
| "drain L C c error_text (clk # clks) st =
     (case process_one L C c error_text ''formation-worker'' clk st of
        (st', Inl e) \<Rightarrow> if errors_is e ErrNoJob then (st', True) else drain L C c error_text clks st'
      | (st', Inr _) \<Rightarrow> drain L C c error_text clks st')"

end
