(* ===== verification/JobInv.thy ===== *)
theory JobInv
  imports Jobs
begin

text \<open>
  Every call on the queue, job by job: it keeps the job or moves it along the abstract
  machine, and enqueue appends one queued row. The invariant and the stability of
  terminal states follow for any interleaving of workers.
\<close>

section \<open>Shape of the operations\<close>

lemma next_jobD:
  assumes "next_job now st = Some j"
  shows "j \<in> set (st_jobs st)" "claimable now j"
    "\<And>k. k \<in> set (st_jobs st) \<Longrightarrow> claimable now k \<Longrightarrow> claim_order j \<le> claim_order k"
proof -
  obtain js where js: "sort_key claim_order (filter (claimable now) (st_jobs st)) = j # js"
    using assms by (auto simp: next_job_def split: list.splits)
  then have set: "insert j (set js) = {k \<in> set (st_jobs st). claimable now k}"
    by (metis list.simps(15) set_filter set_sort)
  then show "j \<in> set (st_jobs st)" "claimable now j" by auto
  have "sorted (map claim_order (j # js))" using sorted_sort_key js by metis
  then show "claim_order j \<le> claim_order k" if "k \<in> set (st_jobs st)" "claimable now k" for k
    using that set by auto
qed

lemma next_job_None: "next_job now st = None \<longleftrightarrow> (\<forall>j \<in> set (st_jobs st). \<not> claimable now j)"
proof -
  have "next_job now st = None \<longleftrightarrow> sort_key claim_order (filter (claimable now) (st_jobs st)) = []"
    by (auto simp: next_job_def split: list.splits)
  also have "\<dots> \<longleftrightarrow> filter (claimable now) (st_jobs st) = []"
    by (metis length_0_conv length_sort)
  finally show ?thesis by (simp add: filter_empty_conv)
qed

text \<open>A step updates jobs by \<open>g\<close> or appends one queued job; either way job by job.\<close>

definition job_step :: "job \<Rightarrow> job \<Rightarrow> bool" where
  "job_step j k \<longleftrightarrow> k = j \<or>
     (jb_id k = jb_id j \<and> job_key k = job_key j \<and> jb_payload k = jb_payload j \<and> jb_created_at k = jb_created_at j \<and>
      jb_attempts j \<le> jb_attempts k \<and> job_move (jb_state j) (jb_state k) \<and> (job_ok j \<longrightarrow> job_ok k))"

lemma job_step_refl [simp]: "job_step j j"
  by (simp add: job_step_def)

lemma job_step_key: "job_step j k \<Longrightarrow> jb_id k = jb_id j \<and> job_key k = job_key j"
  by (auto simp: job_step_def)

lemma leased_step:
  assumes "claimable now j" "worker \<noteq> ''''"
  shows "job_step j (leased worker now lease j)"
proof -
  have state: "jb_state j = JobQueued \<or> jb_state j = JobRunning" using assms(1) by (auto simp: claimable_def)
  then have "job_move (jb_state j) JobRunning" by (auto intro: job_move.intros)
  moreover have "jb_state j \<noteq> JobSucceeded" using state by auto
  ultimately show ?thesis using assms(2) by (simp add: job_step_def leased_def job_key_def job_ok_def)
qed

lemma completed_step: "holds_lease i worker now j \<Longrightarrow> job_step j (completed result now j)"
  by (auto simp: job_step_def completed_def job_key_def holds_lease_def job_ok_def intro: job_move.intros)

lemma failed_step:
  "holds_lease i worker now j \<Longrightarrow> code \<noteq> '''' \<Longrightarrow> job_step j (failed_job code message now backoff limit j)"
  by (auto simp: job_step_def failed_job_def job_key_def holds_lease_def job_ok_def intro: job_move.intros)

definition jobs_map :: "(job \<Rightarrow> job) \<Rightarrow> store \<Rightarrow> store" where
  "jobs_map g st = st\<lparr>st_jobs := map g (st_jobs st)\<rparr>"

lemma claim_shape:
  assumes "distinct (map jb_id (st_jobs st))"
  shows "\<exists>g. fst (claim worker now lease st) = jobs_map g st \<and> (\<forall>j \<in> set (st_jobs st). job_step j (g j))"
proof (cases "worker = '''' \<or> is_zero_time now \<or> lease \<le> 0 \<or> next_job now st = None")
  case True
  then show ?thesis by (intro exI [of _ id]) (auto simp: claim_def jobs_map_def)
next
  case False
  then obtain j where j: "next_job now st = Some j" by auto
  note n = next_jobD [OF j]
  have "k = j" if "k \<in> set (st_jobs st)" "jb_id k = jb_id j" for k
    using assms n(1) that by (auto simp: distinct_map inj_on_def)
  then have "job_step k (if jb_id k = jb_id j then leased worker now lease k else k)"
    if "k \<in> set (st_jobs st)" for k
    using that n(2) False by (auto intro: leased_step)
  then show ?thesis
    using False j
    by (intro exI [of _ "\<lambda>k. if jb_id k = jb_id j then leased worker now lease k else k"])
      (auto simp: claim_def jobs_map_def update_rows_def)
qed

lemma complete_shape:
  "\<exists>g. fst (complete_job L i worker result now st) = jobs_map g st \<and> (\<forall>j \<in> set (st_jobs st). job_step j (g j))"
proof (cases "i = '''' \<or> worker = '''' \<or> is_zero_time now \<or> \<not> lb_json_valid L result")
  case True
  then show ?thesis by (intro exI [of _ id]) (auto simp: complete_job_def jobs_map_def)
next
  case False
  then show ?thesis
    by (intro exI [of _ "\<lambda>k. if holds_lease i worker now k then completed result now k else k"])
      (auto simp: complete_job_def jobs_map_def update_rows_def completed_step)
qed

lemma fail_shape:
  "\<exists>g. fst (fail_job i worker code message now backoff limit st) = jobs_map g st \<and>
     (\<forall>j \<in> set (st_jobs st). job_step j (g j))"
proof (cases "i = '''' \<or> worker = '''' \<or> code = '''' \<or> is_zero_time now \<or> backoff < 0 \<or> limit < 1")
  case True
  then show ?thesis by (intro exI [of _ id]) (auto simp: fail_job_def jobs_map_def)
next
  case False
  then show ?thesis
    by (intro exI [of _ "\<lambda>k. if holds_lease i worker now k then failed_job code message now backoff limit k else k"])
      (auto simp: fail_job_def jobs_map_def update_rows_def failed_step)
qed

lemma enqueue_rows_Inr:
  assumes "enqueue_rows L ob j receipt now st = Inr st'"
  shows "st_jobs st' = st_jobs st @ [queued_job j now]" "jb_id j \<notin> jb_id ` set (st_jobs st)"
    "st_observations st' = st_observations st @ [(ob, now)]" "ob_id ob \<notin> (ob_id \<circ> fst) ` set (st_observations st)"
    "\<exists>rs. st_receipts st' = st_receipts st @ rs \<and>
       (\<forall>r \<in> set rs. rw_observation_id r = ob_id ob \<and> rw_job_id r = jb_id j)"
  using assms
  by (auto simp: enqueue_rows_def insert_observation_def insert_receipt_def result_simps split: option.splits)

lemma enqueue_shape:
  "(\<exists>st1. fst (enqueue_observation L ob j receipt now st) = st1 \<and>
      enqueue_rows L ob j receipt now st = Inr st1 \<and> find_row job_key (job_key j) (st_jobs st) = None) \<or>
   fst (enqueue_observation L ob j receipt now st) = st"
  by (auto simp: enqueue_observation_def transaction_def bind_result_def split: option.splits sum.splits)

lemma queued_job_ok: "job_ok (queued_job j now)" "jb_id (queued_job j now) = jb_id j" "job_key (queued_job j now) = job_key j"
  by (simp_all add: queued_job_def job_ok_def job_key_def)

lemma jobs_map_ok:
  assumes ok: "jobs_ok st" and g: "\<And>j. j \<in> set (st_jobs st) \<Longrightarrow> job_step j (g j)"
  shows "jobs_ok (jobs_map g st)"
proof -
  have ids: "map jb_id (map g (st_jobs st)) = map jb_id (st_jobs st)"
    "map job_key (map g (st_jobs st)) = map job_key (st_jobs st)"
    using g job_step_key by (simp_all add: map_eq_conv)
  have "job_ok (g j)" if "j \<in> set (st_jobs st)" for j
    using ok g [OF that] that by (auto simp: job_step_def jobs_ok_def)
  moreover have "jb_id ` g ` set (st_jobs st) = jb_id ` set (st_jobs st)"
    using ids(1) by (metis list.set_map)
  moreover have "distinct (map jb_id (map g (st_jobs st)))" "distinct (map job_key (map g (st_jobs st)))"
    unfolding ids using ok by (simp_all add: jobs_ok_def)
  ultimately show ?thesis
    using ok unfolding jobs_ok_def jobs_map_def by simp
qed

lemma enqueue_rows_ok:
  assumes ok: "jobs_ok st" and rows: "enqueue_rows L ob j receipt now st = Inr st'"
    and fresh: "find_row job_key (job_key j) (st_jobs st) = None"
  shows "jobs_ok st'"
proof -
  note e = enqueue_rows_Inr [OF rows]
  obtain rs where rs: "st_receipts st' = st_receipts st @ rs"
      "\<forall>r \<in> set rs. rw_observation_id r = ob_id ob \<and> rw_job_id r = jb_id j"
    using e(5) by blast
  have "job_key j \<notin> job_key ` set (st_jobs st)" using fresh by (simp add: find_row_None)
  then show ?thesis
    using ok e(1-4) rs unfolding jobs_ok_def by (auto simp: queued_job_ok)
qed

lemma queue_step_shape:
  assumes "queue_step L st st'" and "jobs_ok st"
  shows "(\<exists>g. st' = jobs_map g st \<and> (\<forall>j \<in> set (st_jobs st). job_step j (g j))) \<or>
    (\<exists>ob j receipt now. enqueue_rows L ob j receipt now st = Inr st' \<and> find_row job_key (job_key j) (st_jobs st) = None)"
  using assms(1)
proof cases
  case (enqueue ob j receipt now)
  then show ?thesis
    using enqueue_shape [of L ob j receipt now st] by (auto simp: jobs_map_def intro!: exI [of _ "\<lambda>j. j"])
next
  case (claimed worker now lease)
  then show ?thesis using claim_shape assms(2) unfolding jobs_ok_def by metis
next
  case (completed i worker result now)
  then show ?thesis using complete_shape by metis
next
  case (failed i worker code message now backoff limit)
  then show ?thesis using fail_shape by metis
qed

lemma queue_step_ok: "queue_step L st st' \<Longrightarrow> jobs_ok st \<Longrightarrow> jobs_ok st'"
  by (frule (1) queue_step_shape) (auto intro: jobs_map_ok enqueue_rows_ok)

lemma queue_step_job:
  assumes "queue_step L st st'" "jobs_ok st" "j \<in> set (st_jobs st)"
  shows "\<exists>k \<in> set (st_jobs st'). job_step j k"
  using queue_step_shape [OF assms(1,2)] assms(3) enqueue_rows_Inr(1)
  by (fastforce simp: jobs_map_def)

lemma queue_steps_ok: "(queue_step L)\<^sup>*\<^sup>* st st' \<Longrightarrow> jobs_ok st \<Longrightarrow> jobs_ok st'"
  by (induction rule: rtranclp_induct) (auto intro: queue_step_ok)

lemma job_step_terminal: "job_step j k \<Longrightarrow> terminal j \<Longrightarrow> k = j"
  by (auto simp: job_step_def terminal_def job_move_succeeded job_move_failed job_move_canceled)

lemma terminal_stays:
  assumes "(queue_step L)\<^sup>*\<^sup>* st st'" "jobs_ok st" "j \<in> set (st_jobs st)" "terminal j"
  shows "j \<in> set (st_jobs st')"
  using assms
proof (induction rule: rtranclp_induct)
  case (step y z)
  then have "jobs_ok y" using queue_steps_ok by blast
  then obtain k where "k \<in> set (st_jobs z)" "job_step j k" using queue_step_job step by blast
  then show ?case using job_step_terminal step.prems(3) by blast
qed simp

end
