(* ===== verification/WorkerInv.thy ===== *)
theory WorkerInv
  imports Worker JobInv "HOL-Library.Sublist"
begin

text \<open>
  The calls of the formation worker, one by one: which tables each of them may change,
  that they only append rows, and that they keep the database and the queue well
  formed. A relation between databases that is kept by each call is kept by their
  sequence; the locale states this once and is interpreted for each such relation.
\<close>

section \<open>Sequences of calls\<close>

locale call_relation =
  fixes R :: "store \<Rightarrow> store \<Rightarrow> bool"
  assumes refl: "R st st"
    and trans: "R st st' \<Longrightarrow> R st' st'' \<Longrightarrow> R st st''"
begin

lemma and_then:
  assumes "R st (fst r)" and "\<And>x. snd r = Inr x \<Longrightarrow> R (fst r) (fst (f x (fst r)))"
  shows "R st (fst (and_then r f))"
  using assms by (auto simp: and_then_def intro: trans split: sum.splits)

lemma with_value:
  assumes "\<And>x. r = Inr x \<Longrightarrow> R st (fst (f x))"
  shows "R st (fst (with_value r st f))"
  using assms by (auto simp: with_value_def intro: refl split: sum.splits)

lemma ensure_episodes:
  assumes "\<And>ep os st. R st (fst (put_episode ep os st))"
  shows "R st (fst (ensure_episodes b evs st))"
  by (induction evs arbitrary: st) (simp_all add: refl and_then assms)

lemma ensure_functional_references:
  assumes "\<And>ep os st. R st (fst (put_episode ep os st))" "\<And>w st. R st (fst (put_working_set w st))"
  shows "R st (fst (ensure_functional_references C clk p j b st))"
  unfolding ensure_functional_references_def
  by (intro with_value and_then)
    (auto simp: refl ensure_working_set_def ensure_episodes [OF assms(1)] assms(2) split: option.splits)

lemma embed_formed:
  assumes "\<And>v p m t vs at' st. R st (fst (put_embedding L v p m t vs at' st))"
  shows "R st (fst (embed_formed L c clk v st))"
  unfolding embed_formed_def
  by (auto simp: refl assms intro!: with_value split: option.splits list.splits)

lemma form_and_apply:
  assumes "\<And>ep os st. R st (fst (put_episode ep os st))" "\<And>w st. R st (fst (put_working_set w st))"
    "\<And>v p m t vs at' st. R st (fst (put_embedding L v p m t vs at' st))"
    and "\<And>st. R st (fst (apply_formed L clk (fj_apply_scope j) p st))"
  shows "R st (fst (form_and_apply L C c clk j b p st))"
  unfolding form_and_apply_def
  by (intro and_then ensure_functional_references embed_formed assms) (simp add: refl)

end

section \<open>What each call writes\<close>

lemma insert_outcome_Inr:
  "insert_outcome oc st = Inr st' \<Longrightarrow> st' = st\<lparr>st_outcomes := st_outcomes st @ [oc]\<rparr>"
  by (auto simp: insert_outcome_def result_simps)

lemma fold_insert_outcome:
  "fold_result insert_outcome os st1 = Inr st2 \<Longrightarrow> st2 = st1\<lparr>st_outcomes := st_outcomes st1 @ os\<rparr>"
  by (induction os arbitrary: st1) (fastforce simp: bind_result_Inr dest: insert_outcome_Inr)+

lemma put_episode_Inr:
  assumes "put_episode ep os st = (st', Inr x)"
  shows "\<exists>r. es_id r = ep_id ep \<and> st' = st\<lparr>st_episodes := st_episodes st @ [r], st_outcomes := st_outcomes st @ os\<rparr>"
  using assms
  by (intro exI [of _ "\<lparr>es_id = ep_id ep, es_namespace = sc_namespace (ep_scope ep), es_subject = sc_subject (ep_scope ep),
      es_task = ep_task ep, es_observation_ids = ep_observation_ids ep, es_started_at = ep_started_at ep,
      es_ended_at = ep_ended_at ep\<rparr>"])
    (auto simp: put_episode_def insert_episode_def result_simps dest!: fold_insert_outcome)

lemma put_working_set_Inr:
  "put_working_set w st = (st', Inr x) \<Longrightarrow> \<exists>r. st' = st\<lparr>st_working_sets := st_working_sets st @ [r]\<rparr>"
  by (auto simp: put_working_set_def result_simps)

definition embedding_key :: "embedding_row \<Rightarrow> ident \<times> string \<times> string" where
  "embedding_key e = (eb_version e, eb_provider e, eb_model e)"

lemma put_embedding_stores:
  "put_embedding L v p m t vs at' st = (st', Inr x) \<Longrightarrow>
   \<exists>e. eb_version e = v \<and> eb_provider e = p \<and> eb_model e = m \<and> v \<in> fx_version ` set (st_fts st) \<and>
     st' = st\<lparr>st_embeddings := upsert_embedding e (st_embeddings st)\<rparr>"
  by (auto simp: put_embedding_def result_simps split: option.splits if_splits dest!: find_row_SomeD)
    (force simp: result_simps)+

text \<open>A transaction that fails has written nothing.\<close>

lemma put_episode_Inl: "put_episode ep os st = (st', Inl e) \<Longrightarrow> st' = st"
  by (simp add: put_episode_def)

lemma put_working_set_Inl: "put_working_set w st = (st', Inl e) \<Longrightarrow> st' = st"
  by (simp add: put_working_set_def)

lemma put_embedding_Inl: "put_embedding L v p m t vs at' st = (st', Inl e) \<Longrightarrow> st' = st"
  by (simp add: put_embedding_def)

lemmas call_failed = put_episode_Inl put_working_set_Inl put_embedding_Inl

lemma apply_formed_state:
  "fst (apply_formed L clk sc p st) = st \<or>
   fst (apply_formed L clk sc p st) = fst (apply_proposal_authorized L st p sc (ck_apply clk))"
  using service_state [of L "owner_policy L" "apply_proposal_authorized L" st sc p "ck_apply clk"]
  by (cases "service_apply L (owner_policy L) (apply_proposal_authorized L) st sc p (ck_apply clk)") (simp add: apply_formed_def)

text \<open>A create changes nothing or appends one memory of the authorized scope.\<close>

lemma apply_formed_cases:
  assumes "pr_kind p = ProposalCreate"
  obtains (kept) "fst (apply_formed L clk sc p st) = st"
  | (created) m v o' where "fst (apply_formed L clk sc p st) = (add_memory m v st)\<lparr>st_operations := st_operations st @ [o']\<rparr>"
      "scope_authorizes_create sc (me_scope m)"
      "find_apply st (pr_id p) = None" "op_phase o' = PhaseApply" "op_proposal_id o' = pr_id p"
proof -
  consider "fst (apply_formed L clk sc p st) = st"
    | "fst (apply_formed L clk sc p st) = fst (apply_proposal_authorized L st p sc (ck_apply clk))"
    using apply_formed_state by metis
  then show thesis
  proof cases
    case 2
    obtain st' r where run: "apply_proposal_authorized L st p sc (ck_apply clk) = (st', r)" by fastforce
    show thesis
    proof (cases "st' = st")
      case False
      with run obtain a where "apply_with L st p (Some sc) (sc_actor sc) (ck_apply clk) = (st', Inr a)"
        using apply_with_failed by (cases r) (auto simp: apply_proposal_authorized_def split: option.splits)
      with False have "apply_fresh L st p (Some sc) (sc_actor sc) (ck_apply clk) = Inr (st', a)"
        and none: "find_apply st (pr_id p) = None"
        by (auto simp: apply_with_Inr load_applied_proposal_def bind_result_Inr split: option.splits)
      then obtain st1 m v where "apply_create L st p (Some sc) (ck_apply clk) = Inr (st1, m, v)"
        and "insert_operation (apply_operation L p (sc_actor sc) (ck_apply clk) m) st1 = Inr st'"
        using assms by (auto simp: apply_fresh_def apply_mutation_def bind_result_Inr)
      then have "st1 = add_memory m v st" "scope_authorizes_create sc (me_scope m)"
        and "st' = st1\<lparr>st_operations := st_operations st1 @ [apply_operation L p (sc_actor sc) (ck_apply clk) m]\<rparr>"
        by (auto simp: apply_create_Inr insert_operation_Inr create_memory_def)
      then show thesis using 2 run none
        by (intro created [where m = m and v = v and o' = "apply_operation L p (sc_actor sc) (ck_apply clk) m"])
          (simp_all add: apply_operation_def)
    qed (use 2 run kept in simp)
  qed (use kept in simp)
qed

text \<open>What every call of the worker keeps is shown on the row it writes.\<close>

lemma put_episode_cases:
  assumes row: "\<And>r. P (st\<lparr>st_episodes := st_episodes st @ [r], st_outcomes := st_outcomes st @ os\<rparr>)" and same: "P st"
  shows "P (fst (put_episode ep os st))"
proof -
  obtain st' r where run: "put_episode ep os st = (st', r)" by fastforce
  show ?thesis
  proof (cases r)
    case (Inl e)
    then have "st' = st" using run put_episode_Inl by simp
    then show ?thesis using run same by simp
  next
    case (Inr x)
    then obtain q where "st' = st\<lparr>st_episodes := st_episodes st @ [q], st_outcomes := st_outcomes st @ os\<rparr>"
      using run put_episode_Inr by blast
    then show ?thesis using run row by simp
  qed
qed

lemma put_working_set_cases:
  assumes row: "\<And>r. P (st\<lparr>st_working_sets := st_working_sets st @ [r]\<rparr>)" and same: "P st"
  shows "P (fst (put_working_set w st))"
proof -
  obtain st' r where run: "put_working_set w st = (st', r)" by fastforce
  show ?thesis
  proof (cases r)
    case (Inl e)
    then have "st' = st" using run put_working_set_Inl by simp
    then show ?thesis using run same by simp
  next
    case (Inr x)
    then obtain q where "st' = st\<lparr>st_working_sets := st_working_sets st @ [q]\<rparr>"
      using run put_working_set_Inr by blast
    then show ?thesis using run row by simp
  qed
qed

lemma put_embedding_cases:
  assumes row: "\<And>e. eb_version e \<in> fx_version ` set (st_fts st) \<Longrightarrow> embedding_key e = (v, p, m) \<Longrightarrow>
      P (st\<lparr>st_embeddings := upsert_embedding e (st_embeddings st)\<rparr>)" and same: "P st"
  shows "P (fst (put_embedding L v p m t vs at' st))"
proof -
  obtain st' r where run: "put_embedding L v p m t vs at' st = (st', r)" by fastforce
  show ?thesis
  proof (cases r)
    case (Inl e)
    then have "st' = st" using run put_embedding_Inl by simp
    then show ?thesis using run same by simp
  next
    case (Inr x)
    then obtain e where "eb_version e \<in> fx_version ` set (st_fts st)" "embedding_key e = (v, p, m)"
        "st' = st\<lparr>st_embeddings := upsert_embedding e (st_embeddings st)\<rparr>"
      using put_embedding_stores [of L v p m t vs at' st st' x] run by (auto simp: embedding_key_def)
    then show ?thesis using run row by simp
  qed
qed

section \<open>Rows are only appended\<close>

definition only_adds :: "store \<Rightarrow> store \<Rightarrow> bool" where
  "only_adds st st' \<longleftrightarrow>
     prefix (st_memories st) (st_memories st') \<and> prefix (st_versions st) (st_versions st') \<and>
     prefix (st_dependencies st) (st_dependencies st') \<and> prefix (st_fts st) (st_fts st') \<and>
     prefix (st_episodes st) (st_episodes st') \<and> prefix (st_outcomes st) (st_outcomes st') \<and>
     prefix (st_working_sets st) (st_working_sets st') \<and> prefix (st_operations st) (st_operations st') \<and>
     st_observations st' = st_observations st \<and> st_receipts st' = st_receipts st \<and> st_traces st' = st_traces st \<and>
     st_feedback st' = st_feedback st \<and> st_tokens st' = st_tokens st \<and>
     st_purge_receipts st' = st_purge_receipts st \<and> st_artifact_refs st' = st_artifact_refs st"

interpretation adds: call_relation only_adds
  by unfold_locales (auto simp: only_adds_def intro: prefix_order.trans)

interpretation jobs: call_relation "\<lambda>st st'. st_jobs st' = st_jobs st"
  by unfold_locales auto

interpretation memories: call_relation "\<lambda>st st'. st_memories st' = st_memories st"
  by unfold_locales auto

interpretation embeddings: call_relation "\<lambda>st st'. st_embeddings st' = st_embeddings st"
  by unfold_locales auto

interpretation keeps: call_relation "\<lambda>st st'. store_ok st \<longrightarrow> store_ok st'"
  by unfold_locales auto

lemma add_memory_frame [simp]:
  "st_observations (add_memory m v st) = st_observations st" "st_episodes (add_memory m v st) = st_episodes st"
  "st_outcomes (add_memory m v st) = st_outcomes st" "st_working_sets (add_memory m v st) = st_working_sets st"
  "st_receipts (add_memory m v st) = st_receipts st" "st_traces (add_memory m v st) = st_traces st"
  "st_feedback (add_memory m v st) = st_feedback st" "st_tokens (add_memory m v st) = st_tokens st"
  "st_purge_receipts (add_memory m v st) = st_purge_receipts st" "st_artifact_refs (add_memory m v st) = st_artifact_refs st"
  "st_jobs (add_memory m v st) = st_jobs st" "prefix (st_fts st) (st_fts (add_memory m v st))"
  by (simp_all add: add_memory_def add_version_def index_version_def)

lemma form_and_apply_adds:
  assumes "pr_kind p = ProposalCreate"
  shows "only_adds st (fst (form_and_apply L C c clk j b p st))"
proof (rule adds.form_and_apply)
  show "only_adds st (fst (apply_formed L clk (fj_apply_scope j) p st))" for st
    by (rule apply_formed_cases [OF assms, of L clk "fj_apply_scope j" st]) (simp_all add: adds.refl, simp add: only_adds_def)
  show "only_adds st (fst (put_episode ep os st))" for ep os st
    by (rule put_episode_cases [where P = "only_adds st"]) (simp_all add: only_adds_def)
  show "only_adds st (fst (put_working_set w st))" for w st
    by (rule put_working_set_cases [where P = "only_adds st"]) (simp_all add: only_adds_def)
  show "only_adds st (fst (put_embedding L v p m t vs at' st))" for v p m t vs at' st
    by (rule put_embedding_cases [where P = "only_adds st"]) (simp_all add: only_adds_def)
qed

lemma call_jobs:
  "st_jobs (fst (put_episode ep os st)) = st_jobs st" "st_jobs (fst (put_working_set w st)) = st_jobs st"
  "st_jobs (fst (put_embedding L v p m t vs at' st)) = st_jobs st"
  by (rule put_episode_cases [where P = "\<lambda>s. st_jobs s = st_jobs st"], simp_all)
    (rule put_working_set_cases [where P = "\<lambda>s. st_jobs s = st_jobs st"]
      put_embedding_cases [where P = "\<lambda>s. st_jobs s = st_jobs st"], simp_all)+

lemma form_and_apply_jobs:
  assumes "pr_kind p = ProposalCreate"
  shows "st_jobs (fst (form_and_apply L C c clk j b p st)) = st_jobs st"
proof (rule jobs.form_and_apply)
  show "st_jobs (fst (apply_formed L clk (fj_apply_scope j) p st)) = st_jobs st" for st
    by (rule apply_formed_cases [OF assms, of L clk "fj_apply_scope j" st]) simp_all
qed (rule call_jobs)+

lemma store_ok_upsert:
  assumes "store_ok st" "eb_version e \<in> fx_version ` set (st_fts st)"
  shows "store_ok (st\<lparr>st_embeddings := upsert_embedding e (st_embeddings st)\<rparr>)"
proof -
  let ?s = "st\<lparr>st_embeddings := upsert_embedding e (st_embeddings st)\<rparr>"
  have "version_scope ?s = version_scope st" by (rule version_scope_cong) simp_all
  moreover have "eb_version r \<in> fx_version ` set (st_fts st)" if "r \<in> set (upsert_embedding e (st_embeddings st))" for r
    using that assms by (auto simp: store_ok_def index_ok_def upsert_embedding_def Let_def set_update_rows split: if_splits)
  ultimately show ?thesis using assms(1)
    by (simp add: store_ok_def keys_ok_def edges_ok_def chain_ok_def flow_ok_def index_ok_def memories_ok_def)
qed

text \<open>The one row a call may rewrite: an embedding under its key, a job under its id.\<close>

definition only_embedding :: "ident \<times> string \<times> string \<Rightarrow> store \<Rightarrow> store \<Rightarrow> bool" where
  "only_embedding k st st' \<longleftrightarrow>
     filter (\<lambda>e. embedding_key e \<noteq> k) (st_embeddings st') = filter (\<lambda>e. embedding_key e \<noteq> k) (st_embeddings st)"

definition only_job :: "ident \<Rightarrow> store \<Rightarrow> store \<Rightarrow> bool" where
  "only_job i st st' \<longleftrightarrow>
     filter (\<lambda>j. jb_id j \<noteq> i) (st_jobs st') = filter (\<lambda>j. jb_id j \<noteq> i) (st_jobs st) \<and>
     map jb_id (st_jobs st') = map jb_id (st_jobs st) \<and> map job_key (st_jobs st') = map job_key (st_jobs st) \<and>
     map jb_payload (st_jobs st') = map jb_payload (st_jobs st)"

interpretation job_row: call_relation "only_job i" for i
  by unfold_locales (auto simp: only_job_def)

lemma filter_update_rows:
  "(\<And>x. p x \<Longrightarrow> \<not> q x \<and> \<not> q (f x)) \<Longrightarrow> filter q (update_rows p f xs) = filter q xs"
  by (induction xs) (auto simp: update_rows_def)

lemma only_embedding_upsert:
  "only_embedding (embedding_key e) st (st\<lparr>st_embeddings := upsert_embedding e (st_embeddings st)\<rparr>)"
  unfolding only_embedding_def upsert_embedding_def embedding_key_def Let_def
  by (auto intro!: filter_update_rows)

lemma only_job_update:
  assumes "\<And>j. p j \<Longrightarrow> jb_id j = i"
    and "\<And>j. jb_id (f j) = jb_id j" "\<And>j. job_key (f j) = job_key j" "\<And>j. jb_payload (f j) = jb_payload j"
  shows "only_job i st (st\<lparr>st_jobs := update_rows p f (st_jobs st)\<rparr>)"
  using assms by (auto simp: only_job_def filter_update_rows map_key_update_rows)

lemma queue_call_rows:
  "next_job now st = Some j \<Longrightarrow> only_job (jb_id j) st (fst (claim worker now lease st))"
  "only_job i st (fst (complete_job L i worker result now st))"
  "only_job i st (fst (fail_job i worker code message now backoff limit st))"
  by (auto simp: claim_def complete_job_def fail_job_def job_row.refl leased_def completed_def failed_job_def job_key_def
      holds_lease_def intro!: only_job_update)

lemma form_and_apply_embeddings:
  assumes "pr_kind p = ProposalCreate"
  shows "\<exists>n. only_embedding (n, wk_embedding_provider c, wk_embedding_model c) st (fst (form_and_apply L C c clk j b p st))"
proof -
  let ?same = "\<lambda>st st'. st_embeddings st' = st_embeddings st"
  have calls: "?same st (fst (put_episode ep os st))" "?same st (fst (put_working_set w st))" for ep os w st
    by (rule put_episode_cases [where P = "?same st"], simp_all) (rule put_working_set_cases [where P = "?same st"], simp_all)
  have refs: "?same st (fst (ensure_functional_references C clk p j b st))" for st
    by (rule embeddings.ensure_functional_references) (rule calls)+
  have applied: "?same st (fst (apply_formed L clk (fj_apply_scope j) p st))" for st
    by (rule apply_formed_cases [OF assms, of L clk "fj_apply_scope j" st])
      (simp_all add: add_memory_def add_version_def index_version_def)
  have put: "only_embedding (mv_id v, wk_embedding_provider c, wk_embedding_model c) st (fst (embed_formed L c clk v st))" for v st
  proof -
    have "only_embedding (n, k, m) st (fst (put_embedding L n k m t vs at' st))" for n k m t vs at'
      by (rule put_embedding_cases [where P = "only_embedding (n, k, m) st"])
        (use only_embedding_upsert in \<open>metis, simp add: only_embedding_def\<close>)
    then show ?thesis
      by (auto simp: embed_formed_def with_value_def only_embedding_def split: option.splits sum.splits list.splits)
  qed
  let ?r1 = "ensure_functional_references C clk p j b st"
  let ?r2 = "apply_formed L clk (fj_apply_scope j) p (fst ?r1)"
  have base: "st_embeddings (fst ?r1) = st_embeddings st" "st_embeddings (fst ?r2) = st_embeddings st"
    using refs applied by simp_all
  show ?thesis
  proof (cases "snd ?r1")
    case (Inr u)
    note one = and_then_Inr [OF Inr]
    show ?thesis
    proof (cases "snd ?r2")
      case (Inr m)
      let ?r3 = "embed_formed L c clk (am_version m) (fst ?r2)"
      have "fst (and_then ?r3 (\<lambda>_ st. (st, Inr m))) = fst ?r3" by (simp add: and_then_def split: sum.splits)
      then show ?thesis
        using put [of "am_version m" "fst ?r2"] base
        by (intro exI [of _ "mv_id (am_version m)"]) (simp add: form_and_apply_def one and_then_Inr [OF Inr] only_embedding_def)
    qed (use base in \<open>simp add: form_and_apply_def one and_then_Inl only_embedding_def\<close>)
  qed (use base in \<open>simp add: form_and_apply_def and_then_Inl only_embedding_def\<close>)
qed

lemma calls_ok:
  assumes "store_ok st"
  shows "store_ok (fst (put_episode ep os st))" "store_ok (fst (put_working_set w st))"
    "store_ok (fst (put_embedding L v p m t vs at' st))"
proof -
  show "store_ok (fst (put_episode ep os st))"
  proof (rule put_episode_cases)
    show "store_ok (st\<lparr>st_episodes := st_episodes st @ [r], st_outcomes := st_outcomes st @ os\<rparr>)" for r
      using assms by (subst store_ok_cong [where t = st]) simp_all
  qed (rule assms)
  show "store_ok (fst (put_working_set w st))"
  proof (rule put_working_set_cases)
    show "store_ok (st\<lparr>st_working_sets := st_working_sets st @ [r]\<rparr>)" for r
      using assms by (subst store_ok_cong [where t = st]) simp_all
  qed (rule assms)
  show "store_ok (fst (put_embedding L v p m t vs at' st))"
    by (rule put_embedding_cases [where P = store_ok]) (simp_all add: assms store_ok_upsert)
qed

lemma form_and_apply_ok:
  assumes "store_ok st"
  shows "store_ok (fst (form_and_apply L C c clk j b p st))"
proof -
  have "store_ok st \<longrightarrow> store_ok (fst (form_and_apply L C c clk j b p st))"
  proof (rule keeps.form_and_apply)
    show "store_ok st \<longrightarrow> store_ok (fst (apply_formed L clk (fj_apply_scope j) p st))" for st
      using apply_formed_state [of L clk "fj_apply_scope j" p st] apply_authorized_ok [of st L p "fj_apply_scope j" "ck_apply clk"]
      by auto
  qed (simp_all add: calls_ok)
  with assms show ?thesis by blast
qed

end
