(* ===== verification/Samples.thy ===== *)
theory Samples
  imports LifecycleLaws Tokens
begin

text \<open>
  Concrete inputs: a library whose digest pads its argument and whose codec knows the
  four payloads below, one owner, and the databases reached by applying a create, a
  derived create, a supersede and a forget, each computed by the model itself.
\<close>

definition sample_time :: "int \<Rightarrow> gtime" where
  "sample_time n = (63902736000 + n) * 1000000000"

definition sample_scope :: scope where
  "sample_scope = \<lparr>sc_namespace = ''ns'', sc_owner = ''alice'', sc_subject = ''sub'', sc_actor = ''alice'',
     sc_context = '''', sc_visibility = VisibilityPrivate\<rparr>"

definition sample_access :: access_scope where
  "sample_access = \<lparr>ac_principal_id = ''alice'', ac_namespace = ''ns'', ac_private_owners = [''alice''],
     ac_allow_shared = False, ac_allow_public = False\<rparr>"

definition sample_taxonomy :: taxonomy where
  "sample_taxonomy = \<lparr>tx_forms = [''token-flat''], tx_functions = [''factual''],
     tx_dynamics = [''formation''], tx_tags = []\<rparr>"

definition sample_text :: "string \<Rightarrow> content" where
  "sample_text s = \<lparr>co_parts = [\<lparr>cp_kind = PartText, cp_text = s, cp_artifact = None\<rparr>]\<rparr>"

definition sample_fact :: "string \<Rightarrow> memory_payload" where
  "sample_fact s = \<lparr>pl_factual = Some \<lparr>fm_claim_subject = ''sub'', fm_predicate = ''likes'',
     fm_object = sample_text s, fm_epistemic = EpistemicAsserted, fm_confidence = None\<rparr>,
     pl_experiential = None, pl_working = None\<rparr>"

definition sample_evidence :: "evidence_ref list" where
  "sample_evidence = [\<lparr>er_observation_id = ''obs-1'', er_part_index = 0, er_excerpt = ''''\<rparr>]"

definition sample_create :: "string \<Rightarrow> ident list \<Rightarrow> memory_create" where
  "sample_create s derived = \<lparr>mc_scope = sample_scope, mc_function = FunctionFactual, mc_taxonomy = sample_taxonomy,
     mc_payload = sample_fact s, mc_provenance = sample_evidence, mc_valid_time = None,
     mc_conflict_group = '''', mc_derived_from = derived\<rparr>"

definition sample_observation :: observation where
  "sample_observation = \<lparr>ob_id = ''obs-1'', ob_scope = sample_scope, ob_source_kind = ''chat'', ob_source_reference = '''',
     ob_content = sample_text ''tea'', ob_evidence_class = EvidenceUntrusted, ob_policy_authority = '''',
     ob_captured_at = sample_time 0, ob_metadata = Map.empty\<rparr>"

definition sample_digest :: "string \<Rightarrow> string" where
  "sample_digest s = take 32 (s @ replicate 32 (CHR 0x00))"

definition sample_id :: "string \<Rightarrow> string \<Rightarrow> ident" where
  "sample_id prefix i = prefix @ ''-'' @ hex_encode (take 12 (sample_digest (CHR 0x00 # i)))"

definition sample_evolution :: memory_evolution where
  "sample_evolution = \<lparr>ev_mode = EvolutionSupersede, ev_taxonomy = sample_taxonomy, ev_payload = sample_fact ''coffee'',
     ev_provenance = sample_evidence, ev_valid_time = \<lparr>tr_from = sample_time 50, tr_to = None\<rparr>,
     ev_conflict_group = '''', ev_derived_from = []\<rparr>"

definition sample_lib :: lib where
  "sample_lib = \<lparr>lb_sha256 = sample_digest, lb_json_valid = (\<lambda>s. True),
     lb_decode_create = (\<lambda>s. if s = ''tea'' then Inr (sample_create ''tea'' [])
        else if s = ''derived'' then Inr (sample_create ''green tea'' [sample_id ''mv'' ''p1''])
        else Inl (Errorf ''json'')),
     lb_decode_evolution = (\<lambda>s. if s = ''coffee'' then Inr sample_evolution else Inl (Errorf ''json'')),
     lb_decode_empty = (\<lambda>s. if s = ''{}'' then Inr () else Inl (Errorf ''json'')),
     lb_encode_create = (\<lambda>c. ''tea''), lb_encode_evolution = (\<lambda>e. ''coffee'')\<rparr>"

definition sample_proposal :: "ident \<Rightarrow> proposal_kind \<Rightarrow> ident \<Rightarrow> string \<Rightarrow> proposal" where
  "sample_proposal i k target payload = \<lparr>pr_id = i, pr_namespace = ''ns'', pr_observation_ids = [''obs-1''],
     pr_kind = k, pr_target_id = target, pr_payload = payload, pr_strategy_id = ''manual'',
     pr_strategy_hash = replicate 64 (CHR ''0''), pr_provider = '''', pr_model = '''',
     pr_created_at = sample_time 0, pr_untrusted = False\<rparr>"

definition tea_proposal :: proposal where
  "tea_proposal = sample_proposal ''p1'' ProposalCreate '''' ''tea''"

definition derived_proposal :: proposal where
  "derived_proposal = sample_proposal ''p2'' ProposalCreate '''' ''derived''"

definition coffee_proposal :: proposal where
  "coffee_proposal = sample_proposal ''p3'' ProposalUpdate (sample_id ''mem'' ''p1'') ''coffee''"

definition forget_proposal :: proposal where
  "forget_proposal = sample_proposal ''p4'' ProposalForget (sample_id ''mem'' ''p1'') ''{}''"

section \<open>Databases reached by the model\<close>

definition sample_apply :: "proposal \<Rightarrow> int \<Rightarrow> store \<Rightarrow> store" where
  "sample_apply p n st = fst (apply_proposal_authorized sample_lib st p sample_scope (sample_time n))"

definition store_tea :: store where "store_tea = sample_apply tea_proposal 10 empty_store"
definition store_derived :: store where "store_derived = sample_apply derived_proposal 20 store_tea"
definition store_coffee :: store where "store_coffee = sample_apply coffee_proposal 100 store_derived"
definition store_forgotten :: store where "store_forgotten = sample_apply forget_proposal 200 store_coffee"

text \<open>The rows of these databases, as the model computes them; later evaluations start from them.\<close>

definition same_rows :: "store \<Rightarrow> store \<Rightarrow> bool" where
  "same_rows a b = (st_observations a = [] \<and> st_observations b = [] \<and>
     st_memories a = st_memories b \<and> st_versions a = st_versions b \<and> st_dependencies a = st_dependencies b \<and> st_fts a = st_fts b \<and>
     st_embeddings a = st_embeddings b \<and> st_episodes a = st_episodes b \<and> st_outcomes a = st_outcomes b \<and> st_working_sets a = st_working_sets b \<and>
     st_operations a = st_operations b \<and> st_traces a = st_traces b \<and> st_feedback a = st_feedback b \<and> st_jobs a = st_jobs b \<and>
     st_receipts a = st_receipts b \<and> st_tokens a = st_tokens b \<and> st_purge_receipts a = st_purge_receipts b \<and> st_artifact_refs a = st_artifact_refs b)"

lemma same_rows_eq: "same_rows a b \<Longrightarrow> a = b"
  by (rule store.equality) (simp_all add: same_rows_def)

lemma same_rows_code [code]:
  "same_rows a b = (List.null (st_observations a) \<and> List.null (st_observations b) \<and>
     st_memories a = st_memories b \<and> st_versions a = st_versions b \<and> st_dependencies a = st_dependencies b \<and> st_fts a = st_fts b \<and>
     st_embeddings a = st_embeddings b \<and> st_episodes a = st_episodes b \<and> st_outcomes a = st_outcomes b \<and> st_working_sets a = st_working_sets b \<and>
     st_operations a = st_operations b \<and> st_traces a = st_traces b \<and> st_feedback a = st_feedback b \<and> st_jobs a = st_jobs b \<and>
     st_receipts a = st_receipts b \<and> st_tokens a = st_tokens b \<and> st_purge_receipts a = st_purge_receipts b \<and> st_artifact_refs a = st_artifact_refs b)"
  by (simp add: same_rows_def)

definition tea_rows :: store where
  "tea_rows =
    \<lparr>st_observations = [],
    st_memories =
    [\<lparr>me_id = ''mem-007031000000000000000000'', me_scope = sample_scope, me_function = FunctionFactual,
      me_state = MemoryActive, me_current_version = 1, me_created_at = 63902736010000000000\<rparr>],
    st_versions =
    [\<lparr>mv_id = ''mv-007031000000000000000000'', mv_memory_id = ''mem-007031000000000000000000'', mv_number =
      1, mv_state = VersionCurrent, mv_taxonomy = sample_taxonomy, mv_valid_time = \<lparr>tr_from =
      63902736000000000000, tr_to = None\<rparr>, mv_system_time = \<lparr>tr_from = 63902736010000000000, tr_to =
      None\<rparr>, mv_conflict_group = [], mv_supersedes = [], mv_derived_from = [], mv_provenance =
      sample_evidence, mv_payload = sample_fact ''tea''\<rparr>],
    st_dependencies = [],
    st_fts =
    [\<lparr>fx_version = ''mv-007031000000000000000000'', fx_memory = ''mem-007031000000000000000000'',
      fx_namespace = ''ns'', fx_text = ''likes\<newline>tea''\<rparr>],
    st_embeddings = [], st_episodes = [], st_outcomes = [], st_working_sets = [],
    st_operations =
    [\<lparr>op_id = ''op-007031000000000000000000'', op_phase = PhaseApply, op_kind = ''create'', op_actor =
      ''alice'', op_target_id = ''mem-007031000000000000000000'', op_proposal_id = ''p1'', op_strategy_id =
      ''manual'', op_occurred_at = 63902736010000000000, op_result = ''applied''\<rparr>],
    st_traces = [], st_feedback = [], st_jobs = [], st_receipts = [], st_tokens = [], st_purge_receipts = [],
      st_artifact_refs = []\<rparr>"

definition derived_rows :: store where
  "derived_rows =
    \<lparr>st_observations = [],
    st_memories =
    [\<lparr>me_id = ''mem-007031000000000000000000'', me_scope = sample_scope, me_function = FunctionFactual,
      me_state = MemoryActive, me_current_version = 1, me_created_at = 63902736010000000000\<rparr>,
    \<lparr>me_id = ''mem-007032000000000000000000'', me_scope = sample_scope, me_function = FunctionFactual,
      me_state = MemoryActive, me_current_version = 1, me_created_at = 63902736020000000000\<rparr>],
    st_versions =
    [\<lparr>mv_id = ''mv-007031000000000000000000'', mv_memory_id = ''mem-007031000000000000000000'', mv_number =
      1, mv_state = VersionCurrent, mv_taxonomy = sample_taxonomy, mv_valid_time = \<lparr>tr_from =
      63902736000000000000, tr_to = None\<rparr>, mv_system_time = \<lparr>tr_from = 63902736010000000000, tr_to =
      None\<rparr>, mv_conflict_group = [], mv_supersedes = [], mv_derived_from = [], mv_provenance =
      sample_evidence, mv_payload = sample_fact ''tea''\<rparr>,
    \<lparr>mv_id = ''mv-007032000000000000000000'', mv_memory_id = ''mem-007032000000000000000000'', mv_number =
      1, mv_state = VersionCurrent, mv_taxonomy = sample_taxonomy, mv_valid_time = \<lparr>tr_from =
      63902736000000000000, tr_to = None\<rparr>, mv_system_time = \<lparr>tr_from = 63902736020000000000, tr_to =
      None\<rparr>, mv_conflict_group = [], mv_supersedes = [], mv_derived_from =
      [''mv-007031000000000000000000''], mv_provenance = sample_evidence, mv_payload = sample_fact
      ''green tea''\<rparr>],
    st_dependencies = [(''mv-007031000000000000000000'', ''mv-007032000000000000000000'')],
    st_fts =
    [\<lparr>fx_version = ''mv-007031000000000000000000'', fx_memory = ''mem-007031000000000000000000'',
      fx_namespace = ''ns'', fx_text = ''likes\<newline>tea''\<rparr>,
    \<lparr>fx_version = ''mv-007032000000000000000000'', fx_memory = ''mem-007032000000000000000000'',
      fx_namespace = ''ns'', fx_text = ''likes\<newline>green tea''\<rparr>],
    st_embeddings = [], st_episodes = [], st_outcomes = [], st_working_sets = [],
    st_operations =
    [\<lparr>op_id = ''op-007031000000000000000000'', op_phase = PhaseApply, op_kind = ''create'', op_actor =
      ''alice'', op_target_id = ''mem-007031000000000000000000'', op_proposal_id = ''p1'', op_strategy_id =
      ''manual'', op_occurred_at = 63902736010000000000, op_result = ''applied''\<rparr>,
    \<lparr>op_id = ''op-007032000000000000000000'', op_phase = PhaseApply, op_kind = ''create'', op_actor =
      ''alice'', op_target_id = ''mem-007032000000000000000000'', op_proposal_id = ''p2'', op_strategy_id =
      ''manual'', op_occurred_at = 63902736020000000000, op_result = ''applied''\<rparr>],
    st_traces = [], st_feedback = [], st_jobs = [], st_receipts = [], st_tokens = [], st_purge_receipts = [],
      st_artifact_refs = []\<rparr>"

definition coffee_rows :: store where
  "coffee_rows =
    \<lparr>st_observations = [],
    st_memories =
    [\<lparr>me_id = ''mem-007031000000000000000000'', me_scope = sample_scope, me_function = FunctionFactual,
      me_state = MemoryActive, me_current_version = 2, me_created_at = 63902736010000000000\<rparr>,
    \<lparr>me_id = ''mem-007032000000000000000000'', me_scope = sample_scope, me_function = FunctionFactual,
      me_state = MemoryActive, me_current_version = 1, me_created_at = 63902736020000000000\<rparr>],
    st_versions =
    [\<lparr>mv_id = ''mv-007031000000000000000000'', mv_memory_id = ''mem-007031000000000000000000'', mv_number =
      1, mv_state = VersionSuperseded, mv_taxonomy = sample_taxonomy, mv_valid_time = \<lparr>tr_from =
      63902736000000000000, tr_to = Some 63902736050000000000\<rparr>, mv_system_time = \<lparr>tr_from =
      63902736010000000000, tr_to = Some 63902736100000000000\<rparr>, mv_conflict_group = [], mv_supersedes = [],
      mv_derived_from = [], mv_provenance = sample_evidence, mv_payload = sample_fact ''tea''\<rparr>,
    \<lparr>mv_id = ''mv-007032000000000000000000'', mv_memory_id = ''mem-007032000000000000000000'', mv_number =
      1, mv_state = VersionStale, mv_taxonomy = sample_taxonomy, mv_valid_time = \<lparr>tr_from =
      63902736000000000000, tr_to = None\<rparr>, mv_system_time = \<lparr>tr_from = 63902736020000000000, tr_to =
      None\<rparr>, mv_conflict_group = [], mv_supersedes = [], mv_derived_from =
      [''mv-007031000000000000000000''], mv_provenance = sample_evidence, mv_payload = sample_fact
      ''green tea''\<rparr>,
    \<lparr>mv_id = ''mv-007033000000000000000000'', mv_memory_id = ''mem-007031000000000000000000'', mv_number =
      2, mv_state = VersionCurrent, mv_taxonomy = sample_taxonomy, mv_valid_time = \<lparr>tr_from =
      63902736050000000000, tr_to = None\<rparr>, mv_system_time = \<lparr>tr_from = 63902736100000000000, tr_to =
      None\<rparr>, mv_conflict_group = [], mv_supersedes = [''mv-007031000000000000000000''], mv_derived_from =
      [], mv_provenance = sample_evidence, mv_payload = sample_fact ''coffee''\<rparr>],
    st_dependencies = [(''mv-007031000000000000000000'', ''mv-007032000000000000000000'')],
    st_fts =
    [\<lparr>fx_version = ''mv-007031000000000000000000'', fx_memory = ''mem-007031000000000000000000'',
      fx_namespace = ''ns'', fx_text = ''likes\<newline>tea''\<rparr>,
    \<lparr>fx_version = ''mv-007032000000000000000000'', fx_memory = ''mem-007032000000000000000000'',
      fx_namespace = ''ns'', fx_text = ''likes\<newline>green tea''\<rparr>,
    \<lparr>fx_version = ''mv-007033000000000000000000'', fx_memory = ''mem-007031000000000000000000'',
      fx_namespace = ''ns'', fx_text = ''likes\<newline>coffee''\<rparr>],
    st_embeddings = [], st_episodes = [], st_outcomes = [], st_working_sets = [],
    st_operations =
    [\<lparr>op_id = ''op-007031000000000000000000'', op_phase = PhaseApply, op_kind = ''create'', op_actor =
      ''alice'', op_target_id = ''mem-007031000000000000000000'', op_proposal_id = ''p1'', op_strategy_id =
      ''manual'', op_occurred_at = 63902736010000000000, op_result = ''applied''\<rparr>,
    \<lparr>op_id = ''op-007032000000000000000000'', op_phase = PhaseApply, op_kind = ''create'', op_actor =
      ''alice'', op_target_id = ''mem-007032000000000000000000'', op_proposal_id = ''p2'', op_strategy_id =
      ''manual'', op_occurred_at = 63902736020000000000, op_result = ''applied''\<rparr>,
    \<lparr>op_id = ''op-007033000000000000000000'', op_phase = PhaseApply, op_kind = ''update'', op_actor =
      ''alice'', op_target_id = ''mem-007031000000000000000000'', op_proposal_id = ''p3'', op_strategy_id =
      ''manual'', op_occurred_at = 63902736100000000000, op_result = ''applied''\<rparr>],
    st_traces = [], st_feedback = [], st_jobs = [], st_receipts = [], st_tokens = [], st_purge_receipts = [],
      st_artifact_refs = []\<rparr>"

lemma store_tea_rows [code]: "store_tea = tea_rows"
  by (rule same_rows_eq) code_simp

lemma store_derived_rows [code]: "store_derived = derived_rows"
  by (rule same_rows_eq) code_simp

lemma store_coffee_rows [code]: "store_coffee = coffee_rows"
  by (rule same_rows_eq) code_simp

lemma sample_apply_ok: "store_ok st \<Longrightarrow> store_ok (sample_apply p n st)"
  using apply_with_ok by (auto simp: sample_apply_def apply_proposal_authorized_def split: option.splits)

lemma store_tea_ok: "store_ok store_tea"
  by (simp add: store_tea_def sample_apply_ok store_ok_empty)

lemma store_derived_ok: "store_ok store_derived"
  by (simp add: store_derived_def sample_apply_ok store_tea_ok)

lemma store_coffee_ok: "store_ok store_coffee"
  by (simp add: store_coffee_def sample_apply_ok store_derived_ok)

lemma store_forgotten_ok: "store_ok store_forgotten"
  by (simp add: store_forgotten_def sample_apply_ok store_coffee_ok)

text \<open>The versions of the three memories after each step, with their states.\<close>

lemma sample_states:
  "map (\<lambda>v. (mv_id v, mv_number v, mv_state v)) (st_versions store_coffee) =
     [(sample_id ''mv'' ''p1'', 1, VersionSuperseded), (sample_id ''mv'' ''p2'', 1, VersionStale),
      (sample_id ''mv'' ''p3'', 2, VersionCurrent)]"
  by code_simp

end
