(* ===== verification/StrategyProps.thy ===== *)
theory StrategyProps
  imports Strategy Samples
begin

text \<open>
  The hash of a strategy package identifies it: packages with the same content have the
  same hash however their sets are ordered and their JSON is written, and packages with
  the same canonical text have the same content.
\<close>

section \<open>Numbers and keys that can be encoded\<close>

lemma decimal_shape:
  assumes "0 \<le> n"
  shows "list_all is_digit (decimal n) \<and> decimal n \<noteq> [] \<and> (0 < n \<longrightarrow> hd (decimal n) \<noteq> CHR ''0'')"
  using assms
proof (induction n rule: decimal.induct)
  case (1 n)
  have digit: "is_digit (digit_char k)" "0 < k \<Longrightarrow> digit_char k \<noteq> CHR ''0''" if "0 \<le> k" "k < 10" for k
  proof -
    have d: "byte_of (digit_char k) = 48 + k" using that
      by (simp add: digit_char_def byte_of_def of_nat_of_char [symmetric, where ?'a = int])
    then show "is_digit (digit_char k)" using that by (simp add: is_digit_def)
    show "digit_char k \<noteq> CHR ''0''" if "0 < k"
    proof
      assume "digit_char k = CHR ''0''"
      then have "48 + k = 48" using d by (simp add: byte_of_def)
      with \<open>0 < k\<close> show False by simp
    qed
  qed
  show ?case
  proof (cases "n < 10")
    case True
    then have "decimal n = [digit_char n]" by (simp add: decimal.simps)
    then show ?thesis using digit [of n] True 1(2) by simp
  next
    case False
    then have "decimal n = decimal (n div 10) @ [digit_char (n mod 10)]" by (simp add: decimal.simps [of n])
    moreover have "0 < n div 10" using False by simp
    ultimately show ?thesis using 1(1) [OF False] digit(1) [of "n mod 10"] by simp
  qed
qed

lemma int_text_number_ok: "0 \<le> n \<Longrightarrow> number_ok (int_text n)"
proof -
  assume n: "0 \<le> n"
  obtain c cs where d: "decimal n = c # cs" using decimal_shape [OF n] by (cases "decimal n") auto
  have digits: "is_digit c" "list_all is_digit cs" using decimal_shape [OF n] d by auto
  have zero: "c = CHR ''0'' \<Longrightarrow> cs = []"
  proof -
    assume "c = CHR ''0''"
    then have "n = 0" using decimal_shape [OF n] d n by force
    then show "cs = []" using d by (simp add: decimal.simps)
  qed
  have "c \<noteq> CHR ''-''" using digits(1) by (auto simp: is_digit_def byte_of_def)
  moreover have "split_digits (c # cs) = (c # cs, [])"
    using digits by (simp add: split_digits_def list_all_iff)
  ultimately show ?thesis using n digits(1) zero
    by (auto simp: number_ok_def int_text_def d parse_number_def split_sign_def split_integer_def
        split_fraction_def split_exponent_def)
qed

lemma json_ok_JInt: "0 \<le> n \<Longrightarrow> json_ok d (JInt n)"
  by (simp add: JInt_def int_text_number_ok)

lemma object_text_json: "object_text (map (\<lambda>(k, v). (k, json_encode v)) kvs) = json_encode (JObject kvs)"
  by (simp add: object_text_def comp_def case_prod_unfold)

section \<open>The canonical value\<close>

text \<open>The value the canonical text of a package encodes, over its decoded parameters and schema.\<close>

definition canonical_members :: "package \<Rightarrow> json \<Rightarrow> json option \<Rightarrow> (string \<times> json) list" where
  "canonical_members p par sch =
     [(''id'', JString (pk_id p)), (''version'', JString (pk_version p)),
      (''implementation'', JString (pk_implementation p)),
      (''implementation_label'', JString (label_text (pk_label p))),
      (''fidelity'', JString (fidelity_text (pk_fidelity p)))] @
     (if pk_prompt p = '''' then [] else [(''prompt'', JString (pk_prompt p))]) @
     (case sch of None \<Rightarrow> [] | Some v \<Rightarrow> [(''json_schema'', v)]) @
     [(''parameters'', par), (''capabilities'', strings_json (sorted_unique (pk_capabilities p))),
      (''repair'', JObject [(''max_attempts'', JInt (rp_max_attempts (pk_repair p))), (''strict'', JBool (rp_strict (pk_repair p)))])] @
     (if pk_paper_sources p = [] then [] else [(''paper_sources'', strings_json (sorted_unique (pk_paper_sources p)))])"

definition decoded :: "string \<Rightarrow> json option" where
  "decoded raw = (if raw = '''' then None else map_option map_semantics (json_parse raw))"

lemma encode_not_empty: "json_ok d v \<Longrightarrow> json_encode v \<noteq> ''''"
  by (metis json_encode_first list.distinct(1))

lemma canonical_text:
  assumes "canonical_json p = Inr t" and "decoded (pk_parameters p) = Some par"
    and "\<And>v. decoded (pk_json_schema p) = Some v \<Longrightarrow> json_encode v \<noteq> ''''"
  shows "t = json_encode (JObject (canonical_members p par (decoded (pk_json_schema p))))"
proof -
  from assms(1) obtain pt sch where
    "canonical_raw (pk_parameters p) = Inr pt"
    and sch: "if pk_json_schema p = '''' then sch = '''' else canonical_raw (pk_json_schema p) = Inr sch"
    and t: "t = package_text (p\<lparr>pk_capabilities := sorted_unique (pk_capabilities p),
          pk_paper_sources := sorted_unique (pk_paper_sources p), pk_parameters := pt, pk_json_schema := sch\<rparr>)"
    unfolding canonical_json_Inr by blast
  then have pt: "pt = json_encode par"
    using assms(2) by (auto simp: canonical_raw_def decoded_def split: option.splits if_splits)
  show ?thesis
  proof (cases "pk_json_schema p = ''''")
    case True
    then show ?thesis using sch unfolding t object_text_json [of "canonical_members p par (decoded (pk_json_schema p))", symmetric]
      by (simp add: pt decoded_def package_text_def canonical_members_def del: json_encode.simps(6))
  next
    case False
    then obtain v where v: "decoded (pk_json_schema p) = Some v" "sch = json_encode v"
      using sch by (auto simp: canonical_raw_def decoded_def split: option.splits)
    then have "sch \<noteq> ''''" using assms(3) by simp
    then show ?thesis using v unfolding t object_text_json [of "canonical_members p par (decoded (pk_json_schema p))", symmetric]
      by (simp add: pt package_text_def canonical_members_def del: json_encode.simps(6))
  qed
qed

text \<open>What a package must hold for its text to determine it: no invalid UTF-8 and no over-deep JSON.\<close>

definition readable :: "package \<Rightarrow> bool" where
  "readable p \<longleftrightarrow> list_all valid_utf8 (pk_id p # pk_version p # pk_implementation p # pk_prompt p #
       pk_capabilities p @ pk_paper_sources p) \<and>
     list_all (\<lambda>raw. case decoded raw of None \<Rightarrow> True | Some v \<Rightarrow> json_ok 1 v) [pk_parameters p, pk_json_schema p]"

lemma strings_json_ok: "d < 10000 \<Longrightarrow> list_all valid_utf8 xs \<Longrightarrow> json_ok d (strings_json (sorted_unique xs))"
  by (simp add: strings_json_def list_all_iff)

lemma ascii_valid:
  "list_all valid_utf8 [''id'', ''version'', ''implementation'', ''implementation_label'', ''fidelity'', ''prompt'',
     ''json_schema'', ''parameters'', ''capabilities'', ''repair'', ''max_attempts'', ''strict'', ''paper_sources'',
     ''baseline'', ''reference'', ''adapter'', ''experimental'', ''reproduction'',
     ''none'', ''conceptual'', ''protocol-compatible'', ''result-verified'']"
  by code_simp

lemma package_validate_named:
  assumes "package_validate p = None"
  shows "pk_label p \<noteq> LabelOther s" and "pk_fidelity p \<noteq> FidelityOther s" and "0 \<le> rp_max_attempts (pk_repair p)"
  using assms unfolding package_validate_def by (auto split: if_splits)

lemma canonical_members_ok:
  assumes "readable p" and "package_validate p = None" and "json_ok 1 par"
    and "\<And>v. sch = Some v \<Longrightarrow> json_ok 1 v"
  shows "json_ok 0 (JObject (canonical_members p par sch))"
proof -
  note ascii = ascii_valid [simplified]
  have "valid_utf8 (label_text (pk_label p))"
    using package_validate_named(1) [OF assms(2), of "label_text (pk_label p)"] ascii by (cases "pk_label p"; simp)
  moreover have "valid_utf8 (fidelity_text (pk_fidelity p))"
    using package_validate_named(2) [OF assms(2), of "fidelity_text (pk_fidelity p)"] ascii by (cases "pk_fidelity p"; simp)
  moreover note package_validate_named(3) [OF assms(2)]
  ultimately show ?thesis
    using assms(1,3,4) ascii strings_json_ok [of 1]
    by (cases sch) (auto simp: canonical_members_def readable_def json_ok_JInt)
qed

lemma label_text_inject: "package_validate p = None \<Longrightarrow> package_validate q = None \<Longrightarrow>
    label_text (pk_label p) = label_text (pk_label q) \<Longrightarrow> pk_label p = pk_label q"
  using package_validate_named(1) [of p "label_text (pk_label p)"] package_validate_named(1) [of q "label_text (pk_label q)"]
  by (cases "pk_label p"; cases "pk_label q") simp_all

lemma fidelity_text_inject: "package_validate p = None \<Longrightarrow> package_validate q = None \<Longrightarrow>
    fidelity_text (pk_fidelity p) = fidelity_text (pk_fidelity q) \<Longrightarrow> pk_fidelity p = pk_fidelity q"
  using package_validate_named(2) [of p "fidelity_text (pk_fidelity p)"] package_validate_named(2) [of q "fidelity_text (pk_fidelity q)"]
  by (cases "pk_fidelity p"; cases "pk_fidelity q") simp_all

lemma strings_json_inject [simp]: "strings_json xs = strings_json ys \<longleftrightarrow> xs = ys"
  unfolding strings_json_def by (auto dest: map_injective simp: inj_def)

definition same_content :: "package \<Rightarrow> package \<Rightarrow> bool" where
  "same_content p q \<longleftrightarrow>
     pk_id p = pk_id q \<and> pk_version p = pk_version q \<and> pk_implementation p = pk_implementation q \<and>
     pk_label p = pk_label q \<and> pk_fidelity p = pk_fidelity q \<and> pk_prompt p = pk_prompt q \<and>
     rp_max_attempts (pk_repair p) = rp_max_attempts (pk_repair q) \<and> rp_strict (pk_repair p) = rp_strict (pk_repair q) \<and>
     set (pk_capabilities p) = set (pk_capabilities q) \<and> set (pk_paper_sources p) = set (pk_paper_sources q) \<and>
     decoded (pk_parameters p) = decoded (pk_parameters q) \<and> decoded (pk_json_schema p) = decoded (pk_json_schema q)"

lemma decimal_inject: "0 \<le> a \<Longrightarrow> 0 \<le> b \<Longrightarrow> decimal a = decimal b \<Longrightarrow> a = b"
proof (induction a arbitrary: b rule: decimal.induct)
  case (1 a)
  have unfold_b: "decimal n = (if n < 10 then [digit_char n] else decimal (n div 10) @ [digit_char (n mod 10)])" for n
    by (rule decimal.simps)
  have len: "decimal (n div 10) \<noteq> []" if "0 \<le> n" for n
    using decimal_shape [of "n div 10"] that by simp
  show ?case
  proof (cases "a < 10"; cases "b < 10")
    assume "a < 10" "b < 10"
    then show ?thesis using 1 digit_char_eq [of a b] by (simp add: unfold_b [of a] unfold_b [of b])
  next
    assume a: "\<not> a < 10" and b: "\<not> b < 10"
    then have "decimal (a div 10) = decimal (b div 10)" "digit_char (a mod 10) = digit_char (b mod 10)"
      using 1(4) by (simp_all add: unfold_b [of a] unfold_b [of b])
    then have "a div 10 = b div 10" "a mod 10 = b mod 10"
      using 1(1) [OF a, of "b div 10"] 1(2,3) digit_char_eq [of "a mod 10" "b mod 10"] by simp_all
    then show ?thesis by (metis div_mult_mod_eq)
  qed (use 1(2-4) len [of a] len [of b] in \<open>auto simp: unfold_b [of a] unfold_b [of b]\<close>)
qed

lemma canonical_members_content:
  assumes "package_validate p = None" "package_validate q = None"
    and "canonical_members p par (decoded (pk_json_schema p)) = canonical_members q par' (decoded (pk_json_schema q))"
  shows "par = par'" and "decoded (pk_parameters p) = Some par \<Longrightarrow> decoded (pk_parameters q) = Some par' \<Longrightarrow> same_content p q"
proof -
  have rep: "0 \<le> rp_max_attempts (pk_repair p)" "0 \<le> rp_max_attempts (pk_repair q)"
    using package_validate_named(3) assms(1,2) by blast+
  have *: "par = par' \<and> pk_id p = pk_id q \<and> pk_version p = pk_version q \<and> pk_implementation p = pk_implementation q \<and>
     label_text (pk_label p) = label_text (pk_label q) \<and> fidelity_text (pk_fidelity p) = fidelity_text (pk_fidelity q) \<and>
     pk_prompt p = pk_prompt q \<and> decoded (pk_json_schema p) = decoded (pk_json_schema q) \<and>
     JInt (rp_max_attempts (pk_repair p)) = JInt (rp_max_attempts (pk_repair q)) \<and> rp_strict (pk_repair p) = rp_strict (pk_repair q) \<and>
     sorted_unique (pk_capabilities p) = sorted_unique (pk_capabilities q) \<and>
     sorted_unique (pk_paper_sources p) = sorted_unique (pk_paper_sources q)"
    using assms(3) unfolding canonical_members_def
    by (cases "pk_prompt p = ''''"; cases "pk_prompt q = ''''"; cases "decoded (pk_json_schema p)";
        cases "decoded (pk_json_schema q)"; cases "pk_paper_sources p = []"; cases "pk_paper_sources q = []") simp_all
  then show "par = par'" by blast
  from * have "JInt (rp_max_attempts (pk_repair p)) = JInt (rp_max_attempts (pk_repair q))" by blast
  then have "decimal (rp_max_attempts (pk_repair p)) = decimal (rp_max_attempts (pk_repair q))"
    unfolding JInt_def int_text_def json.inject using rep by simp
  note attempts = decimal_inject [OF rep this]
  have set_eq: "set xs = set ys" if "sorted_unique xs = sorted_unique ys" for xs ys
    using that set_sorted_unique by metis
  have caps: "set (pk_capabilities p) = set (pk_capabilities q)" "set (pk_paper_sources p) = set (pk_paper_sources q)"
    by (rule set_eq; use * in blast)+
  have labels: "pk_label p = pk_label q" "pk_fidelity p = pk_fidelity q"
    by (rule label_text_inject [OF assms(1,2)], use * in blast)
       (rule fidelity_text_inject [OF assms(1,2)], use * in blast)
  show "same_content p q" if par: "decoded (pk_parameters p) = Some par" "decoded (pk_parameters q) = Some par'"
  proof -
    from * have "par = par'" by blast
    with par have "decoded (pk_parameters p) = decoded (pk_parameters q)" by (simp only:)
    with * attempts caps labels show ?thesis unfolding same_content_def by blast
  qed
qed

lemma decoded_parameters: "package_validate p = None \<Longrightarrow> \<exists>par. decoded (pk_parameters p) = Some par"
  by (cases "pk_parameters p") (auto simp: package_validate_def json_valid_def decoded_def json_parse_def skip_space_def)

text \<open>
  C38. The canonical text is exactly the content: two valid packages have the same
  canonical JSON, and so the same hash, precisely when they agree on every field, with
  capabilities and sources compared as sets and parameters and schema as JSON values,
  whatever their white space, key order, repeated keys or escapes.
\<close>

theorem canonical_json_is_content:
  assumes "package_validate p = None" and "package_validate q = None" and "readable p" and "readable q"
  shows "canonical_json p = canonical_json q \<longleftrightarrow> same_content p q"
proof -
  obtain par par' where par: "decoded (pk_parameters p) = Some par" "decoded (pk_parameters q) = Some par'"
    using decoded_parameters assms(1,2) by blast
  obtain t u where t: "canonical_json p = Inr t" and u: "canonical_json q = Inr u"
    using package_hash_total assms(1,2) by blast
  let ?ps = "canonical_members p par (decoded (pk_json_schema p))"
  let ?qs = "canonical_members q par' (decoded (pk_json_schema q))"
  have ok: "json_ok 1 v" if "readable r" "decoded (pk_json_schema r) = Some v \<or> decoded (pk_parameters r) = Some v" for r v
    using that by (auto simp: readable_def)
  have texts: "t = json_encode (JObject ?ps)" "u = json_encode (JObject ?qs)"
    using canonical_text [OF t par(1)] canonical_text [OF u par(2)] encode_not_empty ok assms(3,4) by metis+
  have "json_ok 0 (JObject ?ps)" "json_ok 0 (JObject ?qs)"
    using canonical_members_ok [OF assms(3,1)] canonical_members_ok [OF assms(4,2)] ok assms(3,4) par by auto
  then have "t = u \<longleftrightarrow> ?ps = ?qs" unfolding texts by (metis json_parse_encode json.inject(5) option.inject)
  moreover have "?ps = ?qs" if "same_content p q"
  proof -
    have "pk_paper_sources p = [] \<longleftrightarrow> pk_paper_sources q = []" using that by (auto simp: same_content_def)
    moreover have "par = par'" using that par by (simp add: same_content_def)
    ultimately show ?thesis
      using that sorted_unique_set [of "pk_capabilities p" "pk_capabilities q"]
        sorted_unique_set [of "pk_paper_sources p" "pk_paper_sources q"]
      unfolding canonical_members_def same_content_def by simp
  qed
  ultimately show ?thesis using canonical_members_content(2) [OF assms(1,2)] par t u by auto
qed

definition sample_package :: "string list \<Rightarrow> string \<Rightarrow> package" where
  "sample_package caps params = \<lparr>pk_id = ''formation.factual'', pk_version = ''1.0.0'', pk_implementation = ''builtin'',
     pk_label = LabelReference, pk_fidelity = FidelityConceptual, pk_prompt = '''', pk_json_schema = '''',
     pk_parameters = params, pk_capabilities = caps, pk_repair = \<lparr>rp_max_attempts = 1, rp_strict = True\<rparr>,
     pk_paper_sources = []\<rparr>"

theorem canonical_json_is_content_witness:
  "(canonical_json (sample_package [''b'', ''a''] ''[1, {}]'') = canonical_json (sample_package [''a'', ''b'', ''a''] ''[1,{} ]'')) = True"
proof -
  have "package_validate (sample_package [''b'', ''a''] ''[1, {}]'') = None"
    "package_validate (sample_package [''a'', ''b'', ''a''] ''[1,{} ]'') = None"
    "readable (sample_package [''b'', ''a''] ''[1, {}]'')" "readable (sample_package [''a'', ''b'', ''a''] ''[1,{} ]'')"
    by code_simp+
  from canonical_json_is_content [OF this]
  show ?thesis by (simp add: same_content_def) code_simp
qed

end
