(* ===== verification/FormationProps.thy ===== *)
theory FormationProps
  imports Formation StrategyProps Samples
begin

text \<open>
  What formation guarantees: typed proposals whatever the generator answers, and a
  baseline that always has one.
\<close>

section \<open>Strategies and what they form\<close>

lemma schema_valid: "known_function f \<Longrightarrow> json_valid (schema f)"
proof -
  have "json_valid (schema FunctionFactual)" "json_valid (schema FunctionExperiential)"
    "json_valid (schema FunctionWorking)" by code_simp+
  then show "known_function f \<Longrightarrow> json_valid (schema f)" by (cases f) auto
qed

lemma package_definition_valid:
  assumes "known_function f" and "valid_utf8 provider" "valid_utf8 model"
  shows "package_validate (package_definition f mode provider model) = None"
proof -
  have keys: "list_all valid_utf8 [''function'', ''mode'', ''provider'', ''model'', ''factual'', ''experiential'', ''working'',
      ''generator-free'', ''assisted'']" by code_simp
  have "json_ok 0 (map_semantics (JObject [(''function'', JString (function_text f)),
        (''mode'', JString (formation_mode_text mode)), (''provider'', JString provider), (''model'', JString model)]))"
    using assms keys by (cases f; cases mode) (auto simp: go_map_def)
  then have "json_valid (pk_parameters (package_definition f mode provider model))"
    by (simp only: package_definition_def package.simps json_valid_encode)
  moreover have "\<not> is_blank (pk_id (package_definition f mode provider model))"
  proof -
    have "list_all (\<lambda>s. \<not> is_blank s) [''formation.factual.generator-free'', ''formation.experiential.generator-free'',
      ''formation.working.generator-free'', ''formation.factual.assisted'', ''formation.experiential.assisted'',
      ''formation.working.assisted'']" by code_simp
    then show ?thesis using assms(1) by (cases f; cases mode) (auto simp: package_definition_def)
  qed
  moreover have "\<not> is_blank ''1.0.0''" "\<not> is_blank ''internal/strategy/formation''" by code_simp+
  ultimately show ?thesis using schema_valid [OF assms(1)]
    by (auto simp: package_validate_def package_definition_def)
qed

lemma new_strategy_shape:
  assumes "new_generator_free f = Inr s \<or> new_assisted f gen provider model = Inr s"
  shows "known_function f" "fs_function s = f"
    "fs_mode s = ModeGeneratorFree \<and> fs_provider s = '''' \<and> fs_model s = '''' \<and> fs_generator s = None \<or>
     fs_mode s = ModeAssisted \<and> \<not> is_blank (fs_provider s) \<and> \<not> is_blank (fs_model s) \<and> fs_generator s \<noteq> None"
    "fs_definition s = package_definition f (fs_mode s) (fs_provider s) (fs_model s)"
  using assms
  by (auto simp: new_generator_free_def new_assisted_def guard_check_Inr validate_function_def is_blank_def
      split: memory_function.splits)

lemma formation_taxonomy_valid:
  assumes "known_function f"
  shows "taxonomy_validate (formation_taxonomy f mode) = None"
proof -
  have "list_all (\<lambda>f. list_all (\<lambda>m. taxonomy_validate (formation_taxonomy f m) = None) [ModeGeneratorFree, ModeAssisted])
    [FunctionFactual, FunctionExperiential, FunctionWorking]" by code_simp
  then show ?thesis using assms by (cases f; cases mode) auto
qed

text \<open>A formed working payload names the task of the observation.\<close>

lemma formation_payload_task:
  assumes "formation_payload L s b = Inr payload" and "pl_working payload = Some w"
  shows "wm_task_id w = sc_context (ob_scope b)"
  using assms
  by (auto simp: formation_payload_def baseline_payload_def assisted_payload_def output_payload_def guard_check_Inr
      bind_result_Inr factual_payload_def lesson_of_def experiential_payload_def task_memory_of_def working_payload_def Let_def
      split: if_splits memory_function.splits)

lemma propose_Inr:
  "propose L s b = Inr p \<longleftrightarrow> observation_validate b = None \<and>
     (\<exists>payload hash. formation_payload L s b = Inr payload \<and> payload_validate (fs_function s) payload = None \<and>
        payload_encodable payload \<and> package_hash L (fs_definition s) = Inr hash \<and>
        p = formation_proposal L s b (lb_encode_create L (formation_create s b payload)) hash \<and> proposal_validate L p = None)"
  by (auto simp: propose_def guard_check_Inr bind_result_Inr wrap_result_Inr Let_def)

lemma formation_create_valid:
  assumes "new_generator_free f = Inr s \<or> new_assisted f gen provider model = Inr s"
    and "observation_validate b = None" "formation_payload L s b = Inr payload" "payload_validate (fs_function s) payload = None"
  shows "create_validate (formation_create s b payload) = None"
proof -
  note shape = new_strategy_shape [OF assms(1)]
  have "scope_validate (ob_scope b) = None" "co_parts (ob_content b) \<noteq> []"
    using assms(2) content_validate_parts by (auto simp: observation_validate_def simp del: scope_validate_None)
  moreover have "taxonomy_validate (formation_taxonomy f (fs_mode s)) = None" using formation_taxonomy_valid shape(1) .
  ultimately show ?thesis
    using assms(4) shape(2) formation_payload_task [OF assms(3)]
    by (auto simp: create_validate_def formation_create_def working_task_matches_def formation_provenance_def
        simp del: scope_validate_None split: option.splits)
qed

text \<open>
  C22. Whatever a generator answers, a strategy built by either constructor emits only
  well-typed create proposals: the payload encodes a create request that passes the
  validation of the lifecycle, in the scope of the observation, of the function of the
  strategy, with every part of the observation as its evidence and no dependency; the
  proposal itself validates, names no existing memory, is marked untrusted unless the
  observation is policy, names a provider exactly when a model assisted, and the owner
  policy lets it through in the scope of the observation.
\<close>

theorem formed_proposals_are_typed:
  assumes "new_generator_free f = Inr s \<or> new_assisted f gen provider model = Inr s"
    and "propose L s b = Inr p"
  shows "\<exists>c. pr_payload p = lb_encode_create L c \<and> create_validate c = None \<and> mc_scope c = ob_scope b \<and>
      mc_function c = f \<and> known_function f \<and> mc_derived_from c = [] \<and>
      map er_part_index (mc_provenance c) = map int [0..<length (co_parts (ob_content b))] \<and>
      er_observation_id ` set (mc_provenance c) = {ob_id b} \<and>
      proposal_validate L p = None \<and> pr_kind p = ProposalCreate \<and> pr_target_id p = '''' \<and>
      pr_namespace p = sc_namespace (ob_scope b) \<and> pr_observation_ids p = [ob_id b] \<and>
      (pr_untrusted p \<longleftrightarrow> ob_evidence_class b \<noteq> EvidencePolicy) \<and>
      (pr_provider p = '''' \<longleftrightarrow> fs_mode s = ModeGeneratorFree) \<and>
      (lb_decode_create L (pr_payload p) = Inr c \<longrightarrow>
         owner_policy L (ob_scope b) p = Inr (decision True ''owner_create''))"
proof -
  note shape = new_strategy_shape [OF assms(1)]
  obtain payload hash where
    formed: "observation_validate b = None" "formation_payload L s b = Inr payload" "payload_validate (fs_function s) payload = None"
    and p: "p = formation_proposal L s b (lb_encode_create L (formation_create s b payload)) hash" "proposal_validate L p = None"
    using assms(2) unfolding propose_Inr by blast
  have "create_validate (formation_create s b payload) = None"
    using formation_create_valid [OF assms(1) formed] .
  moreover have "co_parts (ob_content b) \<noteq> []"
    using formed(1) content_validate_parts by (auto simp: observation_validate_def)
  then have "er_observation_id ` set (formation_provenance b) = {ob_id b}"
    by (force simp: formation_provenance_def)
  moreover have "map er_part_index (formation_provenance b) = map int [0..<length (co_parts (ob_content b))]"
    by (simp add: formation_provenance_def)
  moreover have "owner_policy L (ob_scope b) p = Inr (decision True ''owner_create'')"
    if "lb_decode_create L (pr_payload p) = Inr (formation_create s b payload)"
    using that by (simp add: p(1) formation_proposal_def owner_policy_def formation_create_def)
  moreover have "pr_provider p = '''' \<longleftrightarrow> fs_mode s = ModeGeneratorFree"
    using shape(3) by (auto simp: p(1) formation_proposal_def is_blank_def)
  ultimately show ?thesis using shape(1,2) p
    by (intro exI [of _ "formation_create s b payload"]) (simp add: formation_proposal_def formation_create_def)
qed

text \<open>A model that answers with other capitals, spaces to trim and a confidence.\<close>

definition sample_generator :: generator where
  "sample_generator r = Inr \<lparr>gs_text = ''{\"Text\":\" green tea \",\"predicate\":\"prefers\",\"confidence\":9e-1}'',
     gs_finish_reason = ''stop'', gs_usage = \<lparr>us_input_tokens = 1, us_output_tokens = 1, us_total_tokens = 2\<rparr>\<rparr>"

definition assisted_strategy :: formation_strategy where
  "assisted_strategy = projr (new_assisted FunctionFactual (Some sample_generator) ''local'' ''model-1'')"

theorem formed_proposals_are_typed_witness:
  "\<exists>c p. propose sample_lib assisted_strategy sample_observation = Inr p \<and> create_validate c = None \<and>
     mc_function c = FunctionFactual \<and> pr_kind p = ProposalCreate \<and> pr_untrusted p \<and> pr_provider p \<noteq> ''''"
proof -
  have "\<not> isl (new_assisted FunctionFactual (Some sample_generator) ''local'' ''model-1'')" by code_simp
  then have new: "new_assisted FunctionFactual (Some sample_generator) ''local'' ''model-1'' = Inr assisted_strategy"
    by (simp add: assisted_strategy_def)
  have "\<not> isl (propose sample_lib assisted_strategy sample_observation)" by code_simp
  then obtain p where p: "propose sample_lib assisted_strategy sample_observation = Inr p"
    by (cases "propose sample_lib assisted_strategy sample_observation") simp_all
  have facts: "ob_evidence_class sample_observation = EvidenceUntrusted" "fs_mode assisted_strategy = ModeAssisted"
    by code_simp+
  from formed_proposals_are_typed [OF disjI2 [OF new] p] facts p show ?thesis by auto
qed

section \<open>The baseline always has a proposal\<close>

lemma deterministic_id_pattern:
  assumes "digest_ok L" "id_pattern prefix" "length prefix \<le> 100"
  shows "id_pattern (deterministic_id L prefix vs)"
proof -
  have "length (take 12 (lb_sha256 L x)) = 12" for x using assms(1) by (simp add: digest_ok_def)
  then show ?thesis using id_pattern_digest [OF assms(2)] assms(3) by (simp add: deterministic_id_def)
qed

definition goal_ok :: "observation \<Rightarrow> bool" where
  "goal_ok b \<longleftrightarrow> (let v = trim_space (metadata_at b ''goal'') in v = '''' \<or> content_validate (text_content v) = None)"

lemma baseline_payload_valid:
  assumes "digest_ok L" "observation_validate b = None" "known_function f"
    and "f = FunctionWorking \<Longrightarrow> sc_context (ob_scope b) \<noteq> '''' \<and> goal_ok b"
  shows "\<exists>payload. baseline_payload L f b = Inr payload \<and> payload_validate f payload = None \<and> payload_encodable payload"
proof -
  have prefixes: "id_pattern ''episode'' \<and> id_pattern ''outcome'' \<and> id_pattern ''working-set''
      \<and> validate_required_text ''factual.predicate'' ''observed-content'' 255 = None" by code_simp
  note ids = deterministic_id_pattern [OF assms(1)]
  have b: "id_pattern (ob_id b)" "scope_validate (ob_scope b) = None" "content_validate (ob_content b) = None"
    using assms(2) by (auto simp: observation_validate_def simp del: scope_validate_None)
  consider "f = FunctionFactual" | "f = FunctionExperiential" | "f = FunctionWorking" using assms(3) by (cases f) auto
  then show ?thesis
  proof cases
    case 1
    then show ?thesis using b prefixes
      by (simp add: baseline_payload_def factual_payload_def payload_validate_def payload_count_def factual_validate_def
          payload_encodable_def)
  next
    case 2
    then show ?thesis using b prefixes ids
      by (simp add: baseline_payload_def lesson_of_def experiential_payload_def payload_validate_def payload_count_def
          experiential_validate_def payload_encodable_def)
  next
    case 3
    then show ?thesis using assms(4) b prefixes ids
      by (auto simp: baseline_payload_def task_memory_of_def working_payload_def payload_validate_def payload_count_def
          working_validate_def payload_encodable_def goal_ok_def Let_def)
  qed
qed

text \<open>The two ways out of a task memory: no task in the scope, or a goal that is no valid content.\<close>

lemma baseline_working_fails:
  shows "sc_context (ob_scope b) = '''' \<Longrightarrow>
      baseline_payload L FunctionWorking b = Inl (Errorf ''working formation requires task context'')"
    and "sc_context (ob_scope b) \<noteq> '''' \<Longrightarrow> \<not> goal_ok b \<Longrightarrow>
      \<exists>payload. baseline_payload L FunctionWorking b = Inr payload \<and> payload_validate FunctionWorking payload \<noteq> None"
  by (auto simp: baseline_payload_def task_memory_of_def working_payload_def payload_validate_def payload_count_def
      working_validate_def goal_ok_def Let_def guard_check_def err_if_def simp del: not_None_eq)

text \<open>
  C23. What the generator-free baseline makes of a valid observation is decided by the
  class alone, and by the task for working memory: a factual or experiential memory is
  always proposed, by a proposal that validates; a working memory is proposed exactly
  when the observation names its task (the context of its scope) and its goal, if it
  gives one, is valid content. Without a task the answer is the error that asks for it,
  with a bad goal the one of the payload's validation.
\<close>

theorem baseline_proposes_iff:
  assumes "observation_validate b = None" and "known_function f"
    and "digest_ok L" and "\<And>c. lb_json_valid L (lb_encode_create L c)"
  shows "\<exists>s. new_generator_free f = Inr s \<and>
    (if f = FunctionWorking \<and> sc_context (ob_scope b) = ''''
       then propose L s b = Inl (Errorf ''working formation requires task context'')
     else if f = FunctionWorking \<and> \<not> goal_ok b
       then \<exists>e. propose L s b = Inl (Wrapped ''validate formed payload'' e)
     else \<exists>p. propose L s b = Inr p \<and> proposal_validate L p = None)"
proof -
  define s where "s = \<lparr>fs_mode = ModeGeneratorFree, fs_function = f, fs_generator = None, fs_provider = '''',
        fs_model = '''', fs_definition = package_definition f ModeGeneratorFree '''' ''''\<rparr>"
  have new: "new_generator_free f = Inr s"
    using assms(2) by (cases f) (simp_all add: new_generator_free_def s_def validate_function_def guard_check_def)
  have baseline: "formation_payload L s b = baseline_payload L f b" "fs_function s = f"
    by (simp_all add: formation_payload_def s_def)
  consider "f = FunctionWorking" "sc_context (ob_scope b) = ''''"
    | "f = FunctionWorking" "sc_context (ob_scope b) \<noteq> ''''" "\<not> goal_ok b"
    | "f = FunctionWorking \<Longrightarrow> sc_context (ob_scope b) \<noteq> '''' \<and> goal_ok b" by blast
  then show ?thesis
  proof cases
    case 1
    then show ?thesis using new assms(1) baseline baseline_working_fails(1) [of b L]
      by (simp add: propose_def guard_check_def bind_result_def wrap_check_def)
  next
    case 2
    then show ?thesis using new assms(1) baseline baseline_working_fails(2) [of b L]
      by (auto simp: propose_def guard_check_def bind_result_def wrap_check_def)
  next
    case 3
    then obtain payload where payload: "formation_payload L s b = Inr payload" "payload_validate (fs_function s) payload = None"
        "payload_encodable payload"
      using baseline_payload_valid [OF assms(3,1,2)] baseline by auto
    have "valid_utf8 ''''" by code_simp
    then have "package_validate (fs_definition s) = None" using package_definition_valid [OF assms(2)] by (simp add: s_def)
    then obtain t where hash: "package_hash L (fs_definition s) = Inr (hex_encode (lb_sha256 L t))"
      using package_hash_total by blast
    let ?p = "formation_proposal L s b (lb_encode_create L (formation_create s b payload)) (hex_encode (lb_sha256 L t))"
    have "id_pattern ''proposal''" by code_simp
    then have "id_pattern (pr_id ?p)" using deterministic_id_pattern [OF assms(3)] by (simp add: formation_proposal_def)
    moreover have "id_pattern (sc_namespace (ob_scope b))" "\<not> is_zero_time (ob_captured_at b)"
      using assms(1) by (auto simp: observation_validate_def)
    ultimately have "proposal_validate L ?p = None"
      using assms(3,4) by (auto simp: proposal_validate_def formation_proposal_def hex_decode_encode digest_ok_def
          package_definition_def s_def)
    then have "\<exists>p. propose L s b = Inr p \<and> proposal_validate L p = None"
      using assms(1) payload hash unfolding propose_Inr by blast
    with new 3 show ?thesis by auto
  qed
qed

theorem baseline_proposes_iff_witness:
  "(\<exists>s p. new_generator_free FunctionExperiential = Inr s \<and> propose sample_lib s sample_observation = Inr p) \<and>
   (\<exists>s. new_generator_free FunctionWorking = Inr s \<and>
      propose sample_lib s sample_observation = Inl (Errorf ''working formation requires task context''))"
proof -
  have "observation_validate sample_observation = None" by code_simp
  moreover have "digest_ok sample_lib" by (simp add: digest_ok_def sample_lib_def sample_digest_def min_def)
  moreover have "lb_json_valid sample_lib (lb_encode_create sample_lib c)" for c by (simp add: sample_lib_def)
  moreover have "sc_context (ob_scope sample_observation) = ''''" by code_simp
  ultimately show ?thesis
    using baseline_proposes_iff [of sample_observation FunctionExperiential sample_lib]
      baseline_proposes_iff [of sample_observation FunctionWorking sample_lib] by auto
qed

end
