(* ===== verification/JobProps.thy ===== *)
theory JobProps
  imports JobInv Samples
begin

text \<open>
  The properties of the job queue, over one sample queue: one captured observation with
  its job, claimed at second 20 for a minute and completed at second 30.
\<close>

section \<open>Sample queue\<close>

definition sample_job :: job where
  "sample_job = \<lparr>jb_id = ''job-1'', jb_namespace = ''ns'', jb_kind = ''formation'', jb_state = JobQueued,
     jb_idempotency_key = ''key-1'', jb_payload = ''form'', jb_result = None, jb_error_code = '''',
     jb_error_message = '''', jb_attempts = 0, jb_lease_owner = '''', jb_lease_expires_at = None,
     jb_available_at = 0, jb_created_at = 0, jb_updated_at = 0\<rparr>"

definition store_queued :: store where
  "store_queued = fst (enqueue_observation sample_lib sample_observation sample_job None (sample_time 10) empty_store)"

definition store_running :: store where
  "store_running = fst (claim ''w1'' (sample_time 20) 60000000000 store_queued)"

definition store_done :: store where
  "store_done = fst (complete_job sample_lib ''job-1'' ''w1'' ''{}'' (sample_time 30) store_running)"

definition running_job :: job where
  "running_job = leased ''w1'' (sample_time 20) 60000000000 (queued_job sample_job (sample_time 10))"

lemma jobs_ok_empty: "jobs_ok empty_store"
  by (simp add: jobs_ok_def empty_store_def)

lemma store_queued_step: "queue_step sample_lib empty_store store_queued"
  unfolding store_queued_def by (rule queue_step.enqueue)

lemma store_running_step: "queue_step sample_lib store_queued store_running"
  unfolding store_running_def by (rule queue_step.claimed)

lemma store_done_step: "queue_step sample_lib store_running store_done"
  unfolding store_done_def by (rule queue_step.completed)

lemma store_queued_ok: "jobs_ok store_queued"
  using queue_step_ok [OF store_queued_step jobs_ok_empty] .

lemma store_running_ok: "jobs_ok store_running"
  using queue_step_ok [OF store_running_step store_queued_ok] .

lemma store_done_ok: "jobs_ok store_done"
  using queue_step_ok [OF store_done_step store_running_ok] .

lemma running_stored: "running_job \<in> set (st_jobs store_running)"
  by code_simp

lemma running_job_sel:
  "jb_id running_job = ''job-1''" "jb_state running_job = JobRunning" "jb_lease_owner running_job = ''w1''"
  "jb_lease_expires_at running_job = Some (sample_time 80)"
  by (simp_all add: running_job_def leased_def queued_job_def sample_job_def sample_time_def)

section \<open>Interleavings\<close>

text \<open>
  Whatever the interleaving of enqueues, claims, completions and failures by any
  workers with any clocks, the job table stays well formed: one row per id and per
  idempotency key, a lease exactly on running jobs, a result exactly on succeeded
  ones, an error code on failed ones, and event receipts that name stored rows.
\<close>

theorem queue_keeps_jobs_ok:
  assumes "(queue_step L)\<^sup>*\<^sup>* st st'" and "jobs_ok st"
  shows "jobs_ok st'"
  by (rule queue_steps_ok [OF assms])

theorem queue_keeps_jobs_ok_witness: "jobs_ok store_done"
proof -
  have "(queue_step sample_lib)\<^sup>*\<^sup>* empty_store store_done"
    by (rule rtranclp.rtrancl_into_rtrancl [OF rtranclp.rtrancl_into_rtrancl [OF r_into_rtranclp]])
      (rule store_queued_step store_running_step store_done_step)+
  from queue_keeps_jobs_ok [OF this jobs_ok_empty] show ?thesis .
qed

text \<open>
  C14. Refinement: each call takes each job along the abstract machine of its state
  (queued to running, running to succeeded, failed, queued or running again) or leaves
  it, keeping its identity, idempotency key and payload and never lowering its attempts.
\<close>

theorem queue_refines_machine:
  assumes "queue_step L st st'" and "jobs_ok st" and "j \<in> set (st_jobs st)"
  shows "\<exists>k \<in> set (st_jobs st'). jb_id k = jb_id j \<and> job_key k = job_key j \<and> jb_payload k = jb_payload j \<and>
    jb_attempts j \<le> jb_attempts k \<and> (k = j \<or> job_move (jb_state j) (jb_state k))"
  using queue_step_job [OF assms] by (auto simp: job_step_def)

theorem queue_refines_machine_witness:
  "\<exists>k \<in> set (st_jobs store_done). jb_id k = ''job-1'' \<and> job_key k = job_key running_job"
  using queue_refines_machine [OF store_done_step store_running_ok running_stored] by (auto simp: running_job_sel)

text \<open>
  A finished job stays as it is: once succeeded, failed or canceled, its row with
  its result is the same after any further calls.
\<close>

theorem finished_job_is_final:
  assumes "(queue_step L)\<^sup>*\<^sup>* st st'" and "jobs_ok st" and "j \<in> set (st_jobs st)" "terminal j"
  shows "j \<in> set (st_jobs st')"
  by (rule terminal_stays [OF assms])

definition done_job :: job where
  "done_job = completed ''{}'' (sample_time 30) running_job"

lemma done_stored: "done_job \<in> set (st_jobs store_done)"
  by code_simp

theorem finished_job_is_final_witness:
  "done_job \<in> set (st_jobs (fst (claim ''w2'' (sample_time 200) 60000000000 store_done)))"
proof -
  have "(queue_step sample_lib)\<^sup>*\<^sup>* store_done (fst (claim ''w2'' (sample_time 200) 60000000000 store_done))"
    by (blast intro: queue_step.claimed)
  moreover have "terminal done_job" by (simp add: done_job_def completed_def terminal_def)
  ultimately show ?thesis using finished_job_is_final store_done_ok done_stored by blast
qed

section \<open>Leases\<close>

lemma claim_other:
  assumes "\<not> claimable now j" and "j \<in> set (st_jobs st)" and "distinct (map jb_id (st_jobs st))"
  shows "j \<in> set (st_jobs (fst (claim worker now lease st)))"
proof (cases "worker = '''' \<or> is_zero_time now \<or> lease \<le> 0 \<or> next_job now st = None")
  case True
  then show ?thesis using assms(2) by (auto simp: claim_def)
next
  case False
  then obtain k where k: "next_job now st = Some k" by auto
  have "k \<noteq> j" using next_jobD(2) [OF k] assms(1) by auto
  then have "jb_id j \<noteq> jb_id k" using next_jobD(1) [OF k] assms(2,3) by (auto simp: distinct_map inj_on_def)
  then show ?thesis using False k assms(2) by (auto simp: claim_def set_update_rows intro!: rev_image_eqI)
qed

lemma complete_other: "\<not> holds_lease i worker now j \<Longrightarrow> j \<in> set (st_jobs st) \<Longrightarrow>
    j \<in> set (st_jobs (fst (complete_job L i worker result now st)))"
  by (auto simp: complete_job_def set_update_rows intro!: rev_image_eqI)

lemma fail_other: "\<not> holds_lease i worker now j \<Longrightarrow> j \<in> set (st_jobs st) \<Longrightarrow>
    j \<in> set (st_jobs (fst (fail_job i worker code message now backoff limit st)))"
  by (auto simp: fail_job_def set_update_rows intro!: rev_image_eqI)

text \<open>
  C15. Mutual exclusion: while the lease of a running job has a second or more to run, no
  claim takes the job, and at no time can a worker that does not own the lease complete
  or fail it; the row stays exactly as it was. The second is the price of the text
  comparison (see \<open>lease_taken_early\<close>).
\<close>

theorem lease_excludes_others:
  assumes "jobs_ok st" and "j \<in> set (st_jobs st)" "jb_state j = JobRunning" "jb_lease_expires_at j = Some e"
    and "storable now" "storable e" "now + nanos_per_sec \<le> e" and "other \<noteq> jb_lease_owner j"
  shows "j \<in> set (st_jobs (fst (claim anyone now lease st))) \<and>
    j \<in> set (st_jobs (fst (complete_job L (jb_id j) other result t st))) \<and>
    j \<in> set (st_jobs (fst (fail_job (jb_id j) other code message t backoff limit st)))"
proof -
  have "\<not> text_le e now" using text_le_within_second(2) [OF assms(6,5)] assms(7) by fastforce
  then have "\<not> claimable now j" using assms(3,4) by (auto simp: claimable_def)
  moreover have "\<not> holds_lease (jb_id j) other t j" using assms(8) by (auto simp: holds_lease_def)
  ultimately show ?thesis
    using claim_other complete_other fail_other assms(1,2) by (auto simp: jobs_ok_def)
qed

theorem lease_excludes_others_witness:
  "running_job \<in> set (st_jobs (fst (claim ''w2'' (sample_time 30) 1000000000 store_running)))"
proof -
  have "storable (sample_time 30)" "storable (sample_time 80)" "sample_time 30 + nanos_per_sec \<le> sample_time 80"
    by code_simp+
  with lease_excludes_others [OF store_running_ok running_stored, of "sample_time 80" "sample_time 30" "''w2''"
      "''w2''" 1000000000]
  show ?thesis by (simp add: running_job_sel)
qed

text \<open>
  Claims are served in order and never lost: a claim answers \<open>ErrNoJob\<close> exactly
  when no job is queued and available or has an expired lease; otherwise it leases the
  first such job by availability, creation and id, counting the attempt.
\<close>

theorem claim_serves_oldest:
  assumes "worker \<noteq> ''''" and "now \<noteq> 0" and "0 < lease"
  shows "(case snd (claim worker now lease st) of
      Inl e \<Rightarrow> e = ErrNoJob \<and> (\<forall>j \<in> set (st_jobs st). \<not> claimable now j)
    | Inr k \<Rightarrow> (\<exists>j \<in> set (st_jobs st). claimable now j \<and> k = leased worker now lease j \<and>
        (\<forall>i \<in> set (st_jobs st). claimable now i \<longrightarrow> claim_order j \<le> claim_order i)))"
  using assms next_jobD [of now st] next_job_None [of now st]
  by (auto simp: claim_def is_zero_time_def split: option.splits)

theorem claim_serves_oldest_witness:
  "(case snd (claim ''w2'' (sample_time 30) 1000000000 store_running) of Inl e \<Rightarrow> e = ErrNoJob | Inr k \<Rightarrow> False)"
proof -
  have "filter (claimable (sample_time 30)) (st_jobs store_running) = []" by code_simp
  then show ?thesis
    using claim_serves_oldest [of "''w2''" "sample_time 30" 1000000000 store_running]
    by (auto simp: sample_time_def filter_empty_conv split: sum.splits)
qed

lemma filter_eq_single: "distinct xs \<Longrightarrow> x \<in> set xs \<Longrightarrow> filter (\<lambda>y. y = x) xs = [x]"
  by (induction xs) (auto simp: filter_empty_conv)

text \<open>
  The owner of a live lease can finish: its completion succeeds and the job is
  succeeded with the result and no lease.
\<close>

theorem owner_completes:
  assumes "jobs_ok st" and "j \<in> set (st_jobs st)" and "holds_lease (jb_id j) worker now j"
    and "jb_id j \<noteq> ''''" "worker \<noteq> ''''" "now \<noteq> 0" "lb_json_valid L result"
  shows "\<exists>st'. complete_job L (jb_id j) worker result now st = (st', Inr ()) \<and>
    completed result now j \<in> set (st_jobs st')"
proof -
  have "filter (holds_lease (jb_id j) worker now) (st_jobs st) = [j]"
  proof -
    have "filter (\<lambda>k. k = j) (st_jobs st) = [j]"
      using assms(1,2) by (intro filter_eq_single) (auto simp: jobs_ok_def distinct_map)
    moreover have "filter (holds_lease (jb_id j) worker now) (st_jobs st) = filter (\<lambda>k. k = j) (st_jobs st)"
    proof (rule filter_cong [OF refl])
      fix k assume k: "k \<in> set (st_jobs st)"
      show "holds_lease (jb_id j) worker now k \<longleftrightarrow> k = j"
        using assms(1-3) k by (auto simp: holds_lease_def jobs_ok_def distinct_map inj_on_def)
    qed
    ultimately show ?thesis by simp
  qed
  then show ?thesis
    using assms by (auto simp: complete_job_def is_zero_time_def require_lease_def set_update_rows
        intro!: rev_image_eqI)
qed

theorem owner_completes_witness:
  "\<exists>st'. complete_job sample_lib ''job-1'' ''w1'' ''{}'' (sample_time 30) store_running = (st', Inr ()) \<and>
     done_job \<in> set (st_jobs st')"
proof -
  have "holds_lease (jb_id running_job) ''w1'' (sample_time 30) running_job" by code_simp
  from owner_completes [OF store_running_ok running_stored this, of sample_lib "''{}''"] show ?thesis
    by (simp add: running_job_sel done_job_def sample_time_def sample_lib_def)
qed

section \<open>Enqueueing\<close>

text \<open>
  Idempotent enqueue: once a job with a namespace, kind and idempotency key is
  stored, enqueueing under that key again, with any valid observation of the namespace
  and with or without an event receipt, changes nothing and returns the stored job.
\<close>

theorem enqueue_is_idempotent:
  assumes "jobs_ok st" and "k \<in> set (st_jobs st)" "job_key k = job_key j"
    and "observation_validate ob = None" "job_validate_enqueue L j = None"
    and "jb_namespace j = sc_namespace (ob_scope ob)"
  shows "enqueue_observation L ob j receipt now st = (st, Inr (k, False))"
proof -
  have "find_row job_key (job_key j) (st_jobs st) = Some k"
    using assms(1-3) by (simp add: jobs_ok_def find_row_eq_Some)
  moreover have "first_error [wrap_check ''validate observation'' (observation_validate ob),
      wrap_check ''validate job'' (job_validate_enqueue L j),
      err_if (jb_namespace j \<noteq> sc_namespace (ob_scope ob)) ''observation and job namespaces differ''] = None"
    using assms(4-6) by simp
  ultimately show ?thesis unfolding enqueue_observation_def by (simp only: option.case)
qed

theorem enqueue_is_idempotent_witness:
  "enqueue_observation sample_lib sample_observation (sample_job\<lparr>jb_id := ''job-2''\<rparr>) None (sample_time 40) store_running =
     (store_running, Inr (running_job, False))"
proof (rule enqueue_is_idempotent [OF store_running_ok running_stored])
  show "job_key running_job = job_key (sample_job\<lparr>jb_id := ''job-2''\<rparr>)"
    by (simp add: running_job_def leased_def queued_job_def job_key_def)
  show "observation_validate sample_observation = None" by code_simp
  show "job_validate_enqueue sample_lib (sample_job\<lparr>jb_id := ''job-2''\<rparr>) = None"
    by (simp add: job_validate_enqueue_def sample_job_def sample_lib_def)
  show "jb_namespace (sample_job\<lparr>jb_id := ''job-2''\<rparr>) = sc_namespace (ob_scope sample_observation)"
    by (simp add: sample_job_def sample_observation_def sample_scope_def)
qed

section \<open>Leases are compared as text\<close>


text \<open>The lease of the sample job, claimed half a second later, ends at second 80.5.\<close>

definition store_half :: store where
  "store_half = fst (claim ''w1'' (sample_time 20 + 500000000) 60000000000 store_queued)"

text \<open>
  That second is real: a lease that expires at second 80.5 is taken by another
  worker at second 80, while it still has half a second to run, because the text
  \<open>...:20.5Z\<close> sorts before \<open>...:20Z\<close>; the owner can then no longer complete the job.
\<close>

theorem lease_taken_early:
  "map jb_lease_expires_at (st_jobs store_half) = [Some (sample_time 80 + 500000000)] \<and>
   map jb_lease_owner (st_jobs (fst (claim ''w2'' (sample_time 80) 60000000000 store_half))) = [''w2''] \<and>
   snd (complete_job sample_lib ''job-1'' ''w1'' ''{}'' (sample_time 80) store_half) = Inl ErrLeaseLost"
  by code_simp



section \<open>Retries\<close>

text \<open>
  A failure by the lease owner either ends the job at the attempt limit or returns
  it to the queue for the backoff instant; in both cases the lease is gone and the
  error is recorded.
\<close>

theorem failure_retries_or_ends:
  assumes "jobs_ok st" and "j \<in> set (st_jobs st)" and "holds_lease (jb_id j) worker now j"
    and "jb_id j \<noteq> ''''" "worker \<noteq> ''''" "code \<noteq> ''''" "now \<noteq> 0" "0 \<le> backoff" "1 \<le> limit"
  shows "\<exists>k. k \<in> set (st_jobs (fst (fail_job (jb_id j) worker code message now backoff limit st))) \<and>
    jb_id k = jb_id j \<and> jb_error_code k = code \<and> jb_error_message k = message \<and> jb_lease_expires_at k = None \<and>
    jb_attempts k = jb_attempts j \<and>
    (if jb_attempts j < limit then jb_state k = JobQueued \<and> jb_available_at k = now + backoff
     else jb_state k = JobFailed)"
proof -
  have "failed_job code message now backoff limit j \<in>
      set (st_jobs (fst (fail_job (jb_id j) worker code message now backoff limit st)))"
    using assms by (auto simp: fail_job_def is_zero_time_def set_update_rows intro!: rev_image_eqI)
  then show ?thesis by (intro exI [of _ "failed_job code message now backoff limit j"]) (simp add: failed_job_def)
qed

theorem failure_retries_or_ends_witness:
  "\<exists>k. k \<in> set (st_jobs (fst (fail_job ''job-1'' ''w1'' ''boom'' ''m'' (sample_time 30) 1000000000 3 store_running))) \<and>
     jb_state k = JobQueued \<and> jb_available_at k = sample_time 31"
proof -
  have "holds_lease (jb_id running_job) ''w1'' (sample_time 30) running_job" by code_simp
  from failure_retries_or_ends [OF store_running_ok running_stored this, of "''boom''" 1000000000 3 "''m''"]
  show ?thesis
    by (auto simp: running_job_sel running_job_def leased_def queued_job_def sample_job_def sample_time_def)
qed

end
