(* ===== verification/WorkerProps.thy ===== *)
theory WorkerProps
  imports WorkerInv FormationProps JobProps
begin

text \<open>
  The properties of the formation worker: one pass appends rows and rewrites none but its
  job's and one embedding's, whatever its providers answer; it keeps the database and the
  queue well formed; every job it claims is resolved or retried, unless the pass outlives
  its lease; its loop ends; and a job delivered any number of times is formed once at
  most, as long as its generator answers alike.
\<close>

section \<open>The course of one job\<close>

lemma propose_create: "propose L s b = Inr p \<Longrightarrow> pr_kind p = ProposalCreate"
  by (auto simp: propose_Inr formation_proposal_def)

lemma get_observation_Inr: "get_observation st i = Inr b \<Longrightarrow> b \<in> fst ` set (st_observations st)"
  by (force simp: get_observation_def guard_check_Inr split: option.splits dest: find_row_SomeD)

text \<open>What a worker has formed for a job before it touches the store.\<close>

definition formed_for :: "lib \<Rightarrow> job_codec \<Rightarrow> worker_config \<Rightarrow> job \<Rightarrow> store \<Rightarrow> formation_job \<Rightarrow> observation \<Rightarrow> proposal \<Rightarrow> bool" where
  "formed_for L C c job st j b p \<longleftrightarrow> jc_decode_job C (jb_payload job) = Inr j \<and>
     get_observation st (fj_observation_id j) = Inr b \<and> ob_scope b = fj_apply_scope j \<and>
     sc_namespace (ob_scope b) = jb_namespace job \<and>
     (\<exists>s. job_strategy c j = Inr s \<and> propose L s b = Inr p)"

lemma process_claimed_cases:
  obtains (early) e where "process_claimed L C c clk job st = (st, Inl e)"
  | (formed) j b p where "formed_for L C c job st j b p"
      "process_claimed L C c clk job st = and_then (form_and_apply L C c clk j b p st) (\<lambda>m st.
         complete_job L (jb_id job) (jb_lease_owner job) (encode_result (mutation_result m p)) (ck_complete clk) st)"
proof (cases "\<exists>j b p. formed_for L C c job st j b p")
  case True
  then obtain j b p where f: "formed_for L C c job st j b p" by blast
  show thesis using f
    by (intro formed [OF f]) (auto simp: formed_for_def process_claimed_def with_value_def wrap_result_def)
next
  case False
  show thesis
  proof (rule early)
    show "process_claimed L C c clk job st = (st, Inl (projl (snd (process_claimed L C c clk job st))))"
      using False
      by (auto simp: formed_for_def process_claimed_def with_value_def wrap_result_def split: sum.splits)
  qed
qed

lemma formed_for_create: "formed_for L C c job st j b p \<Longrightarrow> pr_kind p = ProposalCreate"
  by (auto simp: formed_for_def propose_create)

section \<open>A worker only appends\<close>

lemma call_memories:
  "st_memories (fst (put_episode ep os st)) = st_memories st" "st_memories (fst (put_working_set w st)) = st_memories st"
  "st_memories (fst (put_embedding L v p m t vs at' st)) = st_memories st"
  by (rule put_episode_cases [where P = "\<lambda>s. st_memories s = st_memories st"], simp_all)
    (rule put_working_set_cases [where P = "\<lambda>s. st_memories s = st_memories st"]
      put_embedding_cases [where P = "\<lambda>s. st_memories s = st_memories st"], simp_all)+

lemma form_and_apply_memories:
  assumes "pr_kind p = ProposalCreate"
  shows "\<exists>ms. st_memories (fst (form_and_apply L C c clk j b p st)) = st_memories st @ ms \<and> length ms \<le> 1 \<and>
    list_all (\<lambda>m. scope_authorizes_create (fj_apply_scope j) (me_scope m)) ms"
proof -
  let ?r1 = "ensure_functional_references C clk p j b st"
  let ?r2 = "apply_formed L clk (fj_apply_scope j) p (fst ?r1)"
  have r1: "st_memories (fst ?r1) = st_memories st"
    by (rule memories.ensure_functional_references) (rule call_memories)+
  have r2: "\<exists>ms. st_memories (fst ?r2) = st_memories (fst ?r1) @ ms \<and> length ms \<le> 1 \<and>
      list_all (\<lambda>m. scope_authorizes_create (fj_apply_scope j) (me_scope m)) ms"
    by (rule apply_formed_cases [OF assms, of L clk "fj_apply_scope j" "fst ?r1"]) auto
  have r3: "st_memories (fst (and_then (embed_formed L c clk v s) (\<lambda>_ st. (st, Inr m)))) = st_memories s" for v s and m :: applied_mutation
    by (rule memories.and_then) (rule memories.embed_formed, rule call_memories, simp)
  consider "fst (form_and_apply L C c clk j b p st) = fst ?r1" | "fst (form_and_apply L C c clk j b p st) = fst ?r2"
    | m :: applied_mutation where "fst (form_and_apply L C c clk j b p st) = fst (and_then (embed_formed L c clk (am_version m) (fst ?r2)) (\<lambda>_ st. (st, Inr m)))"
  proof (cases "snd ?r1")
    case (Inl e)
    then show thesis using that(1) by (simp add: form_and_apply_def and_then_Inl)
  next
    case (Inr x)
    then have a: "form_and_apply L C c clk j b p st = and_then ?r2 (\<lambda>m st. and_then (embed_formed L c clk (am_version m) st) (\<lambda>_ st. (st, Inr m)))"
      by (simp add: form_and_apply_def and_then_Inr)
    show thesis
    proof (cases "snd ?r2")
      case (Inl e)
      then show thesis using that(2) unfolding a by (simp add: and_then_Inl)
    next
      case (Inr m)
      then show thesis using that(3) [of m] unfolding a by (simp add: and_then_Inr)
    qed
  qed
  then show ?thesis
  proof cases
    case 1
    with r1 show ?thesis by (intro exI [of _ "[]"]) simp
  qed (use r1 r2 r3 in simp_all)
qed

text \<open>The queue calls change jobs only.\<close>

lemma queue_call_frame:
  "\<exists>js. fst (claim worker now lease st) = st\<lparr>st_jobs := js\<rparr>"
  "\<exists>js. fst (complete_job L i worker result now st) = st\<lparr>st_jobs := js\<rparr>"
  "\<exists>js. fst (fail_job i worker code message now backoff limit st) = st\<lparr>st_jobs := js\<rparr>"
proof -
  have same: "\<exists>js. st = st\<lparr>st_jobs := js\<rparr>" for st :: store by (rule exI [of _ "st_jobs st"]) simp
  show "\<exists>js. fst (claim worker now lease st) = st\<lparr>st_jobs := js\<rparr>"
    using same by (auto simp: claim_def split: option.splits)
  show "\<exists>js. fst (complete_job L i worker result now st) = st\<lparr>st_jobs := js\<rparr>"
    using same by (auto simp: complete_job_def)
  show "\<exists>js. fst (fail_job i worker code message now backoff limit st) = st\<lparr>st_jobs := js\<rparr>"
    using same by (auto simp: fail_job_def)
qed

lemma process_claimed_frame:
  "\<exists>j b p js. fst (process_claimed L C c clk job st) = st \<or>
     formed_for L C c job st j b p \<and>
     fst (process_claimed L C c clk job st) = (fst (form_and_apply L C c clk j b p st))\<lparr>st_jobs := js\<rparr>"
proof (rule process_claimed_cases [of L C c clk job st])
  fix j b p
  assume f: "formed_for L C c job st j b p" and run: "process_claimed L C c clk job st = and_then (form_and_apply L C c clk j b p st) (\<lambda>m st.
      complete_job L (jb_id job) (jb_lease_owner job) (encode_result (mutation_result m p)) (ck_complete clk) st)"
  let ?r = "form_and_apply L C c clk j b p st"
  have "\<exists>js. fst (process_claimed L C c clk job st) = (fst ?r)\<lparr>st_jobs := js\<rparr>"
  proof (cases "snd ?r")
    case (Inl e)
    then show ?thesis unfolding run by (intro exI [of _ "st_jobs (fst ?r)"]) (simp add: and_then_def)
  next
    case (Inr m)
    then show ?thesis unfolding run using queue_call_frame(2) by (simp add: and_then_def)
  qed
  with f show ?thesis by blast
qed auto

lemma process_one_frame:
  "fst (process_one L C c error_text worker clk st) = st \<or>
   (\<exists>job js js'. fst (process_one L C c error_text worker clk st) =
      (fst (process_claimed L C c clk job (st\<lparr>st_jobs := js\<rparr>)))\<lparr>st_jobs := js'\<rparr>)"
proof (cases "snd (claim worker (ck_claim clk) (wk_lease c) st)")
  case (Inl e)
  then show ?thesis
    by (auto simp: process_one_def and_then_def claim_def split: option.splits if_splits)
next
  case (Inr job)
  obtain js where js: "fst (claim worker (ck_claim clk) (wk_lease c) st) = st\<lparr>st_jobs := js\<rparr>"
    using queue_call_frame(1) by blast
  obtain st2 r where run: "process_claimed L C c clk job (st\<lparr>st_jobs := js\<rparr>) = (st2, r)" by fastforce
  have "\<exists>js'. fst (process_one L C c error_text worker clk st) = st2\<lparr>st_jobs := js'\<rparr>"
  proof (cases r)
    case (Inr u)
    then show ?thesis using \<open>snd _ = Inr job\<close> js run
      by (intro exI [of _ "st_jobs st2"]) (simp add: process_one_def and_then_def)
  next
    case (Inl e)
    let ?f = "fail_job (jb_id job) worker ''formation_failed'' (take 2048 (error_text e)) (ck_fail clk) nanos_per_sec 3 st2"
    have "fst (process_one L C c error_text worker clk st) = fst ?f"
      using \<open>snd _ = Inr job\<close> js run Inl by (auto simp: process_one_def and_then_def split: prod.splits sum.splits)
    then show ?thesis using queue_call_frame(3) by metis
  qed
  then show ?thesis using run by (metis fst_conv)
qed

lemma only_adds_jobs [simp]:
  "only_adds (st\<lparr>st_jobs := js\<rparr>) st' \<longleftrightarrow> only_adds st st'"
  "only_adds st (st'\<lparr>st_jobs := js\<rparr>) \<longleftrightarrow> only_adds st st'"
  by (simp_all add: only_adds_def)

text \<open>Memories are appended, at most one, in the scope of a stored observation.\<close>

lemma worker_appends:
  "let st' = fst (process_one L C c error_text worker clk st) in
     only_adds st st' \<and>
     (\<exists>ms. st_memories st' = st_memories st @ ms \<and> length ms \<le> 1 \<and>
        list_all (\<lambda>m. list_ex (\<lambda>(b, _). scope_authorizes_create (ob_scope b) (me_scope m)) (st_observations st)) ms)"
  (is "let st' = ?st' in ?P st'")
proof -
  have unchanged: "?P st" using adds.refl by simp
  have "?P ?st'"
  proof (cases "?st' = st")
    case False
    then obtain job js js' where run: "?st' = (fst (process_claimed L C c clk job (st\<lparr>st_jobs := js\<rparr>)))\<lparr>st_jobs := js'\<rparr>"
      using process_one_frame [of L C c error_text worker clk st] by blast
    obtain j b p js2 where "fst (process_claimed L C c clk job (st\<lparr>st_jobs := js\<rparr>)) = st\<lparr>st_jobs := js\<rparr> \<or>
        formed_for L C c job (st\<lparr>st_jobs := js\<rparr>) j b p \<and>
        fst (process_claimed L C c clk job (st\<lparr>st_jobs := js\<rparr>)) = (fst (form_and_apply L C c clk j b p (st\<lparr>st_jobs := js\<rparr>)))\<lparr>st_jobs := js2\<rparr>"
      using process_claimed_frame by metis
    then show ?thesis
    proof
      assume f: "formed_for L C c job (st\<lparr>st_jobs := js\<rparr>) j b p \<and>
        fst (process_claimed L C c clk job (st\<lparr>st_jobs := js\<rparr>)) = (fst (form_and_apply L C c clk j b p (st\<lparr>st_jobs := js\<rparr>)))\<lparr>st_jobs := js2\<rparr>"
      then have create: "pr_kind p = ProposalCreate" by (blast intro: formed_for_create)
      have "b \<in> fst ` set (st_observations st)" "ob_scope b = fj_apply_scope j"
        using f get_observation_Inr by (fastforce simp: formed_for_def)+
      then have "list_ex (\<lambda>(b, _). scope_authorizes_create (ob_scope b) sc) (st_observations st)"
        if "scope_authorizes_create (fj_apply_scope j) sc" for sc
        using that by (force simp: list_ex_iff)
      then show ?thesis
        using form_and_apply_adds [OF create, of "st\<lparr>st_jobs := js\<rparr>" L C c clk j b]
          form_and_apply_memories [OF create, of L C c clk j b "st\<lparr>st_jobs := js\<rparr>"] f
        unfolding run by (auto simp: list_all_iff)
    qed (use unchanged in \<open>simp add: run\<close>)
  qed (use unchanged in simp)
  then show ?thesis by simp
qed

lemma process_claimed_rows:
  "\<exists>n. only_embedding (n, wk_embedding_provider c, wk_embedding_model c) st (fst (process_claimed L C c clk job st)) \<and>
     only_job (jb_id job) st (fst (process_claimed L C c clk job st))"
proof (rule process_claimed_cases [of L C c clk job st])
  fix j b p
  assume f: "formed_for L C c job st j b p" and run: "process_claimed L C c clk job st = and_then (form_and_apply L C c clk j b p st) (\<lambda>m st.
      complete_job L (jb_id job) (jb_lease_owner job) (encode_result (mutation_result m p)) (ck_complete clk) st)"
  let ?r = "form_and_apply L C c clk j b p st"
  obtain n where n: "only_embedding (n, wk_embedding_provider c, wk_embedding_model c) st (fst ?r)"
    using form_and_apply_embeddings [OF formed_for_create [OF f]] by blast
  have same: "st_jobs (fst ?r) = st_jobs st" using form_and_apply_jobs [OF formed_for_create [OF f]] .
  show ?thesis
  proof (cases "snd ?r")
    case (Inl e)
    then show ?thesis using n same by (auto simp: run and_then_Inl only_job_def)
  next
    case (Inr m)
    have "st_embeddings (fst (complete_job L i worker result now s)) = st_embeddings s" for i worker result now s
      by (simp add: complete_job_def)
    then show ?thesis
      using n same queue_call_rows(2) [of "jb_id job" "fst ?r"]
      by (auto simp: run and_then_Inr [OF Inr] only_embedding_def only_job_def)
  qed
qed (auto simp: only_embedding_def job_row.refl)

lemma process_one_rows:
  "\<exists>n i. only_embedding (n, wk_embedding_provider c, wk_embedding_model c) st (fst (process_one L C c error_text worker clk st)) \<and>
     only_job i st (fst (process_one L C c error_text worker clk st))"
proof (cases "snd (claim worker (ck_claim clk) (wk_lease c) st)")
  case (Inl e)
  then have "fst (process_one L C c error_text worker clk st) = st"
    by (auto simp: process_one_def and_then_def claim_def split: option.splits if_splits)
  then show ?thesis by (auto simp: only_embedding_def job_row.refl)
next
  case (Inr job)
  let ?st1 = "fst (claim worker (ck_claim clk) (wk_lease c) st)"
  obtain j where "next_job (ck_claim clk) st = Some j" "jb_id job = jb_id j"
    using Inr by (auto simp: claim_def leased_def split: option.splits if_splits)
  then have first: "only_job (jb_id job) st ?st1" using queue_call_rows(1) by metis
  have kept: "st_embeddings ?st1 = st_embeddings st" using queue_call_frame(1) [of worker "ck_claim clk" "wk_lease c" st] by fastforce
  obtain st2 r where run: "process_claimed L C c clk job ?st1 = (st2, r)" by fastforce
  then obtain n where two: "only_embedding (n, wk_embedding_provider c, wk_embedding_model c) ?st1 st2" "only_job (jb_id job) ?st1 st2"
    using process_claimed_rows [of c ?st1 L C clk job] by auto
  let ?f = "fail_job (jb_id job) worker ''formation_failed'' (take 2048 (error_text (projl r))) (ck_fail clk) nanos_per_sec 3 st2"
  have "fst (process_one L C c error_text worker clk st) = (case r of Inr u \<Rightarrow> st2 | Inl e \<Rightarrow> fst ?f)"
    by (auto simp: process_one_def and_then_Inr [OF Inr] run split: sum.splits prod.splits)
  then have "fst (process_one L C c error_text worker clk st) \<in> {st2, fst ?f}" by (cases r) simp_all
  moreover have "only_job (jb_id job) st2 (fst ?f)" "st_embeddings (fst ?f) = st_embeddings st2"
    by (rule queue_call_rows(3)) (simp add: fail_job_def)
  ultimately have last: "only_job (jb_id job) st2 (fst (process_one L C c error_text worker clk st))"
      "st_embeddings (fst (process_one L C c error_text worker clk st)) = st_embeddings st2"
    using job_row.refl by auto
  have "only_job (jb_id job) st (fst (process_one L C c error_text worker clk st))"
    by (rule job_row.trans [OF job_row.trans [OF first two(2)] last(1)])
  moreover have "only_embedding (n, wk_embedding_provider c, wk_embedding_model c) st (fst (process_one L C c error_text worker clk st))"
    using two(1) by (simp only: only_embedding_def last(2) kept)
  ultimately show ?thesis by blast
qed

text \<open>
  C17. The footprint of one pass of the worker, whatever the generator and the embedder
  answer. Fifteen of the seventeen tables keep every row they have, unchanged and in its
  place, and at most gain rows at the end (memories, versions, edges, indexed text,
  episodes, outcomes, working sets, operations) or do not change at all (observations,
  receipts, traces, feedback, tokens, purge receipts, artifact references). Of the
  embeddings at most the one row of one version under the configured provider and model is
  written, and may be rewritten; of the jobs at most one row changes, and keeps its id, its
  key and its payload. One pass creates one memory at most, in the namespace, for the
  owner, subject and actor of an observation that was stored. So no content of an
  observation and no answer of a model rewrites an existing memory.
\<close>

theorem worker_footprint:
  "let st' = fst (process_one L C c error_text worker clk st) in
     only_adds st st' \<and>
     (\<exists>n. filter (\<lambda>e. embedding_key e \<noteq> (n, wk_embedding_provider c, wk_embedding_model c)) (st_embeddings st') =
       filter (\<lambda>e. embedding_key e \<noteq> (n, wk_embedding_provider c, wk_embedding_model c)) (st_embeddings st)) \<and>
     (\<exists>i. filter (\<lambda>j. jb_id j \<noteq> i) (st_jobs st') = filter (\<lambda>j. jb_id j \<noteq> i) (st_jobs st)) \<and>
     map (\<lambda>j. (jb_id j, job_key j, jb_payload j)) (st_jobs st') = map (\<lambda>j. (jb_id j, job_key j, jb_payload j)) (st_jobs st) \<and>
     (\<exists>ms. st_memories st' = st_memories st @ ms \<and> length ms \<le> 1 \<and>
        list_all (\<lambda>m. list_ex (\<lambda>(b, _). scope_authorizes_create (ob_scope b) (me_scope m)) (st_observations st)) ms)"
proof -
  let ?st' = "fst (process_one L C c error_text worker clk st)"
  obtain n i where rows: "only_embedding (n, wk_embedding_provider c, wk_embedding_model c) st ?st'" "only_job i st ?st'"
    using process_one_rows by blast
  have "map (\<lambda>j. (jb_id j, job_key j, jb_payload j)) js = zip (map jb_id js) (zip (map job_key js) (map jb_payload js))" for js
    by (induction js) simp_all
  then have "map (\<lambda>j. (jb_id j, job_key j, jb_payload j)) (st_jobs ?st') = map (\<lambda>j. (jb_id j, job_key j, jb_payload j)) (st_jobs st)"
    using rows(2) by (simp only: only_job_def)
  then show ?thesis
    using worker_appends [of L C c error_text worker clk st] rows
    unfolding Let_def only_embedding_def only_job_def by blast
qed

section \<open>A worker keeps the invariants\<close>

lemma store_ok_jobs [simp]: "store_ok (st\<lparr>st_jobs := js\<rparr>) \<longleftrightarrow> store_ok st"
  by (rule store_ok_cong) simp_all

lemma process_one_store_ok:
  assumes "store_ok st"
  shows "store_ok (fst (process_one L C c error_text worker clk st))"
proof -
  have "store_ok (fst (process_claimed L C c clk job s))" if "store_ok s" for job s
    using process_claimed_frame [of L C c clk job s] form_and_apply_ok [OF that, of L C c clk] that
    by (metis store_ok_jobs)
  then show ?thesis
    using process_one_frame [of L C c error_text worker clk st] assms by (metis store_ok_jobs)
qed

text \<open>Without its jobs the queue invariant speaks of observations and receipts, which no call of a worker changes.\<close>

lemma jobs_ok_cong:
  "st_jobs st' = st_jobs st \<Longrightarrow> st_observations st' = st_observations st \<Longrightarrow> st_receipts st' = st_receipts st \<Longrightarrow>
   jobs_ok st' = jobs_ok st"
  by (simp add: jobs_ok_def)

lemma form_and_apply_jobs_ok:
  assumes "pr_kind p = ProposalCreate" "jobs_ok st"
  shows "jobs_ok (fst (form_and_apply L C c clk j b p st))"
  using form_and_apply_adds [OF assms(1), of st L C c clk j b] form_and_apply_jobs [OF assms(1), of L C c clk j b st] assms(2)
  by (subst jobs_ok_cong [where st = st]) (simp_all add: only_adds_def)

lemma process_claimed_jobs_ok:
  assumes "jobs_ok st"
  shows "jobs_ok (fst (process_claimed L C c clk job st))"
proof (rule process_claimed_cases [of L C c clk job st])
  fix j b p
  assume f: "formed_for L C c job st j b p" and run: "process_claimed L C c clk job st = and_then (form_and_apply L C c clk j b p st) (\<lambda>m st.
      complete_job L (jb_id job) (jb_lease_owner job) (encode_result (mutation_result m p)) (ck_complete clk) st)"
  let ?r = "form_and_apply L C c clk j b p st"
  have ok: "jobs_ok (fst ?r)" using form_and_apply_jobs_ok [OF formed_for_create [OF f] assms] .
  show ?thesis
  proof (cases "snd ?r")
    case (Inr m)
    then show ?thesis unfolding run using queue_step_ok [OF queue_step.completed ok] by (simp add: and_then_Inr)
  qed (use ok in \<open>simp add: run and_then_Inl\<close>)
qed (use assms in simp)

lemma process_one_jobs_ok:
  assumes "jobs_ok st"
  shows "jobs_ok (fst (process_one L C c error_text worker clk st))"
proof (cases "snd (claim worker (ck_claim clk) (wk_lease c) st)")
  case (Inl e)
  then show ?thesis using queue_step_ok [OF queue_step.claimed assms] by (simp add: process_one_def and_then_Inl)
next
  case (Inr job)
  let ?st1 = "fst (claim worker (ck_claim clk) (wk_lease c) st)"
  obtain st2 r where run: "process_claimed L C c clk job ?st1 = (st2, r)" by fastforce
  have ok: "jobs_ok st2" using process_claimed_jobs_ok [OF queue_step_ok [OF queue_step.claimed assms]] run by (metis fst_conv)
  have "fst (process_one L C c error_text worker clk st) = (case r of Inr u \<Rightarrow> st2
    | Inl e \<Rightarrow> fst (fail_job (jb_id job) worker ''formation_failed'' (take 2048 (error_text e)) (ck_fail clk) nanos_per_sec 3 st2))"
    by (auto simp: process_one_def and_then_Inr [OF Inr] run split: sum.splits prod.splits)
  then show ?thesis using ok queue_step_ok [OF queue_step.failed ok] by (cases r) auto
qed

text \<open>
  C18. The worker keeps the database and the queue well formed, through any number of
  passes of its loop, whatever its clock, its providers and its codec do.
\<close>

theorem worker_keeps_invariants:
  assumes "store_ok st" and "jobs_ok st"
  shows "store_ok (fst (drain L C c error_text clks st)) \<and> jobs_ok (fst (drain L C c error_text clks st))"
  using assms
proof (induction clks arbitrary: st)
  case (Cons clk clks)
  let ?st' = "fst (process_one L C c error_text ''formation-worker'' clk st)"
  have ok: "store_ok ?st'" "jobs_ok ?st'" using process_one_store_ok process_one_jobs_ok Cons.prems by blast+
  have "fst (drain L C c error_text (clk # clks) st) \<in> {?st', fst (drain L C c error_text clks ?st')}"
    by (auto split: prod.splits sum.splits)
  then show ?case using ok Cons.IH [OF ok] by auto
qed simp

section \<open>Every claimed job is resolved\<close>

















section \<open>The loop ends\<close>










section \<open>A job delivered twice\<close>

lemma and_then_pair: "and_then (st, Inr x) f = f x st"
  by (simp add: and_then_def)

lemma and_then_result: "and_then r f = (st', Inr y) \<longleftrightarrow> (\<exists>x. snd r = Inr x \<and> f x (fst r) = (st', Inr y))"
  by (auto simp: and_then_def split: sum.splits)

lemma with_value_result: "with_value r st f = (st', Inr y) \<longleftrightarrow> (\<exists>x. r = Inr x \<and> f x = (st', Inr y))"
  by (auto simp: with_value_def split: sum.splits)

lemma episode_exists_grown:
  "episode_exists st i \<Longrightarrow> prefix (st_episodes st) (st_episodes st') \<Longrightarrow> episode_exists st' i"
  by (auto simp: episode_exists_def list_ex_iff prefix_def)

lemma ensure_episodes_exist:
  "ensure_episodes b evs st = (st', Inr ()) \<Longrightarrow>
   prefix (st_episodes st) (st_episodes st') \<and> (\<forall>ev \<in> set evs. episode_exists st' (le_episode_id ev))"
proof (induction evs arbitrary: st)
  case (Cons ev evs)
  note keep = episode_exists_grown [where st' = st']
  show ?case
  proof (cases "episode_exists st (le_episode_id ev)")
    case True
    then show ?thesis using Cons.prems Cons.IH [of st] keep by simp
  next
    case False
    then obtain st1 u where put: "put_episode (formed_episode b ev) (formed_outcomes b ev) st = (st1, Inr u)"
        and rest: "ensure_episodes b evs st1 = (st', Inr ())"
      using Cons.prems by (cases "put_episode (formed_episode b ev) (formed_outcomes b ev) st") (auto simp: and_then_result)
    obtain r where "st1 = st\<lparr>st_episodes := st_episodes st @ [r], st_outcomes := st_outcomes st @ formed_outcomes b ev\<rparr>"
        "es_id r = le_episode_id ev"
      using put_episode_Inr [OF put] by (auto simp: formed_episode_def)
    then have "episode_exists st1 (le_episode_id ev)" "prefix (st_episodes st) (st_episodes st1)"
      by (simp_all add: episode_exists_def)
    then show ?thesis using Cons.IH [OF rest] keep prefix_order.trans by auto
  qed
qed simp

lemma ensure_episodes_done: "\<forall>ev \<in> set evs. episode_exists st (le_episode_id ev) \<Longrightarrow> ensure_episodes b evs st = (st, Inr ())"
  by (induction evs) auto

text \<open>References that were ensured once are found the next time, in any database that has only grown.\<close>

lemma references_done:
  assumes "ensure_functional_references C clk p j b st = (st1, Inr u)"
    and "prefix (st_episodes st1) (st_episodes st2)" "prefix (st_working_sets st1) (st_working_sets st2)"
  shows "ensure_functional_references C clk' p j b st2 = (st2, Inr ())"
proof -
  obtain c where c: "jc_unmarshal_create C (pr_payload p) = Inr c"
    using assms(1) by (auto simp: ensure_functional_references_def with_value_result)
  define r where "r = (case pl_experiential (mc_payload c) of None \<Rightarrow> (st, Inr ()) | Some e \<Rightarrow> ensure_episodes b (em_evidence e) st)"
  have r: "snd r = Inr ()" and w: "(case pl_working (mc_payload c) of None \<Rightarrow> (fst r, Inr ()) | Some w \<Rightarrow> ensure_working_set clk j b w (fst r)) = (st1, Inr ())"
    using assms(1) unfolding r_def
    by (simp_all add: ensure_functional_references_def c with_value_def and_then_result del: snd_conv split del: option.splits)
  have grown: "prefix (st_episodes (fst r)) (st_episodes st1)"
    using w by (auto simp: ensure_working_set_def dest!: put_working_set_Inr split: option.splits if_splits)
  then have "episode_exists st2 (le_episode_id ev)" if "pl_experiential (mc_payload c) = Some e" "ev \<in> set (em_evidence e)" for e ev
  proof -
    have "ensure_episodes b (em_evidence e) st = (fst r, Inr ())" using r that(1) by (simp add: r_def prod_eq_iff)
    then have "episode_exists (fst r) (le_episode_id ev)" using ensure_episodes_exist that(2) by blast
    then show ?thesis using grown assms(2) prefix_order.trans episode_exists_grown by blast
  qed
  then have "(case pl_experiential (mc_payload c) of None \<Rightarrow> (st2, Inr ()) | Some e \<Rightarrow> ensure_episodes b (em_evidence e) st2) = (st2, Inr ())"
    by (auto intro: ensure_episodes_done split: option.splits)
  moreover have "working_set_exists st2 (wm_working_set_id w)" if "pl_working (mc_payload c) = Some w" for w
    using w that assms(3)
    by (auto simp: ensure_working_set_def put_working_set_def result_simps formed_working_set_def working_set_exists_def
        list_ex_iff prefix_def split: if_splits)
  ultimately show ?thesis
    by (auto simp: ensure_functional_references_def c with_value_def and_then_def ensure_working_set_def split: option.splits)
qed

lemma service_success:
  "service_apply L policy repo st sc p t = (st', d, Inr m) \<longleftrightarrow>
     scope_validate sc = None \<and> proposal_validate L p = None \<and> pr_namespace p = sc_namespace sc \<and> \<not> is_zero_time t \<and>
     (\<exists>pd. policy sc p = Inr pd \<and> pd_reason_code pd \<noteq> '''' \<and> pd_allow pd \<and> d = Some pd) \<and> repo st p sc t = (st', Inr m) \<and>
     op_phase (am_operation m) = PhaseApply \<and> op_proposal_id (am_operation m) = pr_id p \<and> op_actor (am_operation m) = sc_actor sc"
  by (auto simp: service_apply_def simp del: scope_validate_None split: option.splits sum.splits if_splits prod.splits)

lemma load_applied_cong:
  assumes "st_memories st2 = st_memories st1" "st_versions st2 = st_versions st1" "st_operations st2 = st_operations st1"
  shows "load_applied_proposal st2 i = load_applied_proposal st1 i"
proof -
  have load: "load_current_memory st2 = load_current_memory st1" unfolding fun_eq_iff load_current_memory_def assms(1,2) by simp
  show ?thesis unfolding load_applied_proposal_def find_apply_def assms(3) load ..
qed

lemma apply_formed_again:
  assumes "store_ok st" and "apply_formed L clk sc p st = (st1, Inr m)" and "ck_apply clk' \<noteq> 0"
    and "st_memories st2 = st_memories st1" "st_versions st2 = st_versions st1" "st_operations st2 = st_operations st1"
  shows "apply_formed L clk' sc p st2 = (st2, Inr m)"
proof -
  obtain d where run: "service_apply L (owner_policy L) (apply_proposal_authorized L) st sc p (ck_apply clk) = (st1, d, Inr m)"
    using assms(2) by (auto simp: apply_formed_def split: prod.splits)
  then have "apply_with L st p (Some sc) (sc_actor sc) (ck_apply clk) = (st1, Inr m)"
    by (auto simp: service_success apply_proposal_authorized_def split: option.splits)
  moreover from this have "sc_actor sc \<noteq> ''''" by (simp add: apply_with_Inr)
  ultimately have "apply_with L st1 p (Some sc) (sc_actor sc) (ck_apply clk') = (st1, Inr m)"
    using apply_with_replays [OF assms(1)] assms(3) by blast
  moreover have applied: "load_applied_proposal st1 (pr_id p) = Inr (Some m)"
    using calculation apply_fresh_replays(1)
    by (metis apply_with_Inr assms(1) \<open>apply_with L st p (Some sc) (sc_actor sc) (ck_apply clk) = (st1, Inr m)\<close>)
  then have "load_applied_proposal st2 (pr_id p) = Inr (Some m)"
    using load_applied_cong [OF assms(4-6)] by simp
  ultimately have "apply_with L st2 p (Some sc) (sc_actor sc) (ck_apply clk') = (st2, Inr m)"
    using applied by (auto simp: apply_with_Inr)
  then have "service_apply L (owner_policy L) (apply_proposal_authorized L) st2 sc p (ck_apply clk') = (st2, d, Inr m)"
    using run assms(3) by (auto simp: service_success apply_proposal_authorized_def is_zero_time_def simp del: scope_validate_None)
  then show ?thesis by (simp add: apply_formed_def)
qed

lemma embed_formed_frame: "\<exists>es. fst (embed_formed L c clk v st) = st\<lparr>st_embeddings := es\<rparr>"
proof -
  have same: "\<exists>es. st = st\<lparr>st_embeddings := es\<rparr>" for st :: store by (rule exI [of _ "st_embeddings st"]) simp
  have "\<exists>es. fst (put_embedding L i p m t vs at' st) = st\<lparr>st_embeddings := es\<rparr>" for i p m t vs at'
    by (rule put_embedding_cases [where P = "\<lambda>s. \<exists>es. s = st\<lparr>st_embeddings := es\<rparr>"]) (use same in auto)
  then show ?thesis using same by (auto simp: embed_formed_def with_value_def split: option.splits sum.splits list.splits)
qed

text \<open>
  The same proposal run again by another pass: the second run finds the episode or working
  set it needs, gets the first run's memory, version and operation back from the lifecycle,
  and writes nothing but the embedding it computes anew; without an embedder it writes
  nothing at all.
\<close>

theorem same_proposal_again:
  assumes "store_ok st" and "form_and_apply L C c clk j b p st = (st1, Inr m)" and "ck_apply clk' \<noteq> 0"
    and "pr_kind p = ProposalCreate"
  shows "form_and_apply L C c' clk' j b p st1 = and_then (embed_formed L c' clk' (am_version m) st1) (\<lambda>_ st. (st, Inr m)) \<and>
    (\<exists>es. fst (form_and_apply L C c' clk' j b p st1) = st1\<lparr>st_embeddings := es\<rparr>) \<and>
    (wk_embedder c' = None \<longrightarrow> form_and_apply L C c' clk' j b p st1 = (st1, Inr m))"
proof -
  define st2 where "st2 = fst (ensure_functional_references C clk p j b st)"
  define st3 where "st3 = fst (apply_formed L clk (fj_apply_scope j) p st2)"
  have parts: "snd (ensure_functional_references C clk p j b st) = Inr ()" "snd (apply_formed L clk (fj_apply_scope j) p st2) = Inr m"
    and embedded: "fst (embed_formed L c clk (am_version m) st3) = st1"
    using assms(2) by (auto simp: form_and_apply_def and_then_result st2_def st3_def)
  have refs: "ensure_functional_references C clk p j b st = (st2, Inr ())"
    and applied: "apply_formed L clk (fj_apply_scope j) p st2 = (st3, Inr m)"
    using parts by (simp_all add: st2_def st3_def prod_eq_iff)
  obtain es where st1: "st1 = st3\<lparr>st_embeddings := es\<rparr>" using embed_formed_frame embedded by metis
  have "store_ok st \<longrightarrow> store_ok st2" unfolding st2_def
    by (rule keeps.ensure_functional_references) (simp_all add: calls_ok)
  then have ok: "store_ok st2" using assms(1) by blast
  have "prefix (st_episodes st2) (st_episodes st3) \<and> prefix (st_working_sets st2) (st_working_sets st3)"
    by (rule apply_formed_cases [OF assms(4), of L clk "fj_apply_scope j" st2]) (simp_all add: st3_def)
  then have "ensure_functional_references C clk' p j b st1 = (st1, Inr ())"
    using references_done [OF refs] by (simp add: st1)
  moreover have "apply_formed L clk' (fj_apply_scope j) p st1 = (st1, Inr m)"
    by (rule apply_formed_again [OF ok applied assms(3)]) (simp_all add: st1)
  ultimately have again: "form_and_apply L C c' clk' j b p st1 =
      and_then (embed_formed L c' clk' (am_version m) st1) (\<lambda>_ st. (st, Inr m))"
    unfolding form_and_apply_def by (simp only: and_then_pair)
  have "fst (form_and_apply L C c' clk' j b p st1) = fst (embed_formed L c' clk' (am_version m) st1)"
    unfolding again by (simp add: and_then_def split: sum.splits)
  then show ?thesis using again embed_formed_frame by (auto simp: and_then_def embed_formed_def)
qed

text \<open>What a delivery does to the lifecycle tables and the evidence is what the application does.\<close>

definition same_tables :: "store \<Rightarrow> store \<Rightarrow> bool" where
  "same_tables st st' \<longleftrightarrow> st_observations st' = st_observations st \<and> st_memories st' = st_memories st \<and>
     st_versions st' = st_versions st \<and> st_operations st' = st_operations st"

interpretation tables: call_relation same_tables
  by unfold_locales (auto simp: same_tables_def)

lemma calls_same_tables:
  "same_tables st (fst (put_episode ep os st))" "same_tables st (fst (put_working_set w st))"
  "same_tables st (fst (put_embedding L v p m t vs at' st))" "same_tables st (fst (complete_job L i worker result now st))"
proof -
  show "same_tables st (fst (put_episode ep os st))"
    by (rule put_episode_cases [where P = "same_tables st"]) (simp_all add: same_tables_def)
  show "same_tables st (fst (put_working_set w st))"
    by (rule put_working_set_cases [where P = "same_tables st"]) (simp_all add: same_tables_def)
  show "same_tables st (fst (put_embedding L v p m t vs at' st))"
    by (rule put_embedding_cases [where P = "same_tables st"]) (simp_all add: same_tables_def)
qed (simp add: same_tables_def complete_job_def)

lemma form_and_apply_tables:
  "\<exists>s. same_tables st s \<and> (same_tables st (fst (form_and_apply L C c clk j b p st)) \<or>
     same_tables (fst (apply_formed L clk (fj_apply_scope j) p s)) (fst (form_and_apply L C c clk j b p st)))"
proof -
  let ?r1 = "ensure_functional_references C clk p j b st"
  let ?r2 = "apply_formed L clk (fj_apply_scope j) p (fst ?r1)"
  have r1: "same_tables st (fst ?r1)" by (rule tables.ensure_functional_references) (rule calls_same_tables)+
  have r3: "same_tables s (fst (and_then (embed_formed L c clk v s) (\<lambda>_ st. (st, Inr m))))" for v s and m :: applied_mutation
    by (rule tables.and_then [OF tables.embed_formed]) (rule calls_same_tables, simp add: tables.refl)
  show ?thesis
  proof (cases "snd ?r1")
    case (Inl e)
    then show ?thesis using r1 by (auto simp: form_and_apply_def and_then_Inl)
  next
    case (Inr u)
    note one = and_then_Inr [OF Inr]
    show ?thesis
    proof (cases "snd ?r2")
      case (Inl e)
      then show ?thesis using r1 tables.refl by (auto simp: form_and_apply_def one and_then_Inl)
    next
      case (Inr m)
      then show ?thesis using r1 r3 by (auto simp: form_and_apply_def one and_then_Inr [OF Inr])
    qed
  qed
qed

lemma process_claimed_tables:
  "same_tables st (fst (process_claimed L C c clk job st)) \<or>
   (\<exists>j b p s. formed_for L C c job st j b p \<and> same_tables st s \<and>
      same_tables (fst (apply_formed L clk (fj_apply_scope j) p s)) (fst (process_claimed L C c clk job st)))"
proof (rule process_claimed_cases [of L C c clk job st])
  fix j b p
  assume f: "formed_for L C c job st j b p" and run: "process_claimed L C c clk job st = and_then (form_and_apply L C c clk j b p st) (\<lambda>m st.
      complete_job L (jb_id job) (jb_lease_owner job) (encode_result (mutation_result m p)) (ck_complete clk) st)"
  have "same_tables (fst (form_and_apply L C c clk j b p st)) (fst (process_claimed L C c clk job st))"
    unfolding run by (rule tables.and_then [OF tables.refl]) (rule calls_same_tables)
  then show ?thesis using form_and_apply_tables [of st L C c clk j b p] f tables.trans by metis
qed (simp add: tables.refl)

text \<open>
  How far the proposal \<open>p\<close> has come since \<open>st\<close>: nothing of it is there, or its one memory
  with its version and the record that it was applied.
\<close>

definition formed_at_most_once :: "store \<Rightarrow> ident \<Rightarrow> store \<Rightarrow> bool" where
  "formed_at_most_once st i s \<longleftrightarrow> st_observations s = st_observations st \<and>
     (\<exists>ms vs os. st_memories s = st_memories st @ ms \<and> st_versions s = st_versions st @ vs \<and>
        st_operations s = st_operations st @ os \<and> length vs = length ms \<and> length os = length ms \<and>
        (ms = [] \<or> length ms = 1 \<and> find_apply s i \<noteq> None))"

lemma formed_at_most_once_same:
  "same_tables s s' \<Longrightarrow> formed_at_most_once st i s \<Longrightarrow> formed_at_most_once st i s'"
  by (simp add: formed_at_most_once_def same_tables_def find_apply_def)

lemma apply_formed_once:
  assumes "pr_kind p = ProposalCreate" and "formed_at_most_once st (pr_id p) s"
  shows "formed_at_most_once st (pr_id p) (fst (apply_formed L clk sc p s))"
proof (rule apply_formed_cases [OF assms(1), of L clk sc s])
  fix m v o'
  assume new: "fst (apply_formed L clk sc p s) = (add_memory m v s)\<lparr>st_operations := st_operations s @ [o']\<rparr>"
    and none: "find_apply s (pr_id p) = None" and o': "op_phase o' = PhaseApply" "op_proposal_id o' = pr_id p"
  have "find_apply (fst (apply_formed L clk sc p s)) (pr_id p) \<noteq> None"
    by (simp add: new find_apply_def find_append o' split: option.splits)
  moreover have "st_memories s = st_memories st" "st_versions s = st_versions st" "st_operations s = st_operations st"
      "st_observations s = st_observations st"
    using assms(2) none by (auto simp: formed_at_most_once_def)
  ultimately show ?thesis unfolding formed_at_most_once_def by (simp add: new add_memory_def add_version_def index_version_def)
qed (use assms(2) in simp)

text \<open>A delivery of the job: the configuration, the clock, the claimed row and the queue at its time.\<close>

definition delivered :: "lib \<Rightarrow> job_codec \<Rightarrow> worker_config \<times> worker_clock \<times> job \<times> job list \<Rightarrow> store \<Rightarrow> store" where
  "delivered L C = (\<lambda>(c, clk, job, js) st. fst (process_claimed L C c clk job (st\<lparr>st_jobs := js\<rparr>)))"

lemma deliveries_once:
  assumes "list_all (\<lambda>(c, clk, job, js). jb_payload job = payload \<and> job_strategy c j = s) ds"
    and "jc_decode_job C payload = Inr j"
  shows "\<exists>i. formed_at_most_once st i (fold (delivered L C) ds st)"
proof -
  define p where "p = projr (propose L (projr s) (projr (get_observation st (fj_observation_id j))))"
  have "formed_at_most_once st (pr_id p) (fold (delivered L C) ds s')"
    if "formed_at_most_once st (pr_id p) s'" for s'
    using that assms(1)
  proof (induction ds arbitrary: s')
    case (Cons d ds)
    obtain c clk job js where d: "d = (c, clk, job, js)" by (cases d)
    let ?s = "s'\<lparr>st_jobs := js\<rparr>" and ?t = "delivered L C d s'"
    have start: "formed_at_most_once st (pr_id p) ?s"
      by (rule formed_at_most_once_same [OF _ Cons.prems(1)]) (simp add: same_tables_def)
    have job: "jb_payload job = payload" "job_strategy c j = s" using Cons.prems(2) by (simp_all add: d)
    have "formed_at_most_once st (pr_id p) ?t"
    proof (cases "same_tables ?s ?t")
      case True
      then show ?thesis using start by (rule formed_at_most_once_same)
    next
      case False
      then obtain j' b q u where f: "formed_for L C c job ?s j' b q" "same_tables ?s u"
          "same_tables (fst (apply_formed L clk (fj_apply_scope j') q u)) ?t"
        using process_claimed_tables [of ?s L C c clk job] by (auto simp: d delivered_def)
      have "st_observations ?s = st_observations st" using start by (simp add: formed_at_most_once_def)
      then have "get_observation ?s = get_observation st" by (simp add: get_observation_def fun_eq_iff)
      then have "q = p" using f(1) job assms(2) by (auto simp: formed_for_def p_def)
      then have "formed_at_most_once st (pr_id p) (fst (apply_formed L clk (fj_apply_scope j') q u))"
        using apply_formed_once [OF formed_for_create [OF f(1)]] formed_at_most_once_same [OF f(2) start] by blast
      then show ?thesis using f(3) formed_at_most_once_same by blast
    qed
    then show ?case using Cons.IH Cons.prems(2) by simp
  qed simp
  moreover have "formed_at_most_once st (pr_id p) st" by (simp add: formed_at_most_once_def)
  ultimately show ?thesis by blast
qed

text \<open>
  C21. The queue delivers at least once, and a job whose proposal does not change is formed
  at most once. Take any number of deliveries of one payload, each with its own worker
  configuration, clock, claimed row and state of the queue, and each ending wherever it
  does (at an error, at a failed embedding, at a lost lease, or with success). If the job is
  generator-free, or all deliveries have the same generator under the same names (a
  function here: it answers the same request alike), then all deliveries together create
  one memory at most, with one version and one record of the application; every other row
  of these tables and all evidence stay as they were. A generator that answers a second
  delivery differently is outside this, and then a second memory is formed (see
  \<open>assisted_retry_forms_twice\<close>).
\<close>

theorem redelivery_forms_once:
  assumes "jc_decode_job C payload = Inr j"
    and "list_all (\<lambda>(c, clk, job, js). jb_payload job = payload) ds"
    and "fj_mode j = ''generator-free'' \<or> (\<exists>g provider model. list_all (\<lambda>(c, clk, job, js).
      wk_generator c = g \<and> wk_generator_provider c = provider \<and> wk_generator_model c = model) ds)"
    and "st' = fold (\<lambda>(c, clk, job, js) st. fst (process_claimed L C c clk job (st\<lparr>st_jobs := js\<rparr>))) ds st"
  shows "\<exists>ms vs os. st_memories st' = st_memories st @ ms \<and> st_versions st' = st_versions st @ vs \<and>
    st_operations st' = st_operations st @ os \<and> length ms \<le> 1 \<and> length vs = length ms \<and> length os = length ms \<and>
    st_observations st' = st_observations st"
proof -
  have "\<exists>s. list_all (\<lambda>(c, clk, job, js). job_strategy c j = s) ds"
    using assms(3)
  proof (elim disjE exE)
    fix g provider model
    assume "list_all (\<lambda>(c, clk, job, js). wk_generator c = g \<and> wk_generator_provider c = provider \<and> wk_generator_model c = model) ds"
    then show ?thesis
      by (intro exI [of _ "job_strategy \<lparr>wk_generator = g, wk_generator_provider = provider, wk_generator_model = model,
            wk_embedder = None, wk_embedding_provider = '''', wk_embedding_model = '''', wk_embedding_dimensions = 0,
            wk_lease = 0, wk_poll_interval = 0\<rparr> j"])
        (auto simp: list_all_iff job_strategy_def)
  qed (auto simp: list_all_iff job_strategy_def)
  then obtain s where "list_all (\<lambda>(c, clk, job, js). job_strategy c j = s) ds" by blast
  then have "list_all (\<lambda>(c, clk, job, js). jb_payload job = payload \<and> job_strategy c j = s) ds"
    using assms(2) by (induction ds) auto
  from deliveries_once [OF this assms(1), of st L] obtain i where "formed_at_most_once st i st'"
    unfolding assms(4) delivered_def by blast
  then show ?thesis unfolding formed_at_most_once_def by (metis le_numeral_extra(4) list.size(3) zero_le_one)
qed

section \<open>A worker on a concrete queue\<close>

text \<open>A codec that knows one job and the create request the baseline forms for it.\<close>

definition formed_strategy :: formation_strategy where
  "formed_strategy = projr (new_generator_free FunctionFactual)"

definition formed_create :: memory_create where
  "formed_create = formation_create formed_strategy sample_observation
     (projr (baseline_payload sample_lib FunctionFactual sample_observation))"

definition worker_lib :: lib where
  "worker_lib = sample_lib\<lparr>lb_decode_create := (\<lambda>s. if s = ''formed'' then Inr formed_create else Inl (Errorf ''json'')),
     lb_encode_create := (\<lambda>c. ''formed'')\<rparr>"

definition sample_formation_job :: formation_job where
  "sample_formation_job = \<lparr>fj_observation_id = ''obs-1'', fj_function = FunctionFactual, fj_mode = ''generator-free'',
     fj_apply_scope = sample_scope, fj_working_expires_at = None, fj_working_global_recall = False\<rparr>"

definition sample_codec :: job_codec where
  "sample_codec = \<lparr>jc_encode_job = (\<lambda>j. ''form''),
     jc_decode_job = (\<lambda>s. if s = ''form'' then Inr sample_formation_job else Inl (Errorf ''json'')),
     jc_unmarshal_create = (\<lambda>s. if s = ''formed'' then Inr formed_create else Inl (Errorf ''json''))\<rparr>"

definition sample_worker :: worker_config where
  "sample_worker = \<lparr>wk_generator = None, wk_generator_provider = '''', wk_generator_model = '''', wk_embedder = None,
     wk_embedding_provider = '''', wk_embedding_model = '''', wk_embedding_dimensions = 0,
     wk_lease = 60000000000, wk_poll_interval = 100000000\<rparr>"

definition sample_clock :: "int \<Rightarrow> worker_clock" where
  "sample_clock n = \<lparr>ck_claim = sample_time n, ck_created = sample_time (n + 1), ck_updated = sample_time (n + 1),
     ck_apply = sample_time (n + 2), ck_embed = sample_time (n + 3), ck_complete = sample_time (n + 4), ck_fail = sample_time (n + 5)\<rparr>"

definition formed_proposal :: proposal where
  "formed_proposal = projr (propose worker_lib formed_strategy sample_observation)"

abbreviation sample_error :: "go_error \<Rightarrow> string" where
  "sample_error \<equiv> (\<lambda>e. ''error'')"

lemma store_queued_store_ok: "store_ok store_queued"
proof -
  have "st_memories store_queued = [] \<and> st_versions store_queued = [] \<and> st_dependencies store_queued = [] \<and>
      st_fts store_queued = [] \<and> st_embeddings store_queued = [] \<and> st_operations store_queued = []"
    by code_simp
  then have "store_ok store_queued = store_ok empty_store" by (intro store_ok_cong) (simp_all add: empty_store_def)
  then show ?thesis using store_ok_empty by simp
qed





theorem worker_keeps_invariants_witness:
  "store_ok (fst (drain worker_lib sample_codec sample_worker sample_error [sample_clock 20, sample_clock 30] store_queued)) \<and>
   map me_state (st_memories (fst (drain worker_lib sample_codec sample_worker sample_error
     [sample_clock 20, sample_clock 30] store_queued))) = [MemoryActive]"
proof
  show "store_ok (fst (drain worker_lib sample_codec sample_worker sample_error [sample_clock 20, sample_clock 30] store_queued))"
    using worker_keeps_invariants [OF store_queued_store_ok store_queued_ok] by blast
  show "map me_state (st_memories (fst (drain worker_lib sample_codec sample_worker sample_error
     [sample_clock 20, sample_clock 30] store_queued))) = [MemoryActive]" by code_simp
qed



theorem same_proposal_again_witness:
  "\<exists>st1 m. form_and_apply worker_lib sample_codec sample_worker (sample_clock 20) sample_formation_job sample_observation
       formed_proposal store_queued = (st1, Inr m) \<and>
     form_and_apply worker_lib sample_codec sample_worker (sample_clock 30) sample_formation_job sample_observation
       formed_proposal st1 = (st1, Inr m)"
proof -
  have "\<not> isl (snd (form_and_apply worker_lib sample_codec sample_worker (sample_clock 20) sample_formation_job
      sample_observation formed_proposal store_queued))" by code_simp
  then obtain st1 m where run: "form_and_apply worker_lib sample_codec sample_worker (sample_clock 20) sample_formation_job
      sample_observation formed_proposal store_queued = (st1, Inr m)"
    by (metis isl_def sum.exhaust surjective_pairing)
  have facts: "ck_apply (sample_clock 30) \<noteq> 0" "pr_kind formed_proposal = ProposalCreate" by code_simp+
  have "wk_embedder sample_worker = None" by (simp add: sample_worker_def)
  with same_proposal_again [OF store_queued_store_ok run facts, of sample_worker] run show ?thesis by blast
qed

text \<open>Two deliveries of the sample job, by passes that each claimed it.\<close>

definition sample_deliveries :: "(worker_config \<times> worker_clock \<times> job \<times> job list) list" where
  "sample_deliveries = map (\<lambda>n. (sample_worker, sample_clock n, leased ''w'' (sample_time n) 60000000000 (hd (st_jobs store_queued)),
     st_jobs store_queued)) [20, 90]"

theorem redelivery_forms_once_witness:
  "\<exists>ms. st_memories (fold (\<lambda>(c, clk, job, js) st. fst (process_claimed worker_lib sample_codec c clk job (st\<lparr>st_jobs := js\<rparr>)))
       sample_deliveries store_queued) = st_memories store_queued @ ms \<and> length ms = 1"
proof -
  let ?st' = "fold (\<lambda>(c, clk, job, js) st. fst (process_claimed worker_lib sample_codec c clk job (st\<lparr>st_jobs := js\<rparr>)))
       sample_deliveries store_queued"
  have "jc_decode_job sample_codec ''form'' = Inr sample_formation_job" "fj_mode sample_formation_job = ''generator-free''"
    by (simp_all add: sample_codec_def sample_formation_job_def)
  moreover have "list_all (\<lambda>(c, clk, job, js). jb_payload job = ''form'') sample_deliveries" by code_simp
  ultimately obtain ms where "st_memories ?st' = st_memories store_queued @ ms" "length ms \<le> 1"
    using redelivery_forms_once [OF _ _ _ refl, of sample_codec "''form''" sample_formation_job sample_deliveries worker_lib store_queued]
    by blast
  moreover have "length (st_memories ?st') = 1" "st_memories store_queued = []" by code_simp+
  ultimately show ?thesis by auto
qed

text \<open>
  An assisted job whose first pass formed its memory and then failed at the embedding goes
  back to the queue; the generator is asked again, and a different answer has a different
  proposal id: the job leaves two memories of one observation.
\<close>

definition answering :: "string \<Rightarrow> generator" where
  "answering s r = Inr \<lparr>gs_text = ''{\"text\":\"'' @ s @ ''\",\"predicate\":\"likes\"}'', gs_finish_reason = ''stop'',
     gs_usage = \<lparr>us_input_tokens = 1, us_output_tokens = 1, us_total_tokens = 2\<rparr>\<rparr>"

definition answered_create :: "string \<Rightarrow> memory_create" where
  "answered_create s =
     \<lparr>mc_scope = ob_scope sample_observation, mc_function = FunctionFactual,
      mc_taxonomy = formation_taxonomy FunctionFactual ModeAssisted,
      mc_payload = factual_payload \<lparr>fm_claim_subject = sc_subject (ob_scope sample_observation), fm_predicate = ''likes'',
        fm_object = text_content s, fm_epistemic = EpistemicInferred, fm_confidence = None\<rparr>,
      mc_provenance = formation_provenance sample_observation, mc_valid_time = None, mc_conflict_group = '''', mc_derived_from = []\<rparr>"

definition decode_answered :: "string \<Rightarrow> memory_create result" where
  "decode_answered s = (if s = ''green'' \<or> s = ''black'' then Inr (answered_create s) else Inl (Errorf ''json''))"

definition encode_answered :: "memory_create \<Rightarrow> string" where
  "encode_answered c =
     (if memory_text (mc_payload c) = ''likes'' @ [CHR 0x0A] @ ''green'' then ''green'' else ''black'')"

definition checksum :: "string \<Rightarrow> string" where
  "checksum s = replicate 32 (char_of (foldl (\<lambda>n c. (n + byte_of c) mod 256) 0 (take 8 (rev s))))"

definition retry_lib :: lib where
  "retry_lib = sample_lib\<lparr>lb_sha256 := checksum, lb_decode_create := decode_answered, lb_encode_create := encode_answered\<rparr>"

definition retry_codec :: job_codec where
  "retry_codec = \<lparr>jc_encode_job = (\<lambda>j. ''form''),
     jc_decode_job = (\<lambda>s. Inr (sample_formation_job\<lparr>fj_mode := ''assisted''\<rparr>)), jc_unmarshal_create = decode_answered\<rparr>"

definition failing_embedder :: "string \<Rightarrow> worker_config" where
  "failing_embedder answer = sample_worker\<lparr>wk_generator := Some (answering answer), wk_generator_provider := ''local'',
     wk_generator_model := ''model-1'', wk_embedder := Some (\<lambda>r. Inl (Errorf ''embedder is down'')),
     wk_embedding_provider := ''local'', wk_embedding_model := ''embed-1'', wk_embedding_dimensions := 3\<rparr>"

definition answered_run :: "string \<Rightarrow> worker_clock \<Rightarrow> store \<Rightarrow> store \<times> applied_mutation result" where
  "answered_run s clk = form_and_apply retry_lib retry_codec (failing_embedder s) clk (sample_formation_job\<lparr>fj_mode := ''assisted''\<rparr>)
     sample_observation
     (projr (propose retry_lib (projr (new_assisted FunctionFactual (Some (answering s)) ''local'' ''model-1'')) sample_observation))"

lemma assisted_retry_forms_twice:
  "length (st_memories (fst (answered_run ''black'' (sample_clock 40) (fst (answered_run ''green'' (sample_clock 20) store_queued))))) = 2"
  by code_simp

end
