(* ===== verification/LifecycleProps.thy ===== *)
theory LifecycleProps
  imports Samples
begin

text \<open>
  The properties of the lifecycle service over the SQLite repository: what every
  mutation keeps, who may change what, replay, bitemporal history, staleness, forgetting
  and the flow of visibility. Each theorem with a hypothesis is followed by an
  application of it to a database computed by the model (theory Samples).
\<close>

section \<open>Every step keeps the database well formed\<close>

text \<open>
  C1. The lifecycle service over the SQLite adapter keeps the database well formed,
  whatever the proposal, the policy, the codec and the digest are: unique keys,
  dependency edges between stored versions and without cycles, one open version per
  memory at the end of a chain of closed ones, visibility along dependencies, no
  indexed text of a forgotten memory, valid memory rows.
\<close>

theorem lifecycle_keeps_store_ok:
  assumes "store_ok st"
  shows "store_ok (fst (service_apply L policy (apply_proposal_authorized L) st sc p t))"
  using service_state [of L policy "apply_proposal_authorized L" st sc p t]
    apply_authorized_ok [OF assms, of L p sc t] assms by metis

theorem lifecycle_keeps_store_ok_witness:
  "store_ok (fst (service_apply sample_lib (owner_policy sample_lib) (apply_proposal_authorized sample_lib)
     store_derived sample_scope coffee_proposal (sample_time 100)))"
  by (rule lifecycle_keeps_store_ok [OF store_derived_ok])

section \<open>Who may change what\<close>

text \<open>
  The database changes only for a valid proposal of the authorized namespace that
  the policy evaluated to a decision with a reason that allows it.
\<close>

theorem changes_only_when_allowed:
  assumes "service_apply L policy (apply_proposal_authorized L) st sc p t = (st', d, r)" and "st' \<noteq> st"
  shows "scope_validate sc = None \<and> proposal_validate L p = None \<and> pr_namespace p = sc_namespace sc \<and>
    (\<exists>pd m. policy sc p = Inr pd \<and> pd_allow pd \<and> pd_reason_code pd \<noteq> '''' \<and> d = Some pd \<and>
       apply_proposal_authorized L st p sc t = (st', Inr m))"
  by (rule sqlite_repository.changed_only_if_allowed [OF assms])

lemma sample_service:
  "map me_state (st_memories (fst (service_apply sample_lib (owner_policy sample_lib)
     (apply_proposal_authorized sample_lib) empty_store sample_scope tea_proposal (sample_time 10)))) = [MemoryActive]"
  by code_simp

theorem changes_only_when_allowed_witness:
  "\<exists>pd. owner_policy sample_lib sample_scope tea_proposal = Inr pd \<and> pd_allow pd"
proof -
  obtain st' d r where run: "service_apply sample_lib (owner_policy sample_lib) (apply_proposal_authorized sample_lib)
      empty_store sample_scope tea_proposal (sample_time 10) = (st', d, r)"
    by (metis prod_cases3)
  have "st' \<noteq> empty_store" using sample_service run by (auto simp: empty_store_def)
  from changes_only_when_allowed [OF run this] show ?thesis by blast
qed

text \<open>
  C12. A proposal that a model produced, or whose payload is untrusted, never archives
  or forgets anything under the owner policy: the service refuses it with the policy's
  reason and the database is unchanged.
\<close>

theorem model_cannot_destroy:
  assumes "pr_kind p \<in> {ProposalArchive, ProposalForget}" and "pr_provider p \<noteq> '''' \<or> pr_untrusted p"
    and "scope_validate sc = None" "proposal_validate L p = None" "pr_namespace p = sc_namespace sc" "t \<noteq> 0"
  shows "service_apply L (owner_policy L) repo st sc p t =
    (st, Some (decision False ''model_destructive_change_denied''),
     Inl (ErrPolicyDenied ''model_destructive_change_denied''))"
  using assms by (auto simp: service_apply_def owner_policy_def is_zero_time_def simp del: scope_validate_None)

theorem model_cannot_destroy_witness:
  "fst (service_apply sample_lib (owner_policy sample_lib) (apply_proposal_authorized sample_lib) store_coffee
     sample_scope (forget_proposal\<lparr>pr_provider := ''model''\<rparr>) (sample_time 300)) = store_coffee"
proof -
  have "scope_validate sample_scope = None" by code_simp
  moreover have "proposal_validate sample_lib (forget_proposal\<lparr>pr_provider := ''model''\<rparr>) = None" by code_simp
  ultimately show ?thesis
    by (subst model_cannot_destroy) (simp_all add: forget_proposal_def sample_proposal_def sample_scope_def sample_time_def)
qed

text \<open>
  C2. Isolation: a mutation applied under a scope leaves every memory outside it (of
  another namespace, owner or subject) as it was; versions of such a memory are
  unchanged except that a current one may be marked stale.
\<close>

theorem mutation_isolated:
  assumes "store_ok st" and "apply_proposal_authorized L st p sc t = (st', r)"
    and "m \<in> set (st_memories st)" and "\<not> scope_authorizes_memory sc (me_scope m)"
  shows "m \<in> set (st_memories st') \<and>
    (\<forall>v \<in> set (st_versions st). mv_memory_id v = me_id m \<longrightarrow> (\<exists>w \<in> set (st_versions st'). turned_stale v w))"
proof -
  have "touches st st' (authorized_ids sc st)"
  proof (cases r)
    case (Inl e)
    then show ?thesis using sqlite_repository.failed_unchanged assms(2) touches_refl by metis
  next
    case (Inr a)
    then show ?thesis using apply_with_touches [OF assms(1)] assms(2)
      by (auto simp: apply_proposal_authorized_def split: option.splits)
  qed
  moreover have "me_id m \<notin> authorized_ids sc st" using assms(3,4) by (auto simp: authorized_ids_def)
  ultimately show ?thesis using assms(3) unfolding touches_def by metis
qed

definition bob_scope :: scope where
  "bob_scope = sample_scope\<lparr>sc_owner := ''bob'', sc_actor := ''bob''\<rparr>"

lemma tea_memory_stored: "map me_scope (st_memories store_tea) = [sample_scope]"
  by code_simp

theorem mutation_isolated_witness:
  "set (st_memories store_tea) \<subseteq>
     set (st_memories (fst (apply_proposal_authorized sample_lib store_tea coffee_proposal bob_scope (sample_time 50))))"
proof
  fix m assume m: "m \<in> set (st_memories store_tea)"
  have "me_scope m \<in> set (map me_scope (st_memories store_tea))" using m by simp
  then have "me_scope m = sample_scope" unfolding tea_memory_stored by simp
  then have "\<not> scope_authorizes_memory bob_scope (me_scope m)"
    by (simp add: scope_authorizes_memory_def bob_scope_def sample_scope_def)
  then show "m \<in> set (st_memories (fst (apply_proposal_authorized sample_lib store_tea coffee_proposal bob_scope (sample_time 50))))"
    using mutation_isolated [OF store_tea_ok _ m, of sample_lib coffee_proposal bob_scope "sample_time 50"]
    by (metis prod.collapse)
qed

text \<open>
  C10. Stored content is never rewritten: after any lifecycle mutation every version
  row is still there with its identity, number, payload, provenance, dependencies and
  start of system time.
\<close>

theorem content_is_immutable:
  assumes "store_ok st" and "v \<in> set (st_versions st)"
  shows "\<exists>w \<in> set (st_versions (fst (apply_proposal_authorized L st p sc t))). same_content v w"
proof (cases "apply_proposal_authorized L st p sc t")
  case (Pair st' r)
  have "touches st st' (authorized_ids sc st)"
  proof (cases r)
    case (Inl e)
    then show ?thesis using sqlite_repository.failed_unchanged Pair touches_refl by metis
  next
    case (Inr a)
    then show ?thesis using apply_with_touches [OF assms(1)] Pair
      by (auto simp: apply_proposal_authorized_def split: option.splits)
  qed
  then show ?thesis using assms(2) Pair unfolding touches_def by auto
qed

theorem content_is_immutable_witness:
  "list_all (\<lambda>v. \<exists>w \<in> set (st_versions store_coffee). same_content v w) (st_versions store_derived)"
  unfolding store_coffee_def sample_apply_def list_all_iff by (intro ballI content_is_immutable store_derived_ok)

section \<open>Replay and history\<close>

text \<open>
  C7. An applied proposal replays: a second application under the same scope, at any
  later or earlier instant, changes nothing and returns the memory, the version and
  the operation record of the first.
\<close>

theorem applied_proposal_replays:
  assumes "store_ok st" and "apply_proposal_authorized L st p sc t = (st', Inr a)" and "t' \<noteq> 0"
  shows "apply_proposal_authorized L st' p sc t' = (st', Inr a)"
proof -
  have valid: "scope_validate sc = None" and run: "apply_with L st p (Some sc) (sc_actor sc) t = (st', Inr a)"
    using assms(2) by (auto simp: apply_proposal_authorized_def split: option.splits)
  have "sc_actor sc \<noteq> ''''" using run by (simp add: apply_with_Inr)
  then show ?thesis
    using apply_with_replays [OF assms(1) run _ assms(3)] valid
    by (simp add: apply_proposal_authorized_def del: scope_validate_None)
qed

theorem applied_proposal_replays_witness:
  "fst (apply_proposal_authorized sample_lib store_coffee coffee_proposal sample_scope (sample_time 500)) = store_coffee"
proof -
  have ok: "case snd (apply_proposal_authorized sample_lib store_derived coffee_proposal sample_scope (sample_time 100)) of
      Inl e \<Rightarrow> False | Inr a \<Rightarrow> True"
    by code_simp
  then obtain a where "apply_proposal_authorized sample_lib store_derived coffee_proposal sample_scope (sample_time 100) =
      (store_coffee, Inr a)"
    by (cases "apply_proposal_authorized sample_lib store_derived coffee_proposal sample_scope (sample_time 100)")
      (auto simp: store_coffee_def sample_apply_def split: sum.splits)
  from applied_proposal_replays [OF store_derived_ok this, of "sample_time 500"]
  show ?thesis by (simp add: sample_time_def)
qed

text \<open>
  C8. System time is an append-only history. What was in force at an instant before a
  mutation's own instant \<open>t\<close> is in force at that instant ever after, for every memory and
  whatever the mutation is. From \<open>t\<close> on, a first application of a create, an update or a
  consolidation shows exactly its new version for the memory it answers, and leaves every
  other memory as it was; a refused or repeated application, an archive and a forget leave
  all of system time as it was. At no instant is more than one version of a memory in
  force. So a supersede has to end the replaced version, and exactly where the new one
  starts.
\<close>

theorem system_time_history:
  assumes "store_ok st" and "apply_proposal_authorized L st p sc t = (st', r)"
  shows "in_force st' i s = (case r of
      Inr a \<Rightarrow> if find_apply st (pr_id p) = None \<and> pr_kind p \<notin> {ProposalArchive, ProposalForget} \<and>
          i = me_id (am_memory a) \<and> t \<le> s
        then {mv_id (am_version a)} else in_force st i s
    | Inl e \<Rightarrow> in_force st i s) \<and>
    (in_force st' i s = {} \<or> (\<exists>v. in_force st' i s = {v}))"
proof -
  have "in_force st' i s = {} \<or> (\<exists>v. in_force st' i s = {v})"
  proof -
    have "store_ok st'" using apply_authorized_ok [OF assms(1), of L p sc t] assms(2) by simp
    from one_version_at_a_time [OF this]
    have "x = y" if "x \<in> in_force st' i s" "y \<in> in_force st' i s" for x y
      using that by (auto simp: in_force_def)
    then show ?thesis by blast
  qed
  moreover have "in_force st' i s = (case r of
      Inr a \<Rightarrow> if find_apply st (pr_id p) = None \<and> pr_kind p \<notin> {ProposalArchive, ProposalForget} \<and>
          i = me_id (am_memory a) \<and> t \<le> s
        then {mv_id (am_version a)} else in_force st i s
    | Inl e \<Rightarrow> in_force st i s)"
  proof (cases r)
    case (Inl e)
    then show ?thesis using sqlite_repository.failed_unchanged assms(2) by fastforce
  next
    case (Inr a)
    then have run: "apply_with L st p (Some sc) (sc_actor sc) t = (st', Inr a)"
      using assms(2) by (auto simp: apply_proposal_authorized_def split: option.splits)
    show ?thesis
    proof (cases "find_apply st (pr_id p) = None")
      case False
      then have "st' = st" using run by (auto simp: apply_with_Inr load_applied_proposal_def bind_result_Inr)
      then show ?thesis using False Inr by auto
    next
      case True
      then have "apply_fresh L st p (Some sc) (sc_actor sc) t = Inr (st', a)"
        using run by (simp add: apply_with_Inr load_applied_proposal_def)
      then obtain st1 m v o' where mut: "apply_mutation L st p (Some sc) t = Inr (st1, m, v)"
        and ins: "insert_operation o' st1 = Inr st'" and a: "am_memory a = m" "am_version a = v"
        unfolding apply_fresh_def by (auto simp: bind_result_Inr)
      have "in_force st' i s = in_force st1 i s" using ins by (intro in_force_cong) (auto simp: insert_operation_Inr)
      then show ?thesis
        using mutation_shows [OF assms(1) mut] True Inr a by (auto simp: shows_from_def split: if_splits)
    qed
  qed
  ultimately show ?thesis by blast
qed

theorem system_time_history_witness:
  "in_force store_coffee (sample_id ''mem'' ''p1'') (sample_time 60) = in_force store_derived (sample_id ''mem'' ''p1'') (sample_time 60) \<and>
   (\<exists>v. in_force store_coffee (sample_id ''mem'' ''p1'') (sample_time 150) = {v} \<and> v \<noteq> sample_id ''mv'' ''p1'')"
proof -
  let ?i = "sample_id ''mem'' ''p1''"
  have "case snd (apply_proposal_authorized sample_lib store_derived coffee_proposal sample_scope (sample_time 100)) of
      Inl e \<Rightarrow> False | Inr a \<Rightarrow> me_id (am_memory a) = ?i \<and> mv_id (am_version a) \<noteq> sample_id ''mv'' ''p1''"
    by code_simp
  then obtain a where run: "apply_proposal_authorized sample_lib store_derived coffee_proposal sample_scope (sample_time 100) =
      (store_coffee, Inr a)" and a: "me_id (am_memory a) = ?i" "mv_id (am_version a) \<noteq> sample_id ''mv'' ''p1''"
    by (cases "apply_proposal_authorized sample_lib store_derived coffee_proposal sample_scope (sample_time 100)")
      (auto simp: store_coffee_def sample_apply_def split: sum.splits)
  have "find_apply store_derived (pr_id coffee_proposal) = None" "pr_kind coffee_proposal \<notin> {ProposalArchive, ProposalForget}"
    by code_simp+
  moreover have "\<not> sample_time 100 \<le> sample_time 60" "sample_time 100 \<le> sample_time 150" by (simp_all add: sample_time_def)
  ultimately show ?thesis
    using system_time_history [OF store_derived_ok run, of ?i "sample_time 60"]
      system_time_history [OF store_derived_ok run, of ?i "sample_time 150"] a by auto
qed

section \<open>Derived memories\<close>

text \<open>
  C9. Private content stays with its owner: whatever proposals are applied, in whatever
  order and under whatever scopes, policy and codec, every version that is afterwards
  derived from a version of a private memory, through any number of steps, belongs to a
  private memory of the same owner; what is derived from shared content is not public;
  and no derivation leaves its namespace or its subject.
\<close>

theorem private_content_stays:
  assumes "store_ok st" and "st' = service_calls L policy calls st"
    and "c \<in> set (descendants (st_dependencies st') p)"
    and "version_scope st' p = Some a" "version_scope st' c = Some b"
  shows "sc_namespace b = sc_namespace a \<and> sc_subject b = sc_subject a \<and>
    (sc_visibility a = VisibilityPrivate \<longrightarrow> sc_visibility b = VisibilityPrivate \<and> sc_owner b = sc_owner a) \<and>
    (sc_visibility a = VisibilityShared \<longrightarrow> sc_visibility b \<noteq> VisibilityPublic)"
  using descendants_flow [OF _ assms(3-5)] service_calls_ok [OF assms(1)] assms(2) by (simp add: scope_flows_def)

theorem private_content_stays_witness:
  "sc_visibility (the (version_scope (service_calls sample_lib (owner_policy sample_lib)
     [(sample_scope, coffee_proposal, sample_time 100)] store_derived) (sample_id ''mv'' ''p2''))) = VisibilityPrivate"
proof -
  let ?st = "service_calls sample_lib (owner_policy sample_lib) [(sample_scope, coffee_proposal, sample_time 100)] store_derived"
  have "list_ex (\<lambda>i. i = sample_id ''mv'' ''p2'') (descendants (st_dependencies ?st) (sample_id ''mv'' ''p1''))"
    and a: "version_scope ?st (sample_id ''mv'' ''p1'') = Some sample_scope"
    and b: "version_scope ?st (sample_id ''mv'' ''p2'') = Some sample_scope"
    by code_simp+
  then have "sample_id ''mv'' ''p2'' \<in> set (descendants (st_dependencies ?st) (sample_id ''mv'' ''p1''))" by (auto simp: list_ex_iff)
  from private_content_stays [OF store_derived_ok refl this a b] b show ?thesis by (simp add: sample_scope_def)
qed

text \<open>
  C11. Superseding: a first application of an update or consolidation that is not a
  conflict ends the replaced version in system time at the instant the new version
  starts, names it as superseded, and leaves no version derived from it, at any
  distance, current.
\<close>

theorem supersede_closes_and_stales:
  assumes "store_ok st" and "apply_proposal_authorized L st p sc t = (st', Inr a)"
    and "find_apply st (pr_id p) = None"
    and "pr_kind p \<in> {ProposalUpdate, ProposalConsolidate}"
    and "lb_decode_evolution L (pr_payload p) = Inr e" "ev_mode e \<noteq> EvolutionConflict"
    and "load_current_memory st (pr_target_id p) = Inr (m, c)"
  shows "(\<exists>w \<in> set (st_versions st'). mv_id w = mv_id c \<and> mv_state w = VersionSuperseded \<and>
      tr_to (mv_system_time w) = Some t \<and> tr_from (mv_system_time (am_version a)) = t \<and>
      mv_supersedes (am_version a) = [mv_id c]) \<and>
    (\<forall>w \<in> set (st_versions st'). mv_id w \<in> set (descendants (st_dependencies st) (mv_id c)) \<longrightarrow>
      mv_state w \<noteq> VersionCurrent)"
proof -
  have "apply_with L st p (Some sc) (sc_actor sc) t = (st', Inr a)"
    using assms(2) by (auto simp: apply_proposal_authorized_def split: option.splits)
  then have "apply_fresh L st p (Some sc) (sc_actor sc) t = Inr (st', a)"
    using assms(3) by (simp add: apply_with_Inr load_applied_proposal_def)
  then obtain st1 m' v o' where mut: "apply_mutation L st p (Some sc) t = Inr (st1, m', v)"
    and ins: "insert_operation o' st1 = Inr st'" and a: "am_version a = v"
    unfolding apply_fresh_def by (auto simp: bind_result_Inr)
  have st1: "st_versions st' = st_versions st1" using ins by (auto simp: insert_operation_Inr)
  have "apply_evolution L st p (Some sc) t = Inr (st1, m', v)"
    using mut assms(4) by (auto simp: apply_mutation_def)
  then have active: "me_state m = MemoryActive" and run: "supersede_current L st p m c e t = Inr (st1, m', v)"
    using assms(5-7) unfolding apply_evolution_Inr evolution_accepted_def by auto
  show ?thesis
    using supersede_effect [OF assms(1,7) active run] unfolding st1 a by blast
qed

theorem supersede_closes_and_stales_witness:
  "filter (\<lambda>w. mv_id w = sample_id ''mv'' ''p2'' \<and> mv_state w = VersionCurrent) (st_versions store_coffee) = []"
proof -
  have dec: "lb_decode_evolution sample_lib (pr_payload coffee_proposal) = Inr sample_evolution"
    and mode: "ev_mode sample_evolution \<noteq> EvolutionConflict"
    by (simp_all add: sample_lib_def coffee_proposal_def sample_proposal_def sample_evolution_def)
  have kind: "pr_kind coffee_proposal \<in> {ProposalUpdate, ProposalConsolidate}"
    by (simp add: coffee_proposal_def sample_proposal_def)
  have none: "find_apply store_derived (pr_id coffee_proposal) = None" by code_simp
  have "case snd (apply_proposal_authorized sample_lib store_derived coffee_proposal sample_scope (sample_time 100)) of
      Inl e \<Rightarrow> False | Inr a \<Rightarrow> True"
    by code_simp
  then obtain a where run: "apply_proposal_authorized sample_lib store_derived coffee_proposal sample_scope (sample_time 100) =
      (store_coffee, Inr a)"
    by (cases "apply_proposal_authorized sample_lib store_derived coffee_proposal sample_scope (sample_time 100)")
      (auto simp: store_coffee_def sample_apply_def split: sum.splits)
  have "case load_current_memory store_derived (pr_target_id coffee_proposal) of
      Inl e \<Rightarrow> False | Inr (m, c) \<Rightarrow> mv_id c = sample_id ''mv'' ''p1''"
    by code_simp
  then obtain m c where load: "load_current_memory store_derived (pr_target_id coffee_proposal) = Inr (m, c)"
    and c: "mv_id c = sample_id ''mv'' ''p1''"
    by (auto split: sum.splits)
  have "sample_id ''mv'' ''p2'' \<in> set (descendants (st_dependencies store_derived) (sample_id ''mv'' ''p1''))"
    by code_simp
  with supersede_closes_and_stales [OF store_derived_ok run none kind dec mode load] c
  show ?thesis unfolding filter_empty_conv by metis
qed

text \<open>
  C13. The recursive queries compute exactly the transitive closure of the stored
  dependency edges, and end on every edge list, cyclic ones included.
\<close>

theorem descendants_are_the_closure:
  "y \<in> set (descendants deps x) \<longleftrightarrow> (x, y) \<in> (set deps)\<^sup>+"
  by (simp add: set_descendants)

text \<open>
  No stored version is derived from itself, directly or through others.
\<close>

theorem nothing_derives_from_itself:
  assumes "store_ok st"
  shows "x \<notin> set (descendants (st_dependencies st) x)"
  using assms by (simp add: set_descendants store_ok_def edges_ok_def acyclic_def)

theorem nothing_derives_from_itself_witness:
  "sample_id ''mv'' ''p1'' \<notin> set (descendants (st_dependencies store_coffee) (sample_id ''mv'' ''p1''))"
  by (rule nothing_derives_from_itself [OF store_coffee_ok])

section \<open>Forgetting\<close>

text \<open>
  Forgetting unindexes: in a well-formed database no lexical index row belongs to
  a forgotten memory and no embedding belongs to a version of one.
\<close>

theorem forgotten_is_unindexed:
  assumes "store_ok st" and "m \<in> set (st_memories st)" "me_state m = MemoryForgotten"
  shows "(\<forall>r \<in> set (st_fts st). fx_memory r \<noteq> me_id m) \<and>
    (\<forall>e \<in> set (st_embeddings st). \<forall>v \<in> set (st_versions st). mv_id v = eb_version e \<longrightarrow> mv_memory_id v \<noteq> me_id m)"
proof (intro conjI ballI impI)
  have index: "index_ok st" and keys: "keys_ok st" using assms(1) by (simp_all add: store_ok_def)
  show fts: "fx_memory r \<noteq> me_id m" if "r \<in> set (st_fts st)" for r
    using that assms(2,3) index unfolding index_ok_def by metis
  fix e v assume e: "e \<in> set (st_embeddings st)" and v: "v \<in> set (st_versions st)" "mv_id v = eb_version e"
  obtain r where r: "r \<in> set (st_fts st)" "fx_version r = eb_version e"
    using e index unfolding index_ok_def by (metis imageE)
  then obtain u where "u \<in> set (st_versions st)" "fx_version r = mv_id u" "fx_memory r = mv_memory_id u"
    using index unfolding index_ok_def by blast
  moreover have "u = v" using calculation keys_version_unique [OF keys] v r(2) by metis
  ultimately show "mv_memory_id v \<noteq> me_id m" using fts [OF r(1)] by simp
qed

theorem forgotten_is_unindexed_witness:
  "sample_id ''mem'' ''p1'' \<notin> fx_memory ` set (st_fts store_forgotten)"
proof -
  have "map (\<lambda>m. (me_id m, me_state m)) (st_memories store_forgotten) =
      [(sample_id ''mem'' ''p1'', MemoryForgotten), (sample_id ''mem'' ''p2'', MemoryActive)]"
    by code_simp
  then obtain m where "m \<in> set (st_memories store_forgotten)" "me_id m = sample_id ''mem'' ''p1''" "me_state m = MemoryForgotten"
    unfolding map_eq_Cons_conv by force
  from forgotten_is_unindexed [OF store_forgotten_ok this(1,3)] this(2) show ?thesis by auto
qed

end
