(* ===== verification/Purge.thy ===== *)
theory Purge
  imports LifecycleLaws
begin

text \<open>
  Physical deletion (\<open>sqlite/purge.go\<close>): the dependency closure of a memory, the
  delete with its cascades, and the mark-stale variant that removes only the target.
  The lemmas show that deleting any set of memories of one namespace keeps the database
  invariant, and which memories the closure query finds.
\<close>

section \<open>The purge closure\<close>

datatype purge_mode = PurgeCascade | PurgeMarkStale | PurgeModeOther string

text \<open>\<open>JOIN memories m ON m.id = ? ... m.namespace_id = ?\<close>\<close>

definition in_namespace :: "store \<Rightarrow> ident \<Rightarrow> ident \<Rightarrow> bool" where
  "in_namespace st ns i =
     (case find_row me_id i (st_memories st) of None \<Rightarrow> False | Some m \<Rightarrow> sc_namespace (me_scope m) = ns)"

definition version_tree :: "store \<Rightarrow> ident \<Rightarrow> ident \<Rightarrow> ident list" where
  "version_tree st ns i = reachable_rows (st_dependencies st)
     (map mv_id (filter (\<lambda>v. mv_memory_id v = i \<and> in_namespace st ns i) (st_versions st)))"

text \<open>\<open>ORDER BY derived, m.id, v.id\<close>\<close>

definition purge_order :: "ident \<Rightarrow> ident \<times> ident \<Rightarrow> string list" where
  "purge_order i r = [if fst r = i then ''0'' else ''1'', fst r, snd r]"

definition purge_rows :: "store \<Rightarrow> ident \<Rightarrow> ident \<Rightarrow> (ident \<times> ident) list" where
  "purge_rows st ns i = sort_key (purge_order i) (remdups (map (\<lambda>v. (mv_memory_id v, mv_id v))
     (filter (\<lambda>v. mv_id v \<in> set (version_tree st ns i) \<and> in_namespace st ns (mv_memory_id v))
       (st_versions st))))"

text \<open>The \<open>seen\<close> map: each memory once, in row order.\<close>

fun first_seen :: "'a list \<Rightarrow> 'a list \<Rightarrow> 'a list" where
  "first_seen seen [] = []"
| "first_seen seen (x # xs) =
     (if x \<in> set seen then first_seen seen xs else x # first_seen (x # seen) xs)"

definition purge_targets :: "store \<Rightarrow> ident \<Rightarrow> ident \<Rightarrow> ident list \<times> ident list" where
  "purge_targets st ns i =
     (first_seen [] (map fst (purge_rows st ns i)),
      map snd (filter (\<lambda>r. fst r \<noteq> i) (purge_rows st ns i)))"

section \<open>Deleting memories\<close>

text \<open>
  The rows \<open>DELETE FROM memories\<close> takes and what its foreign keys cascade to: the
  versions, and with them their dependencies on either side, embeddings and feedback.
\<close>

definition doomed :: "ident list \<Rightarrow> ident \<Rightarrow> memory \<Rightarrow> bool" where
  "doomed ids ns m \<longleftrightarrow> me_id m \<in> set ids \<and> sc_namespace (me_scope m) = ns"

definition doomed_versions :: "ident list \<Rightarrow> ident \<Rightarrow> store \<Rightarrow> ident set" where
  "doomed_versions ids ns st = mv_id ` set (filter
     (\<lambda>v. mv_memory_id v \<in> me_id ` set (filter (doomed ids ns) (st_memories st))) (st_versions st))"

definition delete_memories :: "ident list \<Rightarrow> ident \<Rightarrow> store \<Rightarrow> store" where
  "delete_memories ids ns st =
     (let gone = doomed_versions ids ns st in
      st\<lparr>st_memories := delete_rows (doomed ids ns) (st_memories st),
         st_versions := delete_rows (\<lambda>v. mv_id v \<in> gone) (st_versions st),
         st_dependencies := delete_rows (\<lambda>(p, c). p \<in> gone \<or> c \<in> gone) (st_dependencies st),
         st_embeddings := delete_rows (\<lambda>e. eb_version e \<in> gone) (st_embeddings st),
         st_feedback := delete_rows (\<lambda>f. fb_version f \<in> gone) (st_feedback st)\<rparr>)"

definition delete_index_rows :: "ident list \<Rightarrow> ident \<Rightarrow> store \<Rightarrow> store" where
  "delete_index_rows ids ns st = st\<lparr>st_fts :=
     delete_rows (\<lambda>r. fx_memory r \<in> set ids \<and> fx_namespace r = ns) (st_fts st)\<rparr>"

definition memory_reference :: "ident list \<Rightarrow> artifact_reference \<Rightarrow> bool" where
  "memory_reference ids r \<longleftrightarrow> rf_owner_type r = ''memory'' \<and> rf_owner_id r \<in> set ids"

definition detach_artifacts :: "ident list \<Rightarrow> store \<Rightarrow> store" where
  "detach_artifacts ids st = st\<lparr>st_artifact_refs := delete_rows (memory_reference ids) (st_artifact_refs st)\<rparr>"

definition insert_purge_receipt :: "purge_receipt \<Rightarrow> store \<Rightarrow> store result" where
  "insert_purge_receipt r st =
     bind_result
      (wrap_result ''insert purge receipt''
        (insert_row ''purge_receipts.id'' (pg_id r \<in> pg_id ` set (st_purge_receipts st)) r (st_purge_receipts st)))
      (\<lambda>rows. Inr (st\<lparr>st_purge_receipts := rows\<rparr>))"

text \<open>The statements after the closure: counts, deletes in order, receipt.\<close>

definition purge_rows_of :: "ident list \<Rightarrow> purge_receipt \<Rightarrow> store \<Rightarrow> (store \<times> purge_receipt) result" where
  "purge_rows_of ids receipt st =
     (let ns = pg_namespace receipt;
          r = receipt\<lparr>pg_versions_deleted := length (filter (\<lambda>v. mv_memory_id v \<in> set ids) (st_versions st)),
                      pg_artifacts_detached := length (filter (memory_reference ids) (st_artifact_refs st))\<rparr>;
          st1 = detach_artifacts ids (delete_index_rows ids ns st) in
      guard_check (err_if (length (filter (doomed ids ns) (st_memories st1)) \<noteq> length ids) ''purge removed memory rows'')
       (bind_result (insert_purge_receipt r (delete_memories ids ns st1)) (\<lambda>st2. Inr (st2, r))))"

definition purge_memory_with_mode ::
  "ident \<Rightarrow> ident \<Rightarrow> ident \<Rightarrow> ident \<Rightarrow> purge_mode \<Rightarrow> gtime \<Rightarrow> store \<Rightarrow> store \<times> purge_receipt result" where
  "purge_memory_with_mode receipt_id ns actor i mode at' st =
     transaction st
      (guard_check (err_if (receipt_id = '''' \<or> ns = '''' \<or> actor = '''' \<or> i = '''' \<or> is_zero_time at')
        ''purge requires receipt, namespace, actor, target, and time'')
      (guard_check (err_if (mode \<noteq> PurgeCascade \<and> mode \<noteq> PurgeMarkStale) ''purge mode is invalid'')
      (let (memories, descendant_versions) = purge_targets st ns i;
           receipt = \<lparr>pg_id = receipt_id, pg_namespace = ns, pg_target_id = i, pg_actor = actor,
             pg_versions_deleted = 0, pg_artifacts_detached = 0, pg_purged_at = at'\<rparr> in
       guard_check (err_if (memories = []) ''memory not found in namespace'')
        (if mode = PurgeMarkStale
         then purge_rows_of (take 1 memories) receipt (mark_stale (set descendant_versions) st)
         else purge_rows_of memories receipt st))))"

definition purge_memory ::
  "ident \<Rightarrow> ident \<Rightarrow> ident \<Rightarrow> ident \<Rightarrow> gtime \<Rightarrow> store \<Rightarrow> store \<times> purge_receipt result" where
  "purge_memory receipt_id ns actor i at' = purge_memory_with_mode receipt_id ns actor i PurgeCascade at'"

section \<open>Deleting keeps the invariant\<close>

lemma set_first_seen: "set (first_seen seen xs) = set xs - set seen"
  by (induction xs arbitrary: seen) auto

lemma distinct_first_seen: "distinct (first_seen seen xs)"
  by (induction xs arbitrary: seen) (auto simp: set_first_seen)

lemma set_purge_rows:
  "set (purge_rows st ns i) = {(mv_memory_id v, mv_id v) |v. v \<in> set (st_versions st) \<and>
     mv_id v \<in> set (version_tree st ns i) \<and> in_namespace st ns (mv_memory_id v)}"
  by (auto simp: purge_rows_def)

text \<open>Every stored memory with one of the ids is in the namespace, as the closure query ensures.\<close>

definition one_namespace :: "ident list \<Rightarrow> ident \<Rightarrow> store \<Rightarrow> bool" where
  "one_namespace ids ns st \<longleftrightarrow>
     (\<forall>m \<in> set (st_memories st). me_id m \<in> set ids \<longrightarrow> sc_namespace (me_scope m) = ns)"

definition erase :: "ident list \<Rightarrow> ident \<Rightarrow> store \<Rightarrow> store" where
  "erase ids ns st = delete_memories ids ns (detach_artifacts ids (delete_index_rows ids ns st))"

lemma doomed_one_namespace:
  "one_namespace ids ns st \<Longrightarrow> m \<in> set (st_memories st) \<Longrightarrow> doomed ids ns m \<longleftrightarrow> me_id m \<in> set ids"
  by (auto simp: one_namespace_def doomed_def)

lemma doomed_versions_iff:
  assumes "store_ok st" and "one_namespace ids ns st" and v: "v \<in> set (st_versions st)"
  shows "mv_id v \<in> doomed_versions ids ns st \<longleftrightarrow> mv_memory_id v \<in> set ids"
proof -
  have keys: "keys_ok st" and chain: "chain_ok st" using assms(1) by (simp_all add: store_ok_def)
  obtain m where m: "m \<in> set (st_memories st)" "me_id m = mv_memory_id v"
    by (rule chain_versionD [OF chain v])
  have "mv_memory_id v \<in> me_id ` set (filter (doomed ids ns) (st_memories st)) \<longleftrightarrow> mv_memory_id v \<in> set ids"
  proof
    assume "mv_memory_id v \<in> set ids"
    then have "m \<in> set (filter (doomed ids ns) (st_memories st))"
      using m doomed_one_namespace [OF assms(2)] by simp
    then show "mv_memory_id v \<in> me_id ` set (filter (doomed ids ns) (st_memories st))"
      using m(2) by (metis imageI)
  qed (auto simp: doomed_def)
  moreover have "mv_id v \<in> doomed_versions ids ns st \<longleftrightarrow>
      mv_memory_id v \<in> me_id ` set (filter (doomed ids ns) (st_memories st))"
    using keys_version_unique [OF keys v] v by (auto simp: doomed_versions_def)
  ultimately show ?thesis by simp
qed

lemma erase_sel [simp]:
  "st_memories (erase ids ns st) = delete_rows (doomed ids ns) (st_memories st)"
  "st_versions (erase ids ns st) = delete_rows (\<lambda>v. mv_id v \<in> doomed_versions ids ns st) (st_versions st)"
  "st_dependencies (erase ids ns st) = delete_rows
     (\<lambda>(p, c). p \<in> doomed_versions ids ns st \<or> c \<in> doomed_versions ids ns st) (st_dependencies st)"
  "st_embeddings (erase ids ns st) = delete_rows (\<lambda>e. eb_version e \<in> doomed_versions ids ns st) (st_embeddings st)"
  "st_feedback (erase ids ns st) = delete_rows (\<lambda>f. fb_version f \<in> doomed_versions ids ns st) (st_feedback st)"
  "st_fts (erase ids ns st) = delete_rows (\<lambda>r. fx_memory r \<in> set ids \<and> fx_namespace r = ns) (st_fts st)"
  "st_operations (erase ids ns st) = st_operations st"
  by (simp_all add: erase_def delete_memories_def detach_artifacts_def delete_index_rows_def doomed_versions_def Let_def)

lemma keys_erase: "keys_ok st \<Longrightarrow> keys_ok (erase ids ns st)"
  by (simp add: keys_ok_def distinct_key_delete_rows) (simp add: delete_rows_def)

lemma edges_erase: "edges_ok st \<Longrightarrow> edges_ok (erase ids ns st)"
proof -
  assume ok: "edges_ok st"
  then have "acyclic (set (st_dependencies (erase ids ns st)))"
    by (auto simp: edges_ok_def set_delete_rows intro: acyclic_subset_edges)
  with ok show ?thesis by (force simp: edges_ok_def set_delete_rows)
qed

lemma version_scope_erase:
  assumes "store_ok st" and a: "version_scope (erase ids ns st) i = Some a"
  shows "version_scope st i = Some a"
proof -
  have keys: "keys_ok st" using assms(1) by (simp add: store_ok_def)
  from a obtain v m where v: "v \<in> set (st_versions st)" "mv_id v = i" and m: "m \<in> set (st_memories st)"
      "me_id m = mv_memory_id v" "me_scope m = a"
    by (auto simp: version_scope_def version_memory_def set_delete_rows split: option.splits dest!: find_row_SomeD)
  have "find_row mv_id i (st_versions st) = Some v" "find_row me_id (mv_memory_id v) (st_memories st) = Some m"
    using keys v m by (simp_all add: keys_ok_def find_row_eq_Some)
  then show ?thesis using m(3) by (simp add: version_scope_def version_memory_def)
qed

lemma flow_erase:
  assumes "store_ok st" and "one_namespace ids ns st"
  shows "flow_ok (erase ids ns st)"
  using assms(1) version_scope_erase [OF assms(1)]
  by (fastforce simp: flow_ok_def store_ok_def set_delete_rows)

lemma chain_erase:
  assumes ok: "store_ok st" and ns: "one_namespace ids ns st"
  shows "chain_ok (erase ids ns st)"
  unfolding chain_ok_def
proof (intro conjI ballI)
  have chain: "chain_ok st" using ok by (simp add: store_ok_def)
  note gone = doomed_versions_iff [OF ok ns]
  note dead = doomed_one_namespace [OF ns]
  fix m assume "m \<in> set (st_memories (erase ids ns st))"
  then have m: "m \<in> set (st_memories st)" "me_id m \<notin> set ids" using dead by (auto simp: set_delete_rows)
  obtain v where "v \<in> set (st_versions st)" "mv_memory_id v = me_id m"
      "mv_number v = me_current_version m" "open_version m v"
    by (rule chain_memoryD [OF chain m(1)])
  with m(2) gone show "\<exists>v\<in>set (st_versions (erase ids ns st)). mv_memory_id v = me_id m \<and>
      mv_number v = me_current_version m \<and> open_version m v"
    by (auto simp: set_delete_rows)
next
  have chain: "chain_ok st" using ok by (simp add: store_ok_def)
  note gone = doomed_versions_iff [OF ok ns]
  note dead = doomed_one_namespace [OF ns]
  fix v assume "v \<in> set (st_versions (erase ids ns st))"
  then have v: "v \<in> set (st_versions st)" "mv_memory_id v \<notin> set ids" using gone by (auto simp: set_delete_rows)
  have stays: "w \<in> set (st_versions (erase ids ns st))" if "w \<in> set (st_versions st)" "succeeded_by v w" for w
    using that gone v(2) by (simp add: set_delete_rows succeeded_by_def)
  show "\<exists>m\<in>set (st_memories (erase ids ns st)). me_id m = mv_memory_id v \<and> mv_number v \<le> me_current_version m \<and>
      payload_validate (me_function m) (mv_payload v) = None \<and> mv_provenance v \<noteq> [] \<and>
      (mv_number v < me_current_version m \<longrightarrow>
         mv_state v = VersionSuperseded \<and> (\<exists>w \<in> set (st_versions (erase ids ns st)). succeeded_by v w))"
  proof (rule chain_versionD [OF chain v(1)])
    fix m assume m: "m \<in> set (st_memories st)" "me_id m = mv_memory_id v" "mv_number v \<le> me_current_version m"
      "payload_validate (me_function m) (mv_payload v) = None" "mv_provenance v \<noteq> []"
      "mv_number v < me_current_version m \<longrightarrow>
         mv_state v = VersionSuperseded \<and> (\<exists>w \<in> set (st_versions st). succeeded_by v w)"
    have "m \<in> set (st_memories (erase ids ns st))" using m(1,2) v(2) dead by (simp add: set_delete_rows)
    then show ?thesis using m(2-6) stays by blast
  qed
qed

lemma index_erase:
  assumes ok: "store_ok st" and ns: "one_namespace ids ns st"
  shows "index_ok (erase ids ns st)"
proof -
  have index: "index_ok st" and chain: "chain_ok st" using ok by (simp_all add: store_ok_def)
  note gone = doomed_versions_iff [OF ok ns]
  have rows: "\<exists>v \<in> set (st_versions st). fx_version r = mv_id v \<and> fx_memory r = mv_memory_id v \<and>
      fx_text r = memory_text (mv_payload v)" if "r \<in> set (st_fts st)" for r
    using index that unfolding index_ok_def by blast
  have stays: "r \<in> set (st_fts (erase ids ns st)) \<longleftrightarrow> r \<in> set (st_fts st) \<and> fx_memory r \<notin> set ids" for r
  proof -
    have "fx_namespace r = ns" if r: "r \<in> set (st_fts st)" and doomed: "fx_memory r \<in> set ids"
    proof -
      from rows [OF r] obtain v where v: "v \<in> set (st_versions st)" "fx_memory r = mv_memory_id v" by blast
      obtain m where m: "m \<in> set (st_memories st)" "me_id m = mv_memory_id v"
        by (rule chain_versionD [OF chain v(1)])
      then have "fx_namespace r = sc_namespace (me_scope m)"
        using index r v(2) unfolding index_ok_def by simp
      then show ?thesis using ns m v(2) doomed by (simp add: one_namespace_def)
    qed
    then show ?thesis by (auto simp: set_delete_rows)
  qed
  show ?thesis
    unfolding index_ok_def
  proof (intro conjI ballI impI)
    fix r assume "r \<in> set (st_fts (erase ids ns st))"
    then have r: "r \<in> set (st_fts st)" "fx_memory r \<notin> set ids" by (simp_all add: stays del: erase_sel)
    from rows [OF r(1)] obtain v where v: "v \<in> set (st_versions st)" "fx_version r = mv_id v"
        "fx_memory r = mv_memory_id v" "fx_text r = memory_text (mv_payload v)" by blast
    then have "v \<in> set (st_versions (erase ids ns st))" using r(2) gone by (simp add: set_delete_rows)
    with v show "\<exists>v \<in> set (st_versions (erase ids ns st)). fx_version r = mv_id v \<and> fx_memory r = mv_memory_id v \<and>
        fx_text r = memory_text (mv_payload v)" by blast
  next
    fix e assume "e \<in> set (st_embeddings (erase ids ns st))"
    then have e: "e \<in> set (st_embeddings st)" "eb_version e \<notin> doomed_versions ids ns st"
      by (auto simp: set_delete_rows)
    then obtain r where r: "r \<in> set (st_fts st)" "fx_version r = eb_version e"
      using index unfolding index_ok_def by (metis imageE)
    from rows [OF r(1)] obtain v where v: "v \<in> set (st_versions st)" "fx_version r = mv_id v"
        "fx_memory r = mv_memory_id v" by blast
    then have "fx_memory r \<notin> set ids" using gone e(2) r(2) by simp
    with r(1) have "r \<in> set (st_fts (erase ids ns st))" by (simp add: stays del: erase_sel)
    with r(2) show "eb_version e \<in> fx_version ` set (st_fts (erase ids ns st))" by force
  next
    fix r m assume r: "r \<in> set (st_fts (erase ids ns st))" and m: "m \<in> set (st_memories (erase ids ns st))"
      and "me_id m = fx_memory r"
    moreover from m have "m \<in> set (st_memories st)" by (simp add: set_delete_rows)
    moreover from r have "r \<in> set (st_fts st)" by (simp add: stays del: erase_sel)
    ultimately show "me_state m \<noteq> MemoryForgotten" "fx_namespace r = sc_namespace (me_scope m)"
      using index unfolding index_ok_def by blast+
  qed
qed

lemma erase_ok:
  assumes "store_ok st" and "one_namespace ids ns st"
  shows "store_ok (erase ids ns st)"
proof (rule store_okI)
  show "memories_ok (erase ids ns st)"
    using assms(1) by (simp add: store_ok_def memories_ok_def set_delete_rows)
qed (use assms in \<open>simp_all add: store_ok_def keys_erase edges_erase chain_erase flow_erase index_erase\<close>)

section \<open>What the closure query finds\<close>

text \<open>The specification: the memories of the versions derived, at any distance, from a version of the target.\<close>

definition tainted :: "store \<Rightarrow> ident \<Rightarrow> memory_version \<Rightarrow> bool" where
  "tainted st i v \<longleftrightarrow> v \<in> set (st_versions st) \<and>
     (\<exists>u \<in> set (st_versions st). mv_memory_id u = i \<and> (mv_id u, mv_id v) \<in> (set (st_dependencies st))\<^sup>*)"

lemma in_namespaceD: "in_namespace st ns i \<Longrightarrow> \<exists>m \<in> set (st_memories st). me_id m = i \<and> sc_namespace (me_scope m) = ns"
  by (auto simp: in_namespace_def split: option.splits dest!: find_row_SomeD)

lemma in_namespace_iff:
  "keys_ok st \<Longrightarrow> m \<in> set (st_memories st) \<Longrightarrow> me_id m = i \<Longrightarrow> in_namespace st ns i \<longleftrightarrow> sc_namespace (me_scope m) = ns"
  using find_row_distinct [of me_id "st_memories st" m] by (auto simp: in_namespace_def keys_ok_def)

lemma version_scope_stored:
  assumes "keys_ok st" "v \<in> set (st_versions st)" "m \<in> set (st_memories st)" "me_id m = mv_memory_id v"
  shows "version_scope st (mv_id v) = Some (me_scope m)"
proof -
  have "find_row mv_id (mv_id v) (st_versions st) = Some v" "find_row me_id (mv_memory_id v) (st_memories st) = Some m"
    using assms by (simp_all add: keys_ok_def find_row_eq_Some)
  then show ?thesis by (simp add: version_scope_def version_memory_def)
qed

lemma tainted_namespace:
  assumes ok: "store_ok st" and ns: "in_namespace st ns i" and taint: "tainted st i v"
  shows "in_namespace st ns (mv_memory_id v)"
proof -
  have keys: "keys_ok st" and chain: "chain_ok st" using ok by (simp_all add: store_ok_def)
  from taint obtain u where v: "v \<in> set (st_versions st)" and u: "u \<in> set (st_versions st)" "mv_memory_id u = i"
    and path: "(mv_id u, mv_id v) \<in> (set (st_dependencies st))\<^sup>*"
    by (auto simp: tainted_def)
  obtain m where m: "m \<in> set (st_memories st)" "me_id m = mv_memory_id v"
    by (rule chain_versionD [OF chain v])
  from in_namespaceD [OF ns] obtain n where n: "n \<in> set (st_memories st)" "me_id n = i" "sc_namespace (me_scope n) = ns"
    by blast
  show ?thesis
  proof (cases "mv_id u = mv_id v")
    case True
    then show ?thesis using keys_version_unique [OF keys u(1) v] u(2) ns by simp
  next
    case False
    with path have "mv_id v \<in> set (descendants (st_dependencies st) (mv_id u))"
      by (auto simp: set_descendants rtrancl_eq_or_trancl)
    from descendants_flow [OF ok this version_scope_stored [OF keys u(1) n(1)] version_scope_stored [OF keys v m]]
    have "sc_namespace (me_scope m) = ns" using n u(2) by (simp add: scope_flows_def)
    then show ?thesis using in_namespace_iff [OF keys m] by simp
  qed
qed

lemma version_tree_iff:
  "v \<in> set (st_versions st) \<Longrightarrow> mv_id v \<in> set (version_tree st ns i) \<longleftrightarrow> in_namespace st ns i \<and> tainted st i v"
  unfolding version_tree_def set_reachable_rows tainted_def by (cases "in_namespace st ns i") auto

lemma purge_rows_tainted:
  assumes "store_ok st" and "in_namespace st ns i"
  shows "set (purge_rows st ns i) = (\<lambda>v. (mv_memory_id v, mv_id v)) ` Collect (tainted st i)"
proof -
  have "{v. v \<in> set (st_versions st) \<and> mv_id v \<in> set (version_tree st ns i) \<and> in_namespace st ns (mv_memory_id v)}
      = Collect (tainted st i)"
    using version_tree_iff [of _ st ns i] tainted_namespace [OF assms] assms(2) by (auto simp: tainted_def)
  then show ?thesis unfolding set_purge_rows by auto
qed

lemma purge_targets_sets:
  assumes "store_ok st" and "in_namespace st ns i" and "purge_targets st ns i = (ms, ds)"
  shows "set ms = mv_memory_id ` Collect (tainted st i)" "distinct ms"
    "set ds = mv_id ` {v. tainted st i v \<and> mv_memory_id v \<noteq> i}"
proof -
  have image_filter: "{x \<in> f ` S. P x} = f ` {x \<in> S. P (f x)}" for f :: "memory_version \<Rightarrow> _" and S P by auto
  have ms: "ms = first_seen [] (map fst (purge_rows st ns i))"
    and ds: "ds = map snd (filter (\<lambda>r. fst r \<noteq> i) (purge_rows st ns i))"
    using assms(3) by (simp_all add: purge_targets_def)
  show "set ms = mv_memory_id ` Collect (tainted st i)" "distinct ms"
    by (simp_all add: ms set_first_seen distinct_first_seen purge_rows_tainted [OF assms(1,2)] image_image)
  show "set ds = mv_id ` {v. tainted st i v \<and> mv_memory_id v \<noteq> i}"
    by (simp add: ds purge_rows_tainted [OF assms(1,2)] image_filter image_image)
qed

lemma purge_targets_other:
  "\<not> in_namespace st ns i \<Longrightarrow> purge_targets st ns i = ([], [])"
proof -
  assume "\<not> in_namespace st ns i"
  then have "set (purge_rows st ns i) = {}"
    using version_tree_iff [of _ st ns i] unfolding set_purge_rows by blast
  then show ?thesis by (simp add: purge_targets_def)
qed

lemma target_tainted:
  assumes "store_ok st" and "in_namespace st ns i"
  shows "\<exists>v. tainted st i v \<and> mv_memory_id v = i"
proof -
  from in_namespaceD [OF assms(2)] obtain m where m: "m \<in> set (st_memories st)" "me_id m = i" by blast
  obtain v where "v \<in> set (st_versions st)" "mv_memory_id v = me_id m"
    using assms(1) m(1) chain_memoryD [of st m] unfolding store_ok_def by blast
  with m(2) show ?thesis by (auto simp: tainted_def)
qed

text \<open>The rows of the target sort first, so the first memory is the target.\<close>

lemma purge_targets_head:
  assumes ok: "store_ok st" and ns: "in_namespace st ns i" and targets: "purge_targets st ns i = (ms, ds)"
  shows "take 1 ms = [i]"
proof -
  from target_tainted [OF ok ns] obtain v where v: "tainted st i v" "mv_memory_id v = i" by blast
  then have mem: "(i, mv_id v) \<in> set (purge_rows st ns i)"
    using purge_rows_tainted [OF ok] ns by auto
  then obtain r rs where rows: "purge_rows st ns i = r # rs" by (cases "purge_rows st ns i") auto
  have "sorted (map (purge_order i) (purge_rows st ns i))" by (simp add: purge_rows_def)
  then have "purge_order i r \<le> purge_order i (i, mv_id v)" using mem by (auto simp: rows)
  then have "fst r = i" by (auto simp: purge_order_def split: if_splits)
  then show ?thesis using targets rows by (auto simp: purge_targets_def)
qed

section \<open>The purge as a whole\<close>

definition counted :: "ident list \<Rightarrow> purge_receipt \<Rightarrow> store \<Rightarrow> purge_receipt" where
  "counted ids r st = r\<lparr>pg_versions_deleted := length (filter (\<lambda>v. mv_memory_id v \<in> set ids) (st_versions st)),
     pg_artifacts_detached := length (filter (memory_reference ids) (st_artifact_refs st))\<rparr>"

lemma delete_memories_alt:
  "delete_memories ids ns (detach_artifacts ids (delete_index_rows ids ns st)) = erase ids ns st"
  by (simp add: erase_def)

lemma erase_receipts [simp]: "st_purge_receipts (erase ids ns st) = st_purge_receipts st"
  by (simp add: erase_def delete_memories_def detach_artifacts_def delete_index_rows_def Let_def)

lemma purge_rows_of_Inr:
  "purge_rows_of ids r st = Inr (st', r') \<longleftrightarrow>
     length (filter (doomed ids (pg_namespace r)) (st_memories st)) = length ids \<and>
     pg_id r \<notin> pg_id ` set (st_purge_receipts st) \<and> r' = counted ids r st \<and>
     st' = (erase ids (pg_namespace r) st)\<lparr>st_purge_receipts := st_purge_receipts st @ [r']\<rparr>"
proof -
  have "st_memories (detach_artifacts ids (delete_index_rows ids ns st)) = st_memories st" for ns
    by (simp add: detach_artifacts_def delete_index_rows_def)
  then show ?thesis
    by (auto simp: purge_rows_of_def insert_purge_receipt_def result_simps delete_memories_alt counted_def Let_def)
qed

lemma purge_rows_of_ok:
  assumes "store_ok st" and "one_namespace ids (pg_namespace r) st" and "purge_rows_of ids r st = Inr (st', r')"
  shows "store_ok st'"
proof -
  have "store_ok (erase ids (pg_namespace r) st)" by (rule erase_ok [OF assms(1,2)])
  moreover have "store_ok st' = store_ok (erase ids (pg_namespace r) st)"
    using assms(3) by (intro store_ok_cong) (auto simp: purge_rows_of_Inr)
  ultimately show ?thesis by simp
qed

lemma targets_one_namespace:
  assumes ok: "store_ok st" and ns: "in_namespace st ns i" and "set ids \<subseteq> mv_memory_id ` Collect (tainted st i)"
  shows "one_namespace ids ns st"
  unfolding one_namespace_def
proof (intro ballI impI)
  fix m assume m: "m \<in> set (st_memories st)" "me_id m \<in> set ids"
  then have "in_namespace st ns (me_id m)" using assms(3) tainted_namespace [OF ok ns] by auto
  then show "sc_namespace (me_scope m) = ns"
    using in_namespace_iff [OF _ m(1) refl] ok by (simp add: store_ok_def)
qed

lemma mark_stale_map:
  "mark_stale ids st = map_versions (\<lambda>v. if mv_id v \<in> ids \<and> mv_state v = VersionCurrent
     then v\<lparr>mv_state := VersionStale\<rparr> else v) st"
  by (simp add: mark_stale_def map_versions_def update_rows_def)

lemma mark_stale_ok: "store_ok st \<Longrightarrow> store_ok (mark_stale ids st)"
  unfolding mark_stale_map by (rule map_versions_ok) (auto simp: keeps_version_def only_stales_def stale_step_def)

definition purge_base :: "ident \<Rightarrow> ident \<Rightarrow> ident \<Rightarrow> ident \<Rightarrow> gtime \<Rightarrow> purge_receipt" where
  "purge_base receipt_id ns actor i at' = \<lparr>pg_id = receipt_id, pg_namespace = ns, pg_target_id = i, pg_actor = actor,
     pg_versions_deleted = 0, pg_artifacts_detached = 0, pg_purged_at = at'\<rparr>"

text \<open>What a purge does to the database, by mode.\<close>

definition purge_input :: "purge_mode \<Rightarrow> ident list \<Rightarrow> store \<Rightarrow> store" where
  "purge_input mode ds st = (if mode = PurgeMarkStale then mark_stale (set ds) st else st)"

lemma purge_Inr:
  assumes "store_ok st"
  shows "purge_memory_with_mode rid ns actor i mode at' st = (st', Inr r) \<longleftrightarrow>
    rid \<noteq> '''' \<and> ns \<noteq> '''' \<and> actor \<noteq> '''' \<and> i \<noteq> '''' \<and> at' \<noteq> 0 \<and> mode \<in> {PurgeCascade, PurgeMarkStale} \<and>
    in_namespace st ns i \<and>
    (let (ms, ds) = purge_targets st ns i in
      purge_rows_of (if mode = PurgeMarkStale then [i] else ms) (purge_base rid ns actor i at')
        (purge_input mode ds st) = Inr (st', r))"
proof (cases "in_namespace st ns i")
  case False
  then show ?thesis
    by (auto simp: purge_memory_with_mode_def result_simps purge_targets_other)
next
  case True
  obtain ms ds where t: "purge_targets st ns i = (ms, ds)" by force
  have head: "take 1 ms = [i]" by (rule purge_targets_head [OF assms True t])
  then have "ms \<noteq> []" by auto
  with True t head show ?thesis
    by (auto simp: purge_memory_with_mode_def result_simps purge_base_def purge_input_def is_zero_time_def)
qed

lemma in_namespace_mark_stale [simp]: "in_namespace (mark_stale ids st) ns i = in_namespace st ns i"
  by (simp add: in_namespace_def mark_stale_def)

lemma one_namespace_mark_stale [simp]: "one_namespace is ns (mark_stale ids st) = one_namespace is ns st"
  by (simp add: one_namespace_def mark_stale_def)

lemma purge_ok:
  assumes ok: "store_ok st" and run: "purge_memory_with_mode rid ns actor i mode at' st = (st', Inr r)"
  shows "store_ok st'"
proof -
  obtain ms ds where t: "purge_targets st ns i = (ms, ds)" by force
  from run t have ns: "in_namespace st ns i"
    and rows: "purge_rows_of (if mode = PurgeMarkStale then [i] else ms) (purge_base rid ns actor i at')
      (purge_input mode ds st) = Inr (st', r)"
    by (simp_all add: purge_Inr [OF ok])
  have input: "store_ok (purge_input mode ds st)" using ok mark_stale_ok by (simp add: purge_input_def)
  have "set (if mode = PurgeMarkStale then [i] else ms) \<subseteq> mv_memory_id ` Collect (tainted st i)"
    using purge_targets_sets(1) [OF ok ns t] target_tainted [OF ok ns] by auto
  then have "one_namespace (if mode = PurgeMarkStale then [i] else ms) ns st"
    by (rule targets_one_namespace [OF ok ns])
  then show ?thesis
    by (intro purge_rows_of_ok [OF input _ rows]) (cases "mode = PurgeMarkStale"; simp add: purge_base_def purge_input_def)
qed

end
