(* ===== verification/PurgeProps.thy ===== *)
theory PurgeProps
  imports Purge Samples
begin

text \<open>
  What a purge guarantees: the cascade removes the whole closure and nothing else, the
  mark-stale mode removes the target and leaves no derived version current, and a
  purge happens exactly for a stored memory of the caller's namespace.
\<close>

section \<open>What a cascade leaves\<close>

definition closure_memories :: "store \<Rightarrow> ident \<Rightarrow> ident set" where
  "closure_memories st i = mv_memory_id ` Collect (tainted st i)"

lemma cascade_run:
  assumes ok: "store_ok st" and run: "purge_memory rid ns actor i at' st = (st', Inr r)"
  obtains ids where "set ids = closure_memories st i" "distinct ids" "one_namespace ids ns st" "in_namespace st ns i"
    "r = counted ids (purge_base rid ns actor i at') st"
    "st' = (erase ids ns st)\<lparr>st_purge_receipts := st_purge_receipts st @ [r]\<rparr>"
proof -
  obtain ms ds where t: "purge_targets st ns i = (ms, ds)" by force
  have sel: "pg_namespace (purge_base rid ns actor i at') = ns" by (simp add: purge_base_def)
  from run t have ns: "in_namespace st ns i"
    and rows: "purge_rows_of ms (purge_base rid ns actor i at') st = Inr (st', r)"
    by (simp_all add: purge_memory_def purge_Inr [OF ok] purge_input_def)
  note targets = purge_targets_sets [OF ok ns t]
  from rows have "st' = (erase ms ns st)\<lparr>st_purge_receipts := st_purge_receipts st @ [r]\<rparr>"
      "r = counted ms (purge_base rid ns actor i at') st"
    by (simp_all add: purge_rows_of_Inr sel)
  with targets(1,2) targets_one_namespace [OF ok ns, of ms] ns show thesis
    by (intro that [of ms]) (simp_all add: closure_memories_def)
qed

lemma erase_memories:
  "one_namespace ids ns st \<Longrightarrow> st_memories (erase ids ns st) = filter (\<lambda>m. me_id m \<notin> set ids) (st_memories st)"
  using doomed_one_namespace [of ids ns st] by (auto simp: delete_rows_def intro!: filter_cong)

lemma erase_versions:
  "store_ok st \<Longrightarrow> one_namespace ids ns st \<Longrightarrow>
     st_versions (erase ids ns st) = filter (\<lambda>v. mv_memory_id v \<notin> set ids) (st_versions st)"
  using doomed_versions_iff [of st ids ns] by (auto simp: delete_rows_def intro!: filter_cong)

text \<open>
  C27. A cascade purge leaves nothing of the target or of anything derived from it: for
  every version reached from a version of the target through any number of dependency
  edges, its memory and version rows, its index row, embeddings, feedback and edges
  are gone.
\<close>

theorem purge_erases_the_closure:
  assumes "store_ok st" and "purge_memory rid ns actor i at' st = (st', Inr r)" and "tainted st i v"
  shows "mv_memory_id v \<notin> me_id ` set (st_memories st') \<and> mv_memory_id v \<notin> mv_memory_id ` set (st_versions st') \<and>
    mv_memory_id v \<notin> fx_memory ` set (st_fts st') \<and> mv_id v \<notin> eb_version ` set (st_embeddings st') \<and>
    mv_id v \<notin> fb_version ` set (st_feedback st') \<and> mv_id v \<notin> fst ` set (st_dependencies st') \<and>
    mv_id v \<notin> snd ` set (st_dependencies st')"
proof (rule cascade_run [OF assms(1,2)])
  fix ids assume ids: "set ids = closure_memories st i" and ns: "one_namespace ids ns st"
    and st': "st' = (erase ids ns st)\<lparr>st_purge_receipts := st_purge_receipts st @ [r]\<rparr>"
  have v: "v \<in> set (st_versions st)" "mv_memory_id v \<in> set ids"
    using assms(3) ids by (auto simp: tainted_def closure_memories_def)
  then have gone: "mv_id v \<in> doomed_versions ids ns st" using doomed_versions_iff [OF assms(1) ns] by simp
  have "store_ok st'" using purge_ok assms(1,2) unfolding purge_memory_def .
  then have "fx_memory ` set (st_fts st') \<subseteq> mv_memory_id ` set (st_versions st')"
    unfolding store_ok_def index_ok_def by (metis image_subsetI rev_image_eqI)
  moreover have "mv_memory_id v \<notin> mv_memory_id ` set (st_versions st')"
    using v(2) by (auto simp: st' erase_versions [OF assms(1) ns] simp del: erase_sel)
  ultimately show ?thesis
    using gone v(2) erase_memories [OF ns] unfolding st' by (auto simp: set_delete_rows simp del: erase_sel(1,2,6))
qed

lemma sample_purge:
  "map me_id (st_memories store_derived) = [sample_id ''mem'' ''p1'', sample_id ''mem'' ''p2'']"
  "map mv_memory_id (st_versions store_derived) = [sample_id ''mem'' ''p1'', sample_id ''mem'' ''p2'']"
  "st_dependencies store_derived = map (\<lambda>(p, c). (mv_id p, mv_id c)) [(st_versions store_derived ! 0, st_versions store_derived ! 1)]"
  "snd (purge_memory ''r1'' ''ns'' ''alice'' (sample_id ''mem'' ''p1'') (sample_time 300) store_derived) =
     Inr \<lparr>pg_id = ''r1'', pg_namespace = ''ns'', pg_target_id = sample_id ''mem'' ''p1'', pg_actor = ''alice'',
       pg_versions_deleted = 2, pg_artifacts_detached = 0, pg_purged_at = sample_time 300\<rparr>"
  by code_simp+

definition store_purged :: store where
  "store_purged = fst (purge_memory ''r1'' ''ns'' ''alice'' (sample_id ''mem'' ''p1'') (sample_time 300) store_derived)"

definition sample_receipt :: purge_receipt where
  "sample_receipt = \<lparr>pg_id = ''r1'', pg_namespace = ''ns'', pg_target_id = sample_id ''mem'' ''p1'', pg_actor = ''alice'',
       pg_versions_deleted = 2, pg_artifacts_detached = 0, pg_purged_at = sample_time 300\<rparr>"

lemma store_purged_run:
  "purge_memory ''r1'' ''ns'' ''alice'' (sample_id ''mem'' ''p1'') (sample_time 300) store_derived =
     (store_purged, Inr sample_receipt)"
  using sample_purge(4) unfolding store_purged_def sample_receipt_def by (metis prod.collapse)

lemma sample_tainted: "tainted store_derived (sample_id ''mem'' ''p1'') (st_versions store_derived ! 1)"
proof -
  have "length (st_versions store_derived) = 2" using sample_purge(2) by (metis length_map list.size(3,4) numeral_2_eq_2 One_nat_def add.commute plus_1_eq_Suc)
  then have mem: "st_versions store_derived ! k \<in> set (st_versions store_derived)" if "k < 2" for k using that by simp
  have "mv_memory_id (st_versions store_derived ! 0) = sample_id ''mem'' ''p1''"
    using sample_purge(2) \<open>length _ = 2\<close> by (metis nth_Cons_0 nth_map zero_less_numeral)
  moreover have "(mv_id (st_versions store_derived ! 0), mv_id (st_versions store_derived ! 1)) \<in> set (st_dependencies store_derived)"
    unfolding sample_purge(3) by simp
  ultimately show ?thesis using mem [of 0] mem [of 1] unfolding tainted_def by (auto intro!: bexI)
qed

theorem purge_erases_the_closure_witness:
  "mv_memory_id (st_versions store_derived ! 1) \<notin> me_id ` set (st_memories store_purged)"
  using purge_erases_the_closure [OF store_derived_ok store_purged_run sample_tainted] by simp

text \<open>
  C28. A cascade purge touches nothing else: the memories and versions outside the
  closure stay row for row and in order, as do observations, operations, traces, jobs,
  tokens and working sets; the receipt counts exactly the deleted versions and is the
  one row that is added.
\<close>

theorem purge_spares_the_rest:
  assumes "store_ok st" and "purge_memory rid ns actor i at' st = (st', Inr r)"
  shows "st_memories st' = filter (\<lambda>m. me_id m \<notin> closure_memories st i) (st_memories st) \<and>
    st_versions st' = filter (\<lambda>v. mv_memory_id v \<notin> closure_memories st i) (st_versions st) \<and>
    st_observations st' = st_observations st \<and> st_operations st' = st_operations st \<and>
    st_traces st' = st_traces st \<and> st_jobs st' = st_jobs st \<and> st_tokens st' = st_tokens st \<and>
    st_working_sets st' = st_working_sets st \<and> st_purge_receipts st' = st_purge_receipts st @ [r] \<and>
    length (st_versions st) = length (st_versions st') + pg_versions_deleted r"
proof (rule cascade_run [OF assms])
  fix ids assume ids: "set ids = closure_memories st i" and ns: "one_namespace ids ns st"
    and r: "r = counted ids (purge_base rid ns actor i at') st"
    and st': "st' = (erase ids ns st)\<lparr>st_purge_receipts := st_purge_receipts st @ [r]\<rparr>"
  have "length (filter P xs) + length (filter (\<lambda>x. \<not> P x) xs) = length xs" for P and xs :: "memory_version list"
    by (rule sum_length_filter_compl)
  note count = this [of "\<lambda>v. mv_memory_id v \<notin> set ids" "st_versions st"]
  show ?thesis
    using count erase_memories [OF ns] erase_versions [OF assms(1) ns]
    by (simp add: st' r counted_def ids [symmetric] del: erase_sel)
       (simp add: erase_def delete_memories_def detach_artifacts_def delete_index_rows_def Let_def)
qed

theorem purge_spares_the_rest_witness:
  "st_purge_receipts store_purged = st_purge_receipts store_derived @ [sample_receipt] \<and>
   length (st_versions store_derived) = length (st_versions store_purged) + 2"
  using purge_spares_the_rest [OF store_derived_ok store_purged_run] by (simp add: sample_receipt_def)

section \<open>When a purge happens\<close>

lemma length_doomed:
  assumes "keys_ok st" and "distinct ids" and "set ids \<subseteq> me_id ` set (st_memories st)" and "one_namespace ids ns st"
  shows "length (filter (doomed ids ns) (st_memories st)) = length ids"
proof -
  let ?ms = "filter (doomed ids ns) (st_memories st)"
  have "distinct (map me_id ?ms)" using assms(1) by (simp add: keys_ok_def distinct_map_filter)
  moreover have "set (map me_id ?ms) = set ids"
    using assms(3) doomed_one_namespace [OF assms(4)] by auto
  ultimately show ?thesis by (metis assms(2) distinct_card length_map)
qed

text \<open>
  C29. A purge succeeds exactly when its arguments are present, the mode is one of the
  two, the receipt id is new and the target exists in the caller's namespace; otherwise
  it is an error and the database is unchanged. In particular no caller can purge a
  memory of another namespace, and a stored memory can always be purged.
\<close>

theorem purge_succeeds_iff:
  assumes ok: "store_ok st"
  shows "(\<exists>st' r. purge_memory_with_mode rid ns actor i mode at' st = (st', Inr r)) \<longleftrightarrow>
      rid \<noteq> '''' \<and> ns \<noteq> '''' \<and> actor \<noteq> '''' \<and> i \<noteq> '''' \<and> at' \<noteq> 0 \<and> mode \<in> {PurgeCascade, PurgeMarkStale} \<and>
      rid \<notin> pg_id ` set (st_purge_receipts st) \<and>
      (\<exists>m \<in> set (st_memories st). me_id m = i \<and> sc_namespace (me_scope m) = ns)"
    (is "?runs \<longleftrightarrow> ?args")
proof -
  have exists_iff: "(\<exists>m \<in> set (st_memories st). me_id m = i \<and> sc_namespace (me_scope m) = ns) \<longleftrightarrow> in_namespace st ns i"
    using in_namespaceD in_namespace_iff ok unfolding store_ok_def by blast
  obtain ms ds where t: "purge_targets st ns i = (ms, ds)" by force
  let ?ids = "if mode = PurgeMarkStale then [i] else ms"
  have sel: "pg_namespace (purge_base rid ns actor i at') = ns" "pg_id (purge_base rid ns actor i at') = rid"
    by (simp_all add: purge_base_def)
  have input: "st_memories (purge_input md ds st) = st_memories st"
      "st_purge_receipts (purge_input md ds st) = st_purge_receipts st" for md
    by (simp_all add: purge_input_def mark_stale_def)
  have "length (filter (doomed ?ids ns) (st_memories st)) = length ?ids" if ns: "in_namespace st ns i"
  proof (rule length_doomed)
    have sub: "set ?ids \<subseteq> mv_memory_id ` Collect (tainted st i)"
      using purge_targets_sets(1) [OF ok ns t] target_tainted [OF ok ns] by auto
    then show "one_namespace ?ids ns st" by (rule targets_one_namespace [OF ok ns])
    show "set ?ids \<subseteq> me_id ` set (st_memories st)"
      using sub tainted_namespace [OF ok ns] in_namespaceD by fastforce
    show "distinct ?ids" using purge_targets_sets(2) [OF ok ns t] by simp
  qed (use ok in \<open>simp add: store_ok_def\<close>)
  then show ?thesis
    unfolding purge_Inr [OF ok] exists_iff t purge_rows_of_Inr sel by (auto simp: input)
qed

theorem purge_succeeds_iff_witness:
  "(\<exists>st' r. purge_memory_with_mode ''r1'' ''other'' ''alice'' (sample_id ''mem'' ''p1'') PurgeCascade (sample_time 300)
      store_derived = (st', Inr r)) = False"
proof -
  have "list_all (\<lambda>m. sc_namespace (me_scope m) = ''ns'') (st_memories store_derived)" by code_simp
  then show ?thesis unfolding purge_succeeds_iff [OF store_derived_ok] by (auto simp: list_all_iff)
qed

text \<open>
  The mark-stale mode removes only the target: every other memory stays with its
  versions, but no version that was derived from the target, at any distance, is
  current any more.
\<close>

theorem mark_stale_removes_only_target:
  assumes ok: "store_ok st" and run: "purge_memory_with_mode rid ns actor i PurgeMarkStale at' st = (st', Inr r)"
  shows "st_memories st' = filter (\<lambda>m. me_id m \<noteq> i) (st_memories st) \<and>
    map mv_id (st_versions st') = map mv_id (filter (\<lambda>v. mv_memory_id v \<noteq> i) (st_versions st)) \<and>
    (\<forall>v \<in> set (st_versions st). tainted st i v \<longrightarrow>
       (\<forall>w \<in> set (st_versions st'). mv_id w = mv_id v \<longrightarrow> mv_state w \<noteq> VersionCurrent))"
proof -
  obtain ms ds where t: "purge_targets st ns i = (ms, ds)" by force
  let ?g = "\<lambda>v. if mv_id v \<in> set ds \<and> mv_state v = VersionCurrent then v\<lparr>mv_state := VersionStale\<rparr> else v"
  let ?in = "map_versions ?g st"
  from run t have ns: "in_namespace st ns i"
    and rows: "purge_rows_of [i] (purge_base rid ns actor i at') ?in = Inr (st', r)"
    by (simp_all add: purge_Inr [OF ok] purge_input_def mark_stale_map)
  have "i \<in> mv_memory_id ` Collect (tainted st i)" using target_tainted [OF ok ns] by auto
  then have one: "one_namespace [i] ns ?in"
    using targets_one_namespace [OF ok ns, of "[i]"] by (simp add: one_namespace_def)
  have input: "store_ok ?in" using mark_stale_ok [OF ok] by (simp add: mark_stale_map)
  from rows have st': "st' = (erase [i] ns ?in)\<lparr>st_purge_receipts := st_purge_receipts ?in @ [r]\<rparr>"
    by (simp add: purge_rows_of_Inr purge_base_def)
  have versions: "st_versions st' = filter (\<lambda>v. mv_memory_id v \<noteq> i) (map ?g (st_versions st))"
    unfolding st' using erase_versions [OF input one] by (simp del: erase_sel)
  have "mv_state (?g v) \<noteq> VersionCurrent" if "tainted st i v" "mv_memory_id v \<noteq> i" for v
    using purge_targets_sets(3) [OF ok ns t] that by auto
  moreover have "\<exists>u. w = ?g u \<and> u = v \<and> mv_memory_id v \<noteq> i"
    if v: "v \<in> set (st_versions st)" and w: "w \<in> set (st_versions st')" "mv_id w = mv_id v" for v w
  proof -
    from w(1) obtain u where u: "u \<in> set (st_versions st)" "w = ?g u" "mv_memory_id w \<noteq> i"
      unfolding versions set_filter set_map by blast
    have "mv_id (?g u) = mv_id u" "mv_memory_id (?g u) = mv_memory_id u" by simp_all
    with u w(2) have "mv_id u = mv_id v" "mv_memory_id u \<noteq> i" by metis+
    moreover then have "u = v" using ok u(1) v keys_version_unique unfolding store_ok_def by blast
    ultimately show ?thesis using u(2) by blast
  qed
  ultimately have states: "\<forall>v \<in> set (st_versions st). tainted st i v \<longrightarrow>
       (\<forall>w \<in> set (st_versions st'). mv_id w = mv_id v \<longrightarrow> mv_state w \<noteq> VersionCurrent)"
    by blast
  have "st_memories st' = filter (\<lambda>m. me_id m \<noteq> i) (st_memories st)"
    unfolding st' using erase_memories [OF one] by (simp del: erase_sel)
  moreover have "map mv_id (st_versions st') = map mv_id (filter (\<lambda>v. mv_memory_id v \<noteq> i) (st_versions st))"
  proof -
    have "map mv_id (filter (\<lambda>v. mv_memory_id v \<noteq> i) (map ?g vs)) = map mv_id (filter (\<lambda>v. mv_memory_id v \<noteq> i) vs)" for vs
      by (induction vs) auto
    then show ?thesis unfolding versions .
  qed
  ultimately show ?thesis using states by blast
qed

theorem mark_stale_removes_only_target_witness:
  "map (\<lambda>v. (mv_id v, mv_state v)) (st_versions (fst (purge_memory_with_mode ''r1'' ''ns'' ''alice'' (sample_id ''mem'' ''p1'')
      PurgeMarkStale (sample_time 300) store_derived))) = [(sample_id ''mv'' ''p2'', VersionStale)] \<and>
   st_memories (fst (purge_memory_with_mode ''r1'' ''ns'' ''alice'' (sample_id ''mem'' ''p1'')
      PurgeMarkStale (sample_time 300) store_derived)) =
     filter (\<lambda>m. me_id m \<noteq> sample_id ''mem'' ''p1'') (st_memories store_derived)"
proof -
  let ?run = "purge_memory_with_mode ''r1'' ''ns'' ''alice'' (sample_id ''mem'' ''p1'') PurgeMarkStale (sample_time 300) store_derived"
  have "\<not> isl (snd ?run)" by code_simp
  then obtain r where "?run = (fst ?run, Inr r)" by (metis prod.collapse sum.collapse(2))
  from mark_stale_removes_only_target [OF store_derived_ok this]
  have "st_memories (fst ?run) = filter (\<lambda>m. me_id m \<noteq> sample_id ''mem'' ''p1'') (st_memories store_derived)" by blast
  moreover have "map (\<lambda>v. (mv_id v, mv_state v)) (st_versions (fst ?run)) = [(sample_id ''mv'' ''p2'', VersionStale)]"
    by code_simp
  ultimately show ?thesis by blast
qed

end
