(* ===== verification/TokenProps.thy ===== *)
theory TokenProps
  imports Tokens Samples
begin

text \<open>
  What the credential store guarantees: a raw token authenticates exactly as the
  unrevoked, unexpired row of its digest; a fresh token authenticates as its
  specification; a revoked one never does again; the scopes a principal can build
  name only its own owners, namespace and identity.
\<close>

definition sample_spec :: token_spec where
  "sample_spec = \<lparr>ts_id = ''tok-1'', ts_principal_id = ''alice'', ts_namespace = ''ns'', ts_private_owners = [''alice''],
     ts_scopes = [ScopeMemoryRead], ts_allow_shared = False, ts_allow_public = False,
     ts_expires_at = Some (sample_time 1000), ts_created_at = sample_time 0\<rparr>"

definition sample_secret :: string where "sample_secret = replicate 32 (CHR ''a'')"

definition store_token :: store where
  "store_token = fst (create_api_token sample_lib sample_spec sample_secret empty_store)"

definition store_revoked :: store where
  "store_revoked = fst (revoke_api_token ''tok-1'' (sample_time 50) store_token)"

lemma json_sample: "json_time (sample_time 1000)"
  by code_simp

lemma store_token_step: "token_step sample_lib empty_store store_token"
  unfolding store_token_def by (rule token_step.created)

lemma store_revoked_step: "token_step sample_lib store_token store_revoked"
  unfolding store_revoked_def by (rule token_step.revoked)

lemma tokens_ok_empty: "tokens_ok empty_store"
  by (simp add: tokens_ok_def empty_store_def)

lemma store_token_ok: "tokens_ok store_token"
  by (rule token_step_ok [OF store_token_step tokens_ok_empty])

lemma store_revoked_ok: "tokens_ok store_revoked"
  by (rule token_step_ok [OF store_revoked_step store_token_ok])

lemma store_token_create:
  "create_api_token sample_lib sample_spec sample_secret empty_store = (store_token, Inr (raw_token sample_secret))"
proof -
  have "snd (create_api_token sample_lib sample_spec sample_secret empty_store) = Inr (raw_token sample_secret)" by code_simp
  then show ?thesis unfolding store_token_def by (metis prod.collapse)
qed

text \<open>
  C31. A raw token authenticates exactly when the store holds an unrevoked row of its
  digest whose expiry, if any, is readable and after the instant; the principal carries exactly the
  owners, scopes and permissions of that row's specification.
\<close>

theorem authenticates_iff:
  assumes "tokens_ok st"
  shows "(\<exists>st'. authenticate_token L raw at' st = (st', Inr p)) \<longleftrightarrow> raw \<noteq> '''' \<and> at' \<noteq> 0 \<and>
    (\<exists>r \<in> set (st_tokens st). tk_sha256 r = token_digest L raw \<and> tk_revoked_at r = None \<and>
       (case ts_expires_at (tk_spec r) of None \<Rightarrow> True | Some e \<Rightarrow> json_time e \<and> at' < e) \<and> p = token_principal (tk_spec r))"
  using assms unfolding authenticate_token_Inr tokens_ok_def by (auto simp: find_row_eq_Some)

theorem authenticates_iff_witness:
  "(\<exists>st'. authenticate_token sample_lib (raw_token sample_secret) (sample_time 999) store_token =
     (st', Inr (token_principal sample_spec))) = True"
proof -
  have "list_ex (\<lambda>r. tk_sha256 r = token_digest sample_lib (raw_token sample_secret) \<and> tk_revoked_at r = None \<and>
      ts_expires_at (tk_spec r) = Some (sample_time 1000) \<and> token_principal (tk_spec r) = token_principal sample_spec)
    (st_tokens store_token)" by code_simp
  then show ?thesis
    unfolding authenticates_iff [OF store_token_ok] list_ex_iff
    using json_sample by (auto simp: raw_token_def sample_time_def split: option.splits)
qed

text \<open>
  Round trip of a credential: the raw token returned by its creation authenticates,
  until it expires, as the principal of its specification.
\<close>

theorem created_token_authenticates:
  assumes "tokens_ok st" and "create_api_token L spec secret st = (st', Inr raw)"
    and "at' \<noteq> 0" and "ts_expires_at spec = Some e" "json_time e" "at' < e"
  shows "snd (authenticate_token L raw at' st') = Inr (token_principal spec)"
proof -
  from assms(2) have raw: "raw = raw_token secret" and fresh: "token_digest L raw \<notin> tk_sha256 ` set (st_tokens st)"
    and st': "st' = st\<lparr>st_tokens := st_tokens st @ [\<lparr>tk_spec = spec, tk_sha256 = token_digest L raw,
        tk_revoked_at = None, tk_last_used_at = None\<rparr>]\<rparr>"
    unfolding create_api_token_Inr by blast+
  have "find_row tk_sha256 (token_digest L raw) (st_tokens st) = None" using fresh by (simp add: find_row_None)
  then have "find_row tk_sha256 (token_digest L raw) (st_tokens st') = Some \<lparr>tk_spec = spec, tk_sha256 = token_digest L raw,
        tk_revoked_at = None, tk_last_used_at = None\<rparr>"
    by (simp add: st' find_row_append)
  moreover have "raw \<noteq> ''''" by (simp add: raw raw_token_def)
  ultimately show ?thesis
    using assms(3-6) by (simp add: authenticate_token_def is_zero_time_def)
qed

theorem created_token_authenticates_witness:
  "snd (authenticate_token sample_lib (raw_token sample_secret) (sample_time 999) store_token) =
     Inr (token_principal sample_spec)"
  by (rule created_token_authenticates [OF tokens_ok_empty store_token_create, of _ "sample_time 1000"])
    (simp_all add: json_sample, simp_all add: sample_time_def sample_spec_def)

text \<open>
  Revocation is final: after a credential is revoked, no sequence of creations,
  authentications and revocations makes its raw token authenticate again, at any time.
\<close>

theorem revocation_is_final:
  assumes "(token_step L)\<^sup>*\<^sup>* st st'" and "tokens_ok st"
    and "r \<in> set (st_tokens st)" "tk_revoked_at r \<noteq> None" "tk_sha256 r = token_digest L raw"
  shows "authenticate_token L raw at' st' = (st', Inl ErrInvalidToken)"
proof -
  obtain q where q: "q \<in> set (st_tokens st')" "token_moves r q"
    using token_steps_row [OF assms(1,3)] by blast
  have "distinct (map tk_sha256 (st_tokens st'))"
    using token_steps_ok [OF assms(1,2)] by (simp add: tokens_ok_def)
  moreover have "tk_sha256 q = token_digest L raw" "tk_revoked_at q \<noteq> None"
    using q(2) assms(4,5) by (auto simp: token_moves_def)
  ultimately have "find_row tk_sha256 (token_digest L raw) (st_tokens st') = Some q"
    using q(1) by (simp add: find_row_eq_Some)
  then show ?thesis using \<open>tk_revoked_at q \<noteq> None\<close> by (simp add: authenticate_token_def)
qed

theorem revocation_is_final_witness:
  "authenticate_token sample_lib (raw_token sample_secret) (sample_time 60)
     (fst (authenticate_token sample_lib (raw_token sample_secret) (sample_time 55) store_revoked)) =
   (fst (authenticate_token sample_lib (raw_token sample_secret) (sample_time 55) store_revoked), Inl ErrInvalidToken)"
proof -
  have step: "(token_step sample_lib)\<^sup>*\<^sup>* store_revoked
      (fst (authenticate_token sample_lib (raw_token sample_secret) (sample_time 55) store_revoked))"
    by (blast intro: token_step.used)
  have "list_ex (\<lambda>r. tk_revoked_at r \<noteq> None \<and> tk_sha256 r = token_digest sample_lib (raw_token sample_secret))
      (st_tokens store_revoked)" by code_simp
  then obtain r where "r \<in> set (st_tokens store_revoked)" "tk_revoked_at r \<noteq> None"
      "tk_sha256 r = token_digest sample_lib (raw_token sample_secret)"
    by (auto simp: list_ex_iff)
  then show ?thesis by (rule revocation_is_final [OF step store_revoked_ok])
qed

end
