(* ===== verification/WorkingProps.thy ===== *)
theory WorkingProps
  imports Working Samples
begin

text \<open>
  The expiry sweep of working sets keeps the database invariant, returns the overdue ids
  in order and archives exactly the working memories of the tasks whose sets are overdue
  in the order of the stored text, which is the clock's but for a second.
\<close>

section \<open>Archiving a task\<close>

definition archived :: "memory \<Rightarrow> memory" where
  "archived m = m\<lparr>me_state := MemoryArchived\<rparr>"

lemma task_memory_state [simp]: "task_memory ns task (m\<lparr>me_state := s\<rparr>) = task_memory ns task m"
  by (simp add: task_memory_def)

lemma task_versions_archive:
  "task_versions ns task (st\<lparr>st_memories := update_rows (task_memory ns' task') (\<lambda>m. m\<lparr>me_state := s\<rparr>) (st_memories st)\<rparr>) =
   task_versions ns task st"
proof -
  have "(\<lambda>m. (me_id m, me_current_version m)) ` set (filter (task_memory ns task)
      (update_rows (task_memory ns' task') (\<lambda>m. m\<lparr>me_state := s\<rparr>) ms)) =
    (\<lambda>m. (me_id m, me_current_version m)) ` set (filter (task_memory ns task) ms)" for ms
    by (induction ms) (auto simp: update_rows_def)
  then show ?thesis by (simp add: task_versions_def)
qed

lemma archive_task_restate:
  "archive_task ns task st = restate (\<lambda>m. if task_memory ns task m then archived m else m)
     (\<lambda>v. if mv_id v \<in> task_versions ns task st then v\<lparr>mv_state := VersionArchived\<rparr> else v) st"
  unfolding archive_task_def Let_def task_versions_archive
  by (simp add: restate_def update_rows_def archived_def)

lemma task_versions_iff:
  assumes "keys_ok st" and v: "v \<in> set (st_versions st)" and m: "m \<in> set (st_memories st)" "mv_memory_id v = me_id m"
  shows "mv_id v \<in> task_versions ns task st \<longleftrightarrow> task_memory ns task m \<and> mv_number v = me_current_version m"
proof
  assume "mv_id v \<in> task_versions ns task st"
  then obtain w n where w: "w \<in> set (st_versions st)" "mv_id v = mv_id w" "mv_memory_id w = me_id n"
      "mv_number w = me_current_version n" and n: "n \<in> set (st_memories st)" "task_memory ns task n"
    by (auto simp: task_versions_def)
  have "v = w" using keys_version_unique [OF assms(1) v w(1,2)] .
  moreover then have "n = m" using keys_memory_unique [OF assms(1) n(1) m(1)] m(2) w(3) by simp
  ultimately show "task_memory ns task m \<and> mv_number v = me_current_version m" using n(2) w(4) by simp
next
  assume "task_memory ns task m \<and> mv_number v = me_current_version m"
  with v m show "mv_id v \<in> task_versions ns task st"
    unfolding task_versions_def set_filter by (auto intro!: imageI simp: image_iff)
qed

lemma archive_task_ok:
  assumes ok: "store_ok st"
  shows "store_ok (archive_task ns task st)"
proof -
  let ?f = "\<lambda>m. if task_memory ns task m then archived m else m"
  let ?g = "\<lambda>v. if mv_id v \<in> task_versions ns task st then v\<lparr>mv_state := VersionArchived\<rparr> else v"
  have keys: "keys_ok st" and chain: "chain_ok st" and mem: "memories_ok st" using ok by (simp_all add: store_ok_def)
  have f: "keeps_memory ?f" and g: "keeps_version ?g"
    by (simp_all add: keeps_memory_def keeps_version_def archived_def)
  have "chain_ok (restate ?f ?g st)"
  proof (rule chain_restate [OF chain f g])
    fix m v assume m: "m \<in> set (st_memories st)" and v: "v \<in> set (st_versions st)" "mv_memory_id v = me_id m"
    note iff = task_versions_iff [OF keys v(1) m v(2), of ns task]
    show "open_version (?f m) (?g v)" if "mv_number v = me_current_version m" "open_version m v"
      using that iff by (auto simp: open_version_def archived_def)
    show "mv_state (?g v) = mv_state v" if "mv_number v < me_current_version m"
      using that iff by auto
  qed simp
  then show ?thesis
    unfolding archive_task_restate
    using mem by (intro restate_ok [OF ok f g]) (auto simp: archived_def known_memory_state_def memories_ok_def memory_validate_None)
qed

section \<open>The sweep\<close>

definition expired_row :: "gtime \<Rightarrow> working_row \<Rightarrow> working_row" where
  "expired_row now r = r\<lparr>wr_state := WorkingExpired, wr_set := (wr_set r)\<lparr>ws_updated_at := now\<rparr>\<rparr>"

definition task_of :: "working_row \<Rightarrow> memory \<Rightarrow> bool" where
  "task_of r m \<longleftrightarrow> task_memory (sc_namespace (ws_scope (wr_set r))) (ws_task_id (wr_set r)) m"

lemma expire_set_ok: "store_ok st \<Longrightarrow> store_ok (expire_set now r st)"
proof -
  assume "store_ok st"
  then have "store_ok (st\<lparr>st_working_sets := rows\<rparr>)" for rows by (subst store_ok_cong [where t = st]) simp_all
  then show ?thesis unfolding expire_set_def by (rule archive_task_ok)
qed

lemma expire_sets_ok: "store_ok st \<Longrightarrow> store_ok (fold (expire_set now) rs st)"
  by (induction rs arbitrary: st) (simp_all add: expire_set_ok)

lemma expire_set_sel:
  "st_memories (expire_set now r st) = map (\<lambda>m. if task_of r m then archived m else m) (st_memories st)"
  "st_working_sets (expire_set now r st) =
     map (\<lambda>q. if ws_id (wr_set q) = ws_id (wr_set r) then expired_row now q else q) (st_working_sets st)"
  by (simp_all add: expire_set_def archive_task_restate restate_def task_of_def update_rows_def expired_row_def
      task_versions_def)

lemma task_of_archived [simp]: "task_of r (archived m) = task_of r m"
  by (simp add: task_of_def archived_def)

lemma archived_idem [simp]: "archived (archived m) = archived m"
  by (simp add: archived_def)

lemma expired_row_idem [simp]: "expired_row now (expired_row now r) = expired_row now r"
  "ws_id (wr_set (expired_row now r)) = ws_id (wr_set r)"
  by (simp_all add: expired_row_def)

lemma expire_sets_sel:
  "st_memories (fold (expire_set now) rs st) =
     map (\<lambda>m. if list_ex (\<lambda>r. task_of r m) rs then archived m else m) (st_memories st)"
  "st_working_sets (fold (expire_set now) rs st) =
     map (\<lambda>q. if ws_id (wr_set q) \<in> (ws_id \<circ> wr_set) ` set rs then expired_row now q else q) (st_working_sets st)"
  by (induction rs arbitrary: st) (auto simp: expire_set_sel)

text \<open>The versions follow their memories: the current version of each archived memory, whatever its state was.\<close>

definition current_of :: "memory \<Rightarrow> memory_version \<Rightarrow> bool" where
  "current_of m v \<longleftrightarrow> mv_memory_id v = me_id m \<and> mv_number v = me_current_version m"

definition archived_version :: "memory_version \<Rightarrow> memory_version" where
  "archived_version v = v\<lparr>mv_state := VersionArchived\<rparr>"

lemma archived_version_idem [simp]: "archived_version (archived_version v) = archived_version v"
  "mv_id (archived_version v) = mv_id v" "current_of m (archived_version v) = current_of m v"
  "current_of (archived m) v = current_of m v"
  by (simp_all add: archived_version_def current_of_def archived_def)

lemma expire_set_versions:
  assumes "distinct (map mv_id (st_versions st))"
  shows "st_versions (expire_set now r st) =
    map (\<lambda>v. if list_ex (\<lambda>m. task_of r m \<and> current_of m v) (st_memories st) then archived_version v else v) (st_versions st)"
proof -
  let ?ns = "sc_namespace (ws_scope (wr_set r))" and ?task = "ws_task_id (wr_set r)"
  have "mv_id v \<in> task_versions ?ns ?task st \<longleftrightarrow> list_ex (\<lambda>m. task_of r m \<and> current_of m v) (st_memories st)"
    if v: "v \<in> set (st_versions st)" for v
  proof -
    have "w = v" if "w \<in> set (st_versions st)" "mv_id w = mv_id v" for w
      using assms v that by (auto simp: distinct_map inj_on_def)
    then have "mv_id v \<in> task_versions ?ns ?task st \<longleftrightarrow> (mv_memory_id v, mv_number v) \<in>
        (\<lambda>m. (me_id m, me_current_version m)) ` set (filter (task_memory ?ns ?task) (st_memories st))"
      using v unfolding task_versions_def by (auto simp: image_iff)
    then show ?thesis by (auto simp: list_ex_iff task_of_def current_of_def image_iff)
  qed
  then show ?thesis
    unfolding expire_set_def archive_task_restate
    by (simp add: restate_def archived_version_def task_versions_def)
qed

lemma expire_sets_versions:
  assumes "distinct (map mv_id (st_versions st))"
  shows "st_versions (fold (expire_set now) rs st) =
    map (\<lambda>v. if list_ex (\<lambda>r. list_ex (\<lambda>m. task_of r m \<and> current_of m v) (st_memories st)) rs then archived_version v else v)
      (st_versions st)"
  using assms
proof (induction rs arbitrary: st)
  case (Cons r rs)
  note step = expire_set_versions [OF Cons.prems, of now r]
  have "map mv_id (st_versions (expire_set now r st)) = map mv_id (st_versions st)" by (simp add: step)
  then have "distinct (map mv_id (st_versions (expire_set now r st)))" using Cons.prems by (simp only:)
  note IH = Cons.IH [OF this]
  have "list_ex (\<lambda>m. task_of q m \<and> current_of m v) (map (\<lambda>m. if task_of r m then archived m else m) ms) =
      list_ex (\<lambda>m. task_of q m \<and> current_of m v) ms" for q v ms
    by (induction ms) auto
  then have same: "list_ex (\<lambda>m. task_of q m \<and> current_of m v) (st_memories (expire_set now r st)) =
      list_ex (\<lambda>m. task_of q m \<and> current_of m v) (st_memories st)" for q v
    by (simp only: expire_set_sel)
  show ?case unfolding fold_Cons comp_apply IH same step map_map by (intro map_cong) auto
qed simp

text \<open>
  C32. The expiry sweep returns ids in ascending order, each once: those of the active
  working sets whose stored expiry is not after the instant in the order of the stored
  text. Against the clock this is exact but for one second: every active set that is
  over for a second or more is among them, and none that has a second or more to run.
  Exactly these sets become expired; the working memories of their namespaces and tasks
  become archived whatever state they were in (a forgotten one too, see
  \<open>expiry_archives_forgotten\<close>), with their current versions; every other set, memory and
  version keeps its row.
\<close>

theorem expiry_sweep:
  assumes "distinct (map (ws_id \<circ> wr_set) (st_working_sets st))" and "distinct (map mv_id (st_versions st))"
    and "storable now" "now \<noteq> 0" and "expire_working_sets now st = (st', r)"
  shows "\<exists>ids. r = Inr ids \<and> sorted_wrt (<) ids \<and>
    set ids = {ws_id (wr_set q) |q e. q \<in> set (st_working_sets st) \<and> wr_state q = WorkingActive \<and>
      ws_expires_at (wr_set q) = Some e \<and> text_le e now} \<and>
    (\<forall>q \<in> set (st_working_sets st). \<forall>e. wr_state q = WorkingActive \<and> ws_expires_at (wr_set q) = Some e \<and> storable e \<longrightarrow>
      (e + nanos_per_sec \<le> now \<longrightarrow> ws_id (wr_set q) \<in> set ids) \<and> (now + nanos_per_sec \<le> e \<longrightarrow> ws_id (wr_set q) \<notin> set ids)) \<and>
    st_working_sets st' = map (\<lambda>q. if ws_id (wr_set q) \<in> set ids
      then q\<lparr>wr_state := WorkingExpired, wr_set := (wr_set q)\<lparr>ws_updated_at := now\<rparr>\<rparr> else q) (st_working_sets st) \<and>
    (\<exists>hit. (\<forall>m. hit m \<longleftrightarrow> me_function m = FunctionWorking \<and> sc_context (me_scope m) \<noteq> '''' \<and>
        (\<exists>q \<in> set (st_working_sets st). ws_id (wr_set q) \<in> set ids \<and> ws_task_id (wr_set q) = sc_context (me_scope m) \<and>
          sc_namespace (ws_scope (wr_set q)) = sc_namespace (me_scope m))) \<and>
      st_memories st' = map (\<lambda>m. if hit m then m\<lparr>me_state := MemoryArchived\<rparr> else m) (st_memories st) \<and>
      st_versions st' = map (\<lambda>v. if list_ex (\<lambda>m. hit m \<and> current_of m v) (st_memories st)
        then v\<lparr>mv_state := VersionArchived\<rparr> else v) (st_versions st))"
proof -
  let ?key = "ws_id \<circ> wr_set" and ?rs = "overdue_sets now st"
  let ?ids = "map ?key ?rs"
  have st': "st' = fold (expire_set now) ?rs st" and r: "r = Inr ?ids"
    using assms(4,5) by (auto simp: expire_working_sets_def is_zero_time_def)
  have rs: "set ?rs = {q \<in> set (st_working_sets st). overdue now q}" by (auto simp: overdue_sets_def)
  have "inj_on ?key (set ?rs)" using assms(1) by (auto simp: rs distinct_map inj_on_def)
  moreover have "distinct ?rs" using assms(1) by (simp add: overdue_sets_def distinct_map)
  ultimately have "distinct ?ids" by (simp only: distinct_map)
  moreover have "sorted ?ids" by (simp add: overdue_sets_def)
  ultimately have sorted: "sorted_wrt (<) ?ids" by (simp add: strict_sorted_iff)
  have listed: "ws_id (wr_set q) \<in> set ?ids \<longleftrightarrow> overdue now q" if "q \<in> set (st_working_sets st)" for q
    using assms(1) that by (auto simp: rs distinct_map inj_on_def)
  have ids: "set ?ids = {ws_id (wr_set q) |q e. q \<in> set (st_working_sets st) \<and> wr_state q = WorkingActive \<and>
      ws_expires_at (wr_set q) = Some e \<and> text_le e now}"
    by (auto simp: rs overdue_def split: option.splits)
  have clock: "(e + nanos_per_sec \<le> now \<longrightarrow> ws_id (wr_set q) \<in> set ?ids) \<and> (now + nanos_per_sec \<le> e \<longrightarrow> ws_id (wr_set q) \<notin> set ?ids)"
    if "q \<in> set (st_working_sets st)" "wr_state q = WorkingActive \<and> ws_expires_at (wr_set q) = Some e \<and> storable e" for q e
  proof -
    have "text_le e now \<or> text_le now e" "text_le e now \<longrightarrow> e < now + nanos_per_sec" "text_le now e \<longrightarrow> now < e + nanos_per_sec"
      using text_le_linear text_le_within_second(2) assms(3) that(2) by blast+
    then show ?thesis unfolding listed [OF that(1)] using that(2) by (auto simp: overdue_def)
  qed
  define hit where "hit m \<longleftrightarrow> list_ex (\<lambda>r. task_of r m) ?rs" for m
  have hit: "hit m \<longleftrightarrow> me_function m = FunctionWorking \<and> sc_context (me_scope m) \<noteq> '''' \<and>
        (\<exists>q \<in> set (st_working_sets st). ws_id (wr_set q) \<in> set ?ids \<and> ws_task_id (wr_set q) = sc_context (me_scope m) \<and>
          sc_namespace (ws_scope (wr_set q)) = sc_namespace (me_scope m))" for m
    using listed by (auto simp: hit_def list_ex_iff rs task_of_def task_memory_def)
  have sets: "st_working_sets st' = map (\<lambda>q. if ws_id (wr_set q) \<in> set ?ids
      then q\<lparr>wr_state := WorkingExpired, wr_set := (wr_set q)\<lparr>ws_updated_at := now\<rparr>\<rparr> else q) (st_working_sets st)"
    unfolding st' expire_sets_sel by (simp add: expired_row_def)
  have memories: "st_memories st' = map (\<lambda>m. if hit m then m\<lparr>me_state := MemoryArchived\<rparr> else m) (st_memories st)"
    unfolding st' expire_sets_sel hit_def by (simp add: archived_def)
  have "list_ex (\<lambda>r. list_ex (\<lambda>m. task_of r m \<and> current_of m v) (st_memories st)) ?rs =
      list_ex (\<lambda>m. hit m \<and> current_of m v) (st_memories st)" for v
    by (auto simp: hit_def list_ex_iff)
  then have versions: "st_versions st' = map (\<lambda>v. if list_ex (\<lambda>m. hit m \<and> current_of m v) (st_memories st)
      then v\<lparr>mv_state := VersionArchived\<rparr> else v) (st_versions st)"
    unfolding st' expire_sets_versions [OF assms(2)] by (simp add: archived_version_def)
  have tasks: "\<exists>hit. (\<forall>m. hit m \<longleftrightarrow> me_function m = FunctionWorking \<and> sc_context (me_scope m) \<noteq> '''' \<and>
        (\<exists>q \<in> set (st_working_sets st). ws_id (wr_set q) \<in> set ?ids \<and> ws_task_id (wr_set q) = sc_context (me_scope m) \<and>
          sc_namespace (ws_scope (wr_set q)) = sc_namespace (me_scope m))) \<and>
      st_memories st' = map (\<lambda>m. if hit m then m\<lparr>me_state := MemoryArchived\<rparr> else m) (st_memories st) \<and>
      st_versions st' = map (\<lambda>v. if list_ex (\<lambda>m. hit m \<and> current_of m v) (st_memories st)
        then v\<lparr>mv_state := VersionArchived\<rparr> else v) (st_versions st)"
    by (intro exI [of _ hit] conjI allI) (fact hit memories versions)+
  show ?thesis
    by (intro exI [of _ ?ids] conjI ballI allI impI) (fact r sorted ids sets tasks | use clock in blast)+
qed

definition sample_working_set :: working_set where
  "sample_working_set = \<lparr>ws_id = ''ws-1'', ws_scope = sample_scope, ws_task_id = ''task-1'', ws_goal = sample_text ''goal'',
     ws_global_recall = False, ws_expires_at = Some (sample_time 500), ws_created_at = sample_time 5,
     ws_updated_at = sample_time 5\<rparr>"

definition sample_work_memory :: memory where
  "sample_work_memory = \<lparr>me_id = ''mem-w'', me_scope = sample_scope\<lparr>sc_context := ''task-1''\<rparr>, me_function = FunctionWorking,
     me_state = MemoryActive, me_current_version = 1, me_created_at = sample_time 6\<rparr>"

definition sample_work_version :: memory_version where
  "sample_work_version = \<lparr>mv_id = ''mv-w'', mv_memory_id = ''mem-w'', mv_number = 1, mv_state = VersionCurrent,
     mv_taxonomy = sample_taxonomy\<lparr>tx_functions := [''working'']\<rparr>, mv_valid_time = \<lparr>tr_from = sample_time 6, tr_to = None\<rparr>,
     mv_system_time = \<lparr>tr_from = sample_time 6, tr_to = None\<rparr>, mv_conflict_group = '''', mv_supersedes = [],
     mv_derived_from = [], mv_provenance = sample_evidence,
     mv_payload = \<lparr>pl_factual = None, pl_experiential = None, pl_working = Some
       \<lparr>wm_working_set_id = ''ws-1'', wm_task_id = ''task-1'', wm_goal = sample_text ''goal'', wm_state = sample_text ''step'',
        wm_compacted_from = []\<rparr>\<rparr>\<rparr>"

definition store_working :: store where
  "store_working = fst (put_memory sample_work_memory sample_work_version (fst (put_working_set sample_working_set store_tea)))"

lemma store_working_rows:
  "map (ws_id \<circ> wr_set) (st_working_sets store_working) = [''ws-1'']"
  "map (\<lambda>m. (me_id m, me_state m)) (st_memories store_working) =
     [(sample_id ''mem'' ''p1'', MemoryActive), (''mem-w'', MemoryActive)]"
  by code_simp+

theorem expiry_sweep_witness:
  "(\<exists>ids. snd (expire_working_sets (sample_time 500) store_working) = Inr ids \<and> sorted_wrt (<) ids) \<and>
   map (\<lambda>m. (me_id m, me_state m)) (st_memories (fst (expire_working_sets (sample_time 500) store_working))) =
     [(sample_id ''mem'' ''p1'', MemoryActive), (''mem-w'', MemoryArchived)]"
proof -
  have "map (\<lambda>m. (me_id m, me_state m)) (st_memories (fst (expire_working_sets (sample_time 500) store_working))) =
     [(sample_id ''mem'' ''p1'', MemoryActive), (''mem-w'', MemoryArchived)]" by code_simp
  moreover have "distinct (map (ws_id \<circ> wr_set) (st_working_sets store_working))"
    by (simp add: store_working_rows(1) del: map_map)
  moreover have "distinct (map mv_id (st_versions store_working))" "storable (sample_time 500)" by code_simp+
  moreover have "sample_time 500 \<noteq> 0" by (simp add: sample_time_def)
  ultimately show ?thesis
    using expiry_sweep [OF _ _ _ _ prod.collapse [symmetric], of store_working "sample_time 500"] by metis
qed

text \<open>
  The sweep has no filter on the state of the memory: a forgotten working memory comes
  out archived.
\<close>

theorem expiry_archives_forgotten:
  "map me_state (filter (\<lambda>m. me_id m = ''mem-w'') (st_memories
      (sample_apply (sample_proposal ''p9'' ProposalForget ''mem-w'' ''{}'') 100 store_working))) = [MemoryForgotten] \<and>
   map me_state (filter (\<lambda>m. me_id m = ''mem-w'') (st_memories (fst (expire_working_sets (sample_time 500)
      (sample_apply (sample_proposal ''p9'' ProposalForget ''mem-w'' ''{}'') 100 store_working))))) = [MemoryArchived]"
  by code_simp

end
