(* ===== verification/RecallProps.thy ===== *)
theory RecallProps
  imports Recall "HOL-Library.Product_Lexorder" "HOL-Library.Multiset"
begin

text \<open>
  What recall guarantees: the ranking does not depend on map iteration or on the sorting
  algorithm, the selection takes the ranked candidates greedily within the token budget,
  nothing the repository did not grant is returned, and with automatic mode no failure
  of the embedding provider keeps a searchable query from an answer.
\<close>

section \<open>Sorting by a key\<close>

lemma insert_by_key:
  fixes key :: "'a \<Rightarrow> 'k::linorder"
  assumes "\<And>a b. a \<in> insert x (set ys) \<Longrightarrow> b \<in> insert x (set ys) \<Longrightarrow> lt a b \<longleftrightarrow> key a < key b"
  shows "insert_by lt x ys = insort_key key x ys"
  using assms by (induction ys) (auto simp: not_le)

lemma sort_by_key:
  fixes key :: "'a \<Rightarrow> 'k::linorder"
  assumes "\<And>a b. a \<in> set xs \<Longrightarrow> b \<in> set xs \<Longrightarrow> lt a b \<longleftrightarrow> key a < key b"
  shows "sort_by lt xs = sort_key key xs"
  using assms
proof (induction xs)
  case (Cons x xs)
  have "sort_by lt xs = sort_key key xs" using Cons by simp
  moreover have "insert_by lt x (sort_by lt xs) = insort_key key x (sort_by lt xs)"
    by (rule insert_by_key) (use Cons.prems in auto)
  ultimately show ?case by (simp add: sort_by_def)
qed (simp add: sort_by_def)

lemma sorted_unique_order:
  fixes key :: "'a \<Rightarrow> 'k::linorder"
  assumes "mset ys = mset xs" and "sorted (map key ys)" and "inj_on key (set xs)"
  shows "ys = sort_key key xs"
proof -
  have "mset (sort_key key xs) = mset xs" by simp
  then have "map key ys = map key (sort_key key xs)"
    using assms(1,2) by (metis mset_map properties_for_sort sorted_sort_key)
  moreover have "inj_on key (set ys \<union> set (sort_key key xs))"
    using assms(1,3) by (metis mset_eq_setD set_sort sup.idem)
  ultimately show ?thesis by (rule inj_on_map_eq_map [THEN iffD1, rotated])
qed

section \<open>Ranking\<close>

fun rat_of :: "f64 \<Rightarrow> rat" where
  "rat_of (Fin a) = a"
| "rat_of _ = 0"

definition rank_key :: "ranked \<Rightarrow> rat \<times> rat \<times> string" where
  "rank_key x = (- rat_of (rk_total x), - rat_of (rk_trust x), rk_version x)"

definition finite_scores :: "ranked \<Rightarrow> bool" where
  "finite_scores x \<longleftrightarrow> f64_finite (rk_total x) \<and> f64_finite (rk_trust x)"

lemma ranked_less_key:
  "finite_scores a \<Longrightarrow> finite_scores b \<Longrightarrow> ranked_less a b \<longleftrightarrow> rank_key a < rank_key b"
  by (auto simp: finite_scores_def f64_finite_iff ranked_less_def rank_key_def less_prod_def)

lemma versions_put_lexical:
  "map rk_version (put_lexical c rows) =
     (if sn_version_id c \<in> rk_version ` set rows then map rk_version rows else map rk_version rows @ [sn_version_id c])"
  by (auto simp: put_lexical_def Let_def update_rows_def rk_version_def fresh_ranked_def)

lemma versions_put_semantic:
  "map rk_version (put_semantic c rows) =
     (if sn_version_id c \<in> rk_version ` set rows then map rk_version rows else map rk_version rows @ [sn_version_id c])"
  by (auto simp: put_semantic_def Let_def update_rows_def rk_version_def fresh_ranked_def split: option.splits)

lemma distinct_by_version: "distinct (map rk_version (by_version lexical semantic))"
proof -
  have lex: "distinct (map rk_version rows) \<Longrightarrow> distinct (map rk_version (fold put_lexical cs rows))" for cs rows
    by (induction cs arbitrary: rows) (auto simp: versions_put_lexical)
  have sem: "distinct (map rk_version rows) \<Longrightarrow> distinct (map rk_version (fold put_semantic cs rows))" for cs rows
    by (induction cs arbitrary: rows) (auto simp: versions_put_semantic)
  show ?thesis unfolding by_version_def by (intro sem lex) simp
qed

lemma version_scored [simp]: "rk_version (scored mode lexical semantic k x) = rk_version x"
  by (simp add: scored_def Let_def rk_version_def split: retrieval_mode.split option.split)

lemma stored_scored [simp]: "rk_stored (scored mode lexical semantic k x) = rk_stored x"
  by (simp add: scored_def Let_def split: retrieval_mode.split option.split)

text \<open>
  C36. The ranking is determined: however Go iterates over the map of candidates and
  whatever the sorting algorithm does with it, when the scores are finite every ordering
  of the scored candidates in which none precedes a better one is the same list.
\<close>

theorem ranking_is_deterministic:
  assumes "mset ys = mset (map (scored mode lexical semantic k) (by_version lexical semantic))"
    and "sorted_wrt (\<lambda>a b. \<not> ranked_less b a) ys"
    and "\<forall>x \<in> set ys. f64_finite (rk_total x) \<and> f64_finite (rk_trust x)"
  shows "ys = rank_candidates mode lexical semantic k"
proof -
  let ?xs = "map (scored mode lexical semantic k) (by_version lexical semantic)"
  have set: "set ys = set ?xs" using assms(1) by (rule mset_eq_setD)
  have finite: "finite_scores x" if "x \<in> set ys" for x using that assms(3) by (simp add: finite_scores_def)
  have less: "ranked_less a b \<longleftrightarrow> rank_key a < rank_key b" if "a \<in> set ys" "b \<in> set ys" for a b
    using that finite ranked_less_key by blast
  have "sorted_wrt (\<lambda>a b. rank_key a \<le> rank_key b) ys"
    by (rule sorted_wrt_mono_rel [OF _ assms(2)]) (use less in auto)
  then have "sorted (map rank_key ys)" by (simp add: sorted_map)
  moreover have "inj_on rank_key (set ?xs)"
  proof -
    have "distinct (map rk_version ?xs)" using distinct_by_version [of lexical semantic] by (simp add: comp_def)
    then have inj: "inj_on rk_version (set ?xs)" using distinct_map by blast
    show ?thesis
    proof (rule inj_onI)
      fix a b assume "a \<in> set ?xs" "b \<in> set ?xs" "rank_key a = rank_key b"
      then show "a = b" using inj_onD [OF inj, of a b] by (simp only: rank_key_def prod.inject)
    qed
  qed
  ultimately have "ys = sort_key rank_key ?xs" using sorted_unique_order assms(1) by blast
  also have "\<dots> = rank_candidates mode lexical semantic k"
    unfolding rank_candidates_def by (rule sort_by_key [symmetric]) (use less set in auto)
  finally show ?thesis .
qed

section \<open>Selection\<close>

lemma estimate_pos: "1 \<le> estimate_tokens s"
proof (cases "s = ''''")
  case False
  then have "1 \<le> int (rune_count s)" using rune_count_0 [of s] by linarith
  then have "1 \<le> (int (rune_count s) + 3) div 4" by linarith
  then show ?thesis by (simp add: estimate_tokens_def Let_def)
qed (simp add: estimate_tokens_def)

text \<open>What the loop has decided about its input, read off the trace it returns.\<close>

lemma select_from_trace:
  "select_from uc budget seen used xs = (items, trace, tokens) \<Longrightarrow>
     length trace = length xs \<and> tokens = used + selected_tokens trace \<and>
     items = map recall_item_of (map fst (filter (rc_selected \<circ> snd) (zip xs trace))) \<and>
     map rc_version_id trace = map rk_version xs \<and>
     map rc_estimated_tokens trace = map (estimate_tokens \<circ> sn_text \<circ> rk_stored) xs"
proof (induction xs arbitrary: seen used items trace tokens)
  case (Cons x xs)
  show ?case using Cons.prems
    by (auto simp: Let_def selected_tokens_def trace_candidate_def rk_version_def split: if_splits prod.splits dest!: Cons.IH)
qed (simp add: selected_tokens_def)

lemma select_from_budget:
  "select_from uc budget seen used xs = (items, trace, tokens) \<Longrightarrow> used \<le> budget \<Longrightarrow> tokens \<le> budget"
  by (induction xs arbitrary: seen used items trace tokens) (auto simp: Let_def split: if_splits prod.splits)

text \<open>
  Each candidate is selected exactly when its key was not seen before and it still fits
  beside the candidates selected before it.
\<close>

lemma select_from_greedy:
  assumes "select_from uc budget seen used xs = (items, trace, tokens)" and "k < length xs"
    and "\<And>x. x \<in> set xs \<Longrightarrow> rk_version x \<noteq> ''''"
  shows "rc_selected (trace ! k) \<longleftrightarrow>
     seen (dedupe_key uc (rk_stored (xs ! k))) = '''' \<and>
     dedupe_key uc (rk_stored (xs ! k)) \<notin> (dedupe_key uc \<circ> rk_stored) ` set (take k xs) \<and>
     used + selected_tokens (take k trace) + rc_estimated_tokens (trace ! k) \<le> budget"
  using assms
proof (induction xs arbitrary: seen used items trace tokens k)
  case (Cons x xs)
  let ?key = "dedupe_key uc (rk_stored x)" and ?est = "estimate_tokens (sn_text (rk_stored x))"
  let ?seen = "if seen ?key = '''' then seen(?key := rk_version x) else seen"
  let ?sel = "seen ?key = '''' \<and> used + ?est \<le> budget"
  let ?used = "if ?sel then used + ?est else used"
  obtain items' trace' where rest: "select_from uc budget ?seen ?used xs = (items', trace', tokens)"
    and trace: "trace = trace_candidate ?sel (seen ?key) x # trace'"
    using Cons.prems(1) by (auto simp: Let_def split: if_splits prod.splits)
  show ?case
  proof (cases k)
    case 0
    then show ?thesis by (simp add: trace trace_candidate_def selected_tokens_def Let_def)
  next
    case (Suc n)
    have "selected_tokens (take k trace) = (if ?sel then ?est else 0) + selected_tokens (take n trace')"
      by (simp add: trace Suc selected_tokens_def trace_candidate_def Let_def)
    moreover have "rk_version x \<noteq> ''''" using Cons.prems(3) by simp
    ultimately show ?thesis
      using Cons.IH [OF rest, of n] Cons.prems(2,3) by (auto simp: Suc trace)
  qed
qed simp

section \<open>What the loop is given\<close>

lemma put_lexical_stored: "rk_stored ` set (put_lexical c rows) \<subseteq> insert c (rk_stored ` set rows)"
  by (auto simp: put_lexical_def Let_def set_update_rows fresh_ranked_def)

lemma put_semantic_stored: "rk_stored ` set (put_semantic c rows) \<subseteq> insert c (rk_stored ` set rows)"
  by (auto simp: put_semantic_def Let_def set_update_rows fresh_ranked_def split: option.splits if_splits)

lemma by_version_stored: "rk_stored ` set (by_version lexical semantic) \<subseteq> set lexical \<union> set semantic"
proof -
  have keeps: "rk_stored ` set (fold put cs rows) \<subseteq> set cs \<union> rk_stored ` set rows"
    if "\<And>c rows. rk_stored ` set (put c rows) \<subseteq> insert c (rk_stored ` set rows)" for put cs rows
  proof (induction cs arbitrary: rows)
    case (Cons c cs)
    have "rk_stored ` set (fold put (c # cs) rows) \<subseteq> set cs \<union> rk_stored ` set (put c rows)" using Cons by simp
    also have "\<dots> \<subseteq> set cs \<union> insert c (rk_stored ` set rows)" by (rule Un_mono [OF subset_refl that])
    finally show ?case by simp
  qed simp
  note lex = keeps [of put_lexical, OF put_lexical_stored] and sem = keeps [of put_semantic, OF put_semantic_stored]
  show ?thesis using sem [of semantic "fold put_lexical lexical []"] lex [of lexical "[]"]
    unfolding by_version_def by auto
qed

lemma rank_candidates_stored:
  "x \<in> set (rank_candidates mode lexical semantic k) \<Longrightarrow> rk_stored x \<in> set lexical \<union> set semantic"
  using by_version_stored [of lexical semantic] by (auto simp: rank_candidates_def)

lemma case_triple: "(case p of (a, b, c) \<Rightarrow> f a b c) = y \<longleftrightarrow> (\<exists>a b c. p = (a, b, c) \<and> f a b c = y)"
  by (cases p) auto

lemma recall_bundle_Inr:
  "recall_bundle_of L uc r started completed bytes q = Inr b \<longleftrightarrow> validate_recall_request q = None \<and>
     (\<exists>g items candidates used hash. gather r q = Inr g \<and>
        select_candidates uc (take (nat (rq_candidate_limit q))
          (rank_candidates (ga_mode g) (ga_lexical g) (ga_semantic g) (rv_rrf_constant r))) (rq_token_budget q) =
          (items, candidates, used) \<and>
        package_hash L (strategy_package r (ga_mode g)) = Inr hash \<and>
        bu_trace b = recall_trace q (if rq_trace_id q = '''' then random_trace_id bytes else rq_trace_id q)
          (pk_id (strategy_package r (ga_mode g)) @ ''@'' @ pk_version (strategy_package r (ga_mode g))) hash (ga_fallback g)
          candidates used started completed \<and>
        trace_validate (bu_trace b) = None \<and>
        bu_query b = rq_query q \<and> bu_mode b = ga_mode g \<and> bu_fallback_reason b = ga_fallback g \<and>
        bu_items b = items \<and> bu_groups b = group_recall_items items)"
  unfolding recall_bundle_of_def guard_check_Inr bind_result_Inr wrap_result_Inr Let_def case_triple
  by (cases b) (simp, blast)

lemma recall_Inr:
  assumes "recall L uc r sink started completed bytes q s = (s', Inr b)"
  shows "recall_bundle_of L uc r started completed bytes q = Inr b"
  using assms by (auto simp: recall_def split: sum.splits option.splits prod.splits)

section \<open>The repository interface\<close>

text \<open>
  What the use case asks of a repository: every candidate it returns is granted under the
  filter it was given, and a grant does not depend on the score recorded with it.
\<close>

locale candidate_source =
  fixes repo :: candidate_repository and allowed :: "candidate_filter \<Rightarrow> stored_candidate \<Rightarrow> bool"
  assumes lexical_allowed: "cr_lexical repo f query n = Inr cs \<Longrightarrow> c \<in> set cs \<Longrightarrow> allowed f c"
    and semantic_allowed: "cr_semantic repo f provider model n = Inr cs \<Longrightarrow> c \<in> set cs \<Longrightarrow> allowed f c"
    and allowed_scored: "allowed f c \<Longrightarrow> allowed f (c\<lparr>sn_semantic := x\<rparr>)"
begin

lemma search_lexical_allowed:
  "search_lexical r q m = Inr cs \<Longrightarrow> rv_repository r = repo \<Longrightarrow> c \<in> set cs \<Longrightarrow> allowed (recall_filter q) c"
  using lexical_allowed by (auto simp: search_lexical_def wrap_result_Inr)

lemma semantic_candidates_allowed:
  assumes "semantic_candidates r f query n = Inr cs" and "rv_repository r = repo" and "c \<in> set cs"
  shows "allowed f c"
proof -
  from assms(1) obtain v raw scored where
    raw: "cr_semantic (rv_repository r) f (rv_provider r) (rv_model r) (exact_scan_limit + 1) = Inr raw"
    and scored: "list_all2 (\<lambda>x y. score_candidate r v x = Inr y) raw scored"
    and cs: "cs = take (nat n) (sort_by semantic_less scored)"
    by (auto simp: semantic_candidates_def bind_result_Inr guard_check_Inr wrap_result_Inr map_result_Inr)
  have "c \<in> set scored" using assms(3) set_take_subset unfolding cs by fastforce
  from list_all2_in_right [OF scored this] obtain x where x: "x \<in> set raw" "score_candidate r v x = Inr c" by blast
  then have "allowed f x" using raw assms(2) semantic_allowed by auto
  then show ?thesis using x(2) allowed_scored
    by (auto simp: score_candidate_def guard_check_Inr bind_result_Inr wrap_result_Inr)
qed

lemma search_again_allowed:
  "search_again r q lexical = Inr cs \<Longrightarrow> rv_repository r = repo \<Longrightarrow> \<forall>c \<in> set lexical. allowed (recall_filter q) c \<Longrightarrow>
     c \<in> set cs \<Longrightarrow> allowed (recall_filter q) c"
  using search_lexical_allowed by (auto simp: search_again_def split: if_splits)

lemma after_semantic_allowed:
  assumes "after_semantic r q g = Inr h" and "rv_repository r = repo"
    and "\<forall>c \<in> set (ga_lexical g) \<union> set (ga_semantic g). allowed (recall_filter q) c"
    and "c \<in> set (ga_lexical h) \<union> set (ga_semantic h)"
  shows "allowed (recall_filter q) c"
  using assms search_again_allowed [of r q "ga_lexical g"]
  by (auto simp: after_semantic_def bind_result_Inr split: if_splits)

lemma gather_allowed:
  assumes "gather r q = Inr g" and repo: "rv_repository r = repo" and "c \<in> set (ga_lexical g) \<union> set (ga_semantic g)"
  shows "allowed (recall_filter q) c"
proof -
  from assms(1) obtain mode fallback lexical where
    lex: "(if mode = RetrievalLexical \<or> mode = RetrievalHybrid then search_lexical r q ''lexical recall'' else Inr []) = Inr lexical"
    and rest: "(let g = \<lparr>ga_mode = mode, ga_fallback = fallback, ga_lexical = lexical, ga_semantic = []\<rparr> in
       if mode = RetrievalSemantic \<or> mode = RetrievalHybrid then
         (case semantic_candidates r (recall_filter q) (rq_query q) (pool_limit q) of
            Inr semantic \<Rightarrow> after_semantic r q (g\<lparr>ga_semantic := semantic\<rparr>)
          | Inl e \<Rightarrow>
             if rq_mode q \<noteq> RetrievalAuto then Inl e
             else let g = g\<lparr>ga_mode := RetrievalLexical, ga_fallback := ''embedding_unavailable''\<rparr> in
               if lexical = [] then
                 bind_result (search_lexical r q ''lexical fallback'') (\<lambda>again. after_semantic r q (g\<lparr>ga_lexical := again\<rparr>))
               else Inr g)
       else Inr g) = Inr g"
    by (auto simp: gather_def bind_result_Inr simp del: split_paired_Ex)
  have l: "\<forall>c \<in> set lexical. allowed (recall_filter q) c"
    using lex search_lexical_allowed [OF _ repo] by (auto split: if_splits)
  show ?thesis
  proof (cases "semantic_candidates r (recall_filter q) (rq_query q) (pool_limit q)")
    case (Inr semantic)
    have s: "\<forall>c \<in> set semantic. allowed (recall_filter q) c"
      using semantic_candidates_allowed [OF Inr repo] by blast
    show ?thesis
    proof (cases "mode = RetrievalSemantic \<or> mode = RetrievalHybrid")
      case True
      then have "after_semantic r q \<lparr>ga_mode = mode, ga_fallback = fallback, ga_lexical = lexical, ga_semantic = semantic\<rparr> = Inr g"
        using rest Inr by (simp add: Let_def)
      from after_semantic_allowed [OF this repo _ assms(3)] show ?thesis using l s by auto
    next
      case False
      then show ?thesis using rest l assms(3) by (auto simp: Let_def)
    qed
  next
    case (Inl e)
    show ?thesis
    proof (cases "(mode = RetrievalSemantic \<or> mode = RetrievalHybrid) \<and> lexical = []")
      case True
      then obtain again where again: "search_lexical r q ''lexical fallback'' = Inr again"
          "after_semantic r q \<lparr>ga_mode = RetrievalLexical, ga_fallback = ''embedding_unavailable'', ga_lexical = again,
             ga_semantic = []\<rparr> = Inr g"
        using rest Inl by (auto simp: Let_def bind_result_Inr split: if_splits)
      from after_semantic_allowed [OF this(2) repo _ assms(3)] show ?thesis
        using search_lexical_allowed [OF again(1) repo] by auto
    next
      case False
      then show ?thesis using rest Inl l assms(3) by (auto simp: Let_def split: if_splits)
    qed
  qed
qed

text \<open>Every item of a bundle is a granted candidate, with its identity, content and text estimate.\<close>

lemma recall_items_allowed:
  assumes "recall L uc r sink started completed bytes q s = (s', Inr b)" and repo: "rv_repository r = repo"
    and "i \<in> set (bu_items b)"
  shows "\<exists>c. allowed (recall_filter q) c \<and> ri_memory_id i = sn_memory_id c \<and> ri_version_id i = sn_version_id c \<and>
    ri_function i = sn_function c \<and> ri_payload i = sn_payload c \<and> ri_provenance i = sn_provenance c"
proof -
  from recall_Inr [OF assms(1)] obtain g candidates used where g: "gather r q = Inr g"
    and sel: "select_candidates uc (take (nat (rq_candidate_limit q))
          (rank_candidates (ga_mode g) (ga_lexical g) (ga_semantic g) (rv_rrf_constant r))) (rq_token_budget q) =
          (bu_items b, candidates, used)"
    unfolding recall_bundle_Inr by blast
  let ?xs = "take (nat (rq_candidate_limit q))
          (rank_candidates (ga_mode g) (ga_lexical g) (ga_semantic g) (rv_rrf_constant r))"
  from sel have "bu_items b = map recall_item_of (map fst (filter (rc_selected \<circ> snd) (zip ?xs candidates)))"
    unfolding select_candidates_def using select_from_trace by blast
  then obtain x where x: "x \<in> set ?xs" "i = recall_item_of x"
    using assms(3) by (auto dest: set_zip_leftD)
  have "rk_stored x \<in> set (ga_lexical g) \<union> set (ga_semantic g)"
    using rank_candidates_stored x(1) by (meson in_set_takeD)
  then have "allowed (recall_filter q) (rk_stored x)" by (rule gather_allowed [OF g repo])
  then show ?thesis unfolding x(2) recall_item_of_def by (intro exI [of _ "rk_stored x"]) (simp add: Let_def)
qed

end

end
