(* ===== verification/CandidateProps.thy ===== *)
theory CandidateProps
  imports Candidates Samples
begin

text \<open>
  What candidate retrieval guarantees: everything it returns is past the authorization
  and time filter, and on a well-formed database a lexical search succeeds and misses
  no admissible version that matches.
\<close>

definition sample_unicode :: unicode where
  "sample_unicode = \<lparr>uc_letter = (\<lambda>c. 65 \<le> c \<and> c \<le> 90 \<or> 97 \<le> c \<and> c \<le> 122), uc_number = (\<lambda>c. 48 \<le> c \<and> c \<le> 57),
     uc_lower = (\<lambda>c. if 65 \<le> c \<and> c \<le> 90 then c + 32 else c)\<rparr>"

definition sample_fts :: fts_engine where
  "sample_fts match rows r = Some (Fin (- of_int (int (length (fx_text r)))))"

definition sample_filter :: candidate_filter where
  "sample_filter = \<lparr>cf_access = sample_access, cf_subject = ''sub'', cf_context = '''', cf_functions = [],
     cf_valid_at = sample_time 60, cf_system_at = sample_time 60, cf_include_global_working = False\<rparr>"

text \<open>
  Authorization: every candidate of a lexical or semantic search is a stored version of
  a memory of the caller's namespace and the requested subject; a private memory only of
  one of the caller's owners, shared and public ones only when allowed; the memory is
  active, the version current or superseded and in force at both instants, and a working
  memory only through an active, unexpired working set of its task. The content is that
  version's.
\<close>

theorem candidates_are_authorized:
  assumes "search_lexical_candidates uc fts st f query limit = Inr cs \<or>
      list_semantic_candidates L st f provider model limit = Inr cs"
    and "c \<in> set cs"
  shows "\<exists>m \<in> set (st_memories st). \<exists>v \<in> set (st_versions st).
    me_id m = sn_memory_id c \<and> mv_memory_id v = me_id m \<and> mv_id v = sn_version_id c \<and> sn_payload c = mv_payload v \<and>
    sc_namespace (me_scope m) = ac_namespace (cf_access f) \<and> sc_subject (me_scope m) = cf_subject f \<and>
    (sc_visibility (me_scope m) = VisibilityPrivate \<longrightarrow> sc_owner (me_scope m) \<in> set (ac_private_owners (cf_access f))) \<and>
    (sc_visibility (me_scope m) = VisibilityShared \<longrightarrow> ac_allow_shared (cf_access f)) \<and>
    (sc_visibility (me_scope m) = VisibilityPublic \<longrightarrow> ac_allow_public (cf_access f)) \<and>
    me_state m = MemoryActive \<and> mv_state v \<in> {VersionCurrent, VersionSuperseded} \<and>
    in_range (mv_valid_time v) (cf_valid_at f) \<and> in_range (mv_system_time v) (cf_system_at f) \<and>
    (me_function m = FunctionWorking \<longrightarrow>
       (\<exists>w \<in> set (st_working_sets st). wr_state w = WorkingActive \<and> ws_task_id (wr_set w) = sc_context (me_scope m) \<and>
          (case ws_expires_at (wr_set w) of None \<Rightarrow> True | Some e \<Rightarrow> text_less (cf_system_at f) e)))"
proof -
  have "granted st f c"
    using assms search_lexical_granted list_semantic_granted by blast
  then obtain m v where mv: "m \<in> set (st_memories st)" "v \<in> set (st_versions st)" "me_id m = mv_memory_id v"
      "admissible st f m v" "sn_memory_id c = me_id m" "sn_version_id c = mv_id v" "sn_payload c = mv_payload v"
    unfolding granted_def by blast
  have "\<exists>w \<in> set (st_working_sets st). wr_state w = WorkingActive \<and> ws_task_id (wr_set w) = sc_context (me_scope m) \<and>
          (case ws_expires_at (wr_set w) of None \<Rightarrow> True | Some e \<Rightarrow> text_less (cf_system_at f) e)"
    if "me_function m = FunctionWorking"
    using mv(4) that
    by (auto simp: admissible_def working_gate_def open_working_set_def list_ex_iff split: if_splits)
  moreover have "visible_to (cf_access f) (me_scope m)" using mv(4) by (simp add: admissible_def)
  ultimately show ?thesis
    using mv by (intro bexI [of _ m] bexI [of _ v]) (auto simp: admissible_def visible_to_def)
qed

section \<open>Completeness\<close>

text \<open>The versions a lexical search should find.\<close>

definition searchable :: "fts_engine \<Rightarrow> store \<Rightarrow> candidate_filter \<Rightarrow> string \<Rightarrow> ident set" where
  "searchable fts st f match = {mv_id v |v m r. v \<in> set (st_versions st) \<and> m \<in> set (st_memories st) \<and>
     me_id m = mv_memory_id v \<and> r \<in> set (st_fts st) \<and> fx_version r = mv_id v \<and>
     fts match (st_fts st) r \<noteq> None \<and> admissible st f m v}"

lemma lexical_rowsE:
  assumes "c \<in> set (lexical_rows fts st f match)"
  obtains r m v x where "r \<in> set (st_fts st)" "fts match (st_fts st) r = Some x" "(m, v) \<in> set (joined st f r)"
    "c = (make_candidate r m v)\<lparr>sn_lexical := Some x\<rparr>"
proof -
  from assms obtain r where r: "r \<in> set (st_fts st)"
    and c: "c \<in> set (case fts match (st_fts st) r of None \<Rightarrow> []
      | Some score \<Rightarrow> map (\<lambda>(m, v). (make_candidate r m v)\<lparr>sn_lexical := Some score\<rparr>) (joined st f r))"
    unfolding lexical_rows_def set_concat set_map by blast
  show thesis
  proof (cases "fts match (st_fts st) r")
    case (Some x)
    with c obtain m v where "(m, v) \<in> set (joined st f r)" "c = (make_candidate r m v)\<lparr>sn_lexical := Some x\<rparr>" by auto
    with r Some show thesis by (rule that)
  qed (use c in simp)
qed

lemma lexical_rows_searchable:
  assumes "keys_ok st"
  shows "sn_version_id ` set (lexical_rows fts st f match) = searchable fts st f match"
proof
  show "sn_version_id ` set (lexical_rows fts st f match) \<subseteq> searchable fts st f match"
  proof
    fix i assume "i \<in> sn_version_id ` set (lexical_rows fts st f match)"
    then obtain c where c: "c \<in> set (lexical_rows fts st f match)" and ic: "i = sn_version_id c" by blast
    from c obtain r m v x where r: "r \<in> set (st_fts st)" "fts match (st_fts st) r = Some x"
      and mv: "(m, v) \<in> set (joined st f r)" and "c = (make_candidate r m v)\<lparr>sn_lexical := Some x\<rparr>"
      by (rule lexical_rowsE)
    moreover from this ic have "i = mv_id v" by (simp add: make_candidate_def)
    ultimately show "i \<in> searchable fts st f match"
      using joinedD [OF mv] unfolding searchable_def by fastforce
  qed
next
  show "searchable fts st f match \<subseteq> sn_version_id ` set (lexical_rows fts st f match)"
  proof
    fix i assume "i \<in> searchable fts st f match"
    then obtain v m r where v: "v \<in> set (st_versions st)" "i = mv_id v" and m: "m \<in> set (st_memories st)" "me_id m = mv_memory_id v"
      and r: "r \<in> set (st_fts st)" "fx_version r = mv_id v" and a: "admissible st f m v"
      and score: "fts match (st_fts st) r \<noteq> None"
      unfolding searchable_def by blast
    obtain x where x: "fts match (st_fts st) r = Some x" using score by blast
    have "find_row mv_id (fx_version r) (st_versions st) = Some v" "find_row me_id (mv_memory_id v) (st_memories st) = Some m"
      using assms v m r by (simp_all add: keys_ok_def find_row_eq_Some)
    then have "(m, v) \<in> set (joined st f r)" using a by (simp add: joined_def)
    then have "(make_candidate r m v)\<lparr>sn_lexical := Some x\<rparr> \<in> set (lexical_rows fts st f match)"
      using r(1) x unfolding lexical_rows_def set_concat set_map
      by (intro UN_I [OF imageI [OF r(1)]]) (auto simp: image_iff intro!: bexI [of _ "(m, v)"])
    moreover have "sn_version_id ((make_candidate r m v)\<lparr>sn_lexical := Some x\<rparr>) = i" by (simp add: make_candidate_def v(2))
    ultimately show "i \<in> sn_version_id ` set (lexical_rows fts st f match)" by (metis imageI)
  qed
qed

lemma granted_check:
  assumes "store_ok st" and "granted st f c"
  shows "candidate_check c = None"
proof -
  from assms(2) obtain m v where mv: "m \<in> set (st_memories st)" "v \<in> set (st_versions st)" "me_id m = mv_memory_id v"
      "sn_function c = me_function m" "sn_payload c = mv_payload v" "sn_provenance c = mv_provenance v"
    unfolding granted_def by blast
  have chain: "chain_ok st" and keys: "keys_ok st" using assms(1) by (simp_all add: store_ok_def)
  obtain n where n: "n \<in> set (st_memories st)" "me_id n = mv_memory_id v"
      "payload_validate (me_function n) (mv_payload v) = None" "mv_provenance v \<noteq> []"
    by (rule chain_versionD [OF chain mv(2)])
  then have "n = m" using keys_memory_unique [OF keys n(1) mv(1)] mv(3) by simp
  with n mv show ?thesis by (simp add: candidate_check_def)
qed

text \<open>
  C30. On a well-formed database a lexical search with a complete filter and a searchable
  query succeeds, returns at most the limit, and when the limit is not reached it
  returns exactly the admissible versions that match.
\<close>

theorem search_is_complete:
  assumes "store_ok st" and "filter_check f = None" and "safe_fts_query uc query = Inr match" and "0 \<le> limit"
  shows "\<exists>cs. search_lexical_candidates uc fts st f query limit = Inr cs \<and> int (length cs) \<le> limit \<and>
    (int (length cs) < limit \<longrightarrow> sn_version_id ` set cs = searchable fts st f match)"
proof -
  let ?all = "sort_by lexical_less (lexical_rows fts st f match)"
  let ?cs = "sql_limit limit ?all"
  have "candidate_check c = None" if "c \<in> set ?cs" for c
    using that set_sql_limit [of limit ?all] lexical_rows_granted granted_check [OF assms(1)] by fastforce
  then have "search_lexical_candidates uc fts st f query limit = Inr ?cs"
    using assms(2,3) by (simp add: search_lexical_Inr)
  moreover have "int (length ?cs) \<le> limit" using assms(4) by (auto simp: sql_limit_def)
  moreover have "sn_version_id ` set ?cs = searchable fts st f match" if "int (length ?cs) < limit"
  proof -
    have "?cs = ?all" using that assms(4) by (auto simp: sql_limit_def)
    then show ?thesis using lexical_rows_searchable assms(1) by (simp add: store_ok_def)
  qed
  ultimately show ?thesis by blast
qed

lemma sample_query: "safe_fts_query sample_unicode ''Tea?'' = Inr [CHR 0x22, CHR ''T'', CHR ''e'', CHR ''a'', CHR 0x22]"
  by code_simp

lemma sample_filter_check: "filter_check sample_filter = None"
  by code_simp

lemma sample_rows:
  "map sn_version_id (lexical_rows sample_fts store_tea sample_filter [CHR 0x22, CHR ''T'', CHR ''e'', CHR ''a'', CHR 0x22]) =
     [sample_id ''mv'' ''p1'']"
  by code_simp

theorem search_is_complete_witness:
  "\<exists>cs. search_lexical_candidates sample_unicode sample_fts store_tea sample_filter ''Tea?'' 10 = Inr cs \<and>
     map sn_version_id cs = [sample_id ''mv'' ''p1'']"
proof -
  let ?rows = "lexical_rows sample_fts store_tea sample_filter [CHR 0x22, CHR ''T'', CHR ''e'', CHR ''a'', CHR 0x22]"
  obtain cs where cs: "search_lexical_candidates sample_unicode sample_fts store_tea sample_filter ''Tea?'' 10 = Inr cs"
    using search_is_complete [OF store_tea_ok sample_filter_check sample_query, of 10 sample_fts] by auto
  obtain c where c: "?rows = [c]" "sn_version_id c = sample_id ''mv'' ''p1''"
    using sample_rows by (auto simp: map_eq_Cons_conv)
  have "cs = sql_limit 10 (sort_by lexical_less ?rows)"
    using cs by (auto simp: search_lexical_Inr sample_query)
  then have "cs = [c]" by (simp add: c(1) sort_by_def sql_limit_def)
  then show ?thesis using cs c(2) by simp
qed

theorem candidates_are_authorized_witness:
  "\<exists>m \<in> set (st_memories store_tea). sc_owner (me_scope m) \<in> set [''alice''] \<and> me_state m = MemoryActive"
proof -
  obtain cs where cs: "search_lexical_candidates sample_unicode sample_fts store_tea sample_filter ''Tea?'' 10 = Inr cs"
    "cs \<noteq> []"
  proof -
    let ?rows = "lexical_rows sample_fts store_tea sample_filter [CHR 0x22, CHR ''T'', CHR ''e'', CHR ''a'', CHR 0x22]"
    have "?rows \<noteq> []" using sample_rows by (metis list.simps(8) not_Cons_self2)
    then have "sql_limit 10 (sort_by lexical_less ?rows) \<noteq> []"
      by (metis length_0_conv length_sort_by sql_limit_def take_eq_Nil nat_numeral zero_neq_numeral not_numeral_less_zero)
    moreover have "\<exists>cs. search_lexical_candidates sample_unicode sample_fts store_tea sample_filter ''Tea?'' 10 = Inr cs"
    proof -
      have "candidate_check c = None" if "c \<in> set (sql_limit 10 (sort_by lexical_less ?rows))" for c
        using that set_sql_limit [of 10 "sort_by lexical_less ?rows"] lexical_rows_granted
          granted_check [OF store_tea_ok] by fastforce
      then show ?thesis by (simp add: search_lexical_Inr sample_query sample_filter_check)
    qed
    ultimately show thesis using that by (auto simp: search_lexical_Inr sample_query)
  qed
  then obtain c where c: "c \<in> set cs" by (cases cs) auto
  have priv: "\<forall>m \<in> set (st_memories store_tea). sc_visibility (me_scope m) = VisibilityPrivate"
  proof -
    have "list_all (\<lambda>m. sc_visibility (me_scope m) = VisibilityPrivate) (st_memories store_tea)" by code_simp
    then show ?thesis by (simp add: list_all_iff)
  qed
  show ?thesis
    using candidates_are_authorized [OF disjI1 [OF cs(1)] c] priv
    by (auto simp: sample_filter_def sample_access_def)
qed

end
