(* ===== verification/VectorProps.thy ===== *)
theory VectorProps
  imports Vectors Samples
begin

text \<open>
  Stored vectors: the little-endian bytes decode to the vector, and any two vectors
  that pass the embedding checks have a finite cosine.
\<close>

section \<open>Finite scores\<close>

lemma validate_embedding_vector_None:
  "validate_embedding_vector vs = None \<longleftrightarrow> vs \<noteq> [] \<and> (\<forall>v \<in> set vs. f32_finite v) \<and> \<not> f64_eq (squared_norm vs) (Fin 0)"
  by (simp add: validate_embedding_vector_def)

lemma valid_norm:
  assumes "validate_embedding_vector vs = None" and "int (length vs) \<le> 16384"
  shows "\<exists>s. squared_norm vs = Fin s \<and> pow2 (- 298) \<le> s \<and> s \<le> pow2 270"
proof -
  obtain s where s: "squared_norm vs = Fin s" "s \<le> pow2 270"
      "if list_all (\<lambda>v. f32_value v = Fin 0) vs then s = 0 else pow2 (- 298) \<le> s"
    using squared_norm_bounds [of vs] assms by (auto simp: validate_embedding_vector_None)
  moreover have "s \<noteq> 0" using assms(1) s(1) by (simp add: validate_embedding_vector_None)
  ultimately show ?thesis by (auto split: if_splits)
qed

lemma ilog2_between:
  assumes "pow2 a \<le> q" and "q \<le> pow2 b"
  shows "a \<le> ilog2 q" "ilog2 q \<le> b"
proof -
  have q: "0 < q" using assms(1) pow2_pos(1) [of a] by linarith
  have "2 powi a < (2 :: rat) powi (ilog2 q + 1)"
    using assms(1) ilog2_bounds(2) [OF q] unfolding pow2_def by linarith
  then show "a \<le> ilog2 q" using power_int_less_cancel by fastforce
  have "(2 :: rat) powi ilog2 q < 2 powi (b + 1)"
    using assms(2) ilog2_bounds(1) [OF q] power_int_strict_increasing [of b "b + 1" "2 :: rat"] unfolding pow2_def by linarith
  then show "ilog2 q \<le> b" using power_int_less_cancel by fastforce
qed

lemma norm_root:
  assumes "pow2 (- 298) \<le> s" and "s \<le> pow2 270"
  shows "\<exists>r. f64_sqrt (Fin s) = Fin r \<and> pow2 (- 149) \<le> r \<and> r \<le> pow2 136"
proof -
  have s: "0 < s" using assms(1) pow2_pos(1) [of "- 298"] by linarith
  note e = ilog2_between [OF assms]
  obtain r where "f64_sqrt (Fin s) = Fin r" "pow2 (ilog2 s div 2) \<le> r" "r \<le> pow2 (ilog2 s div 2 + 1)"
    using sqrt_bounds [OF s] e by fastforce
  moreover have "pow2 (- 149) \<le> pow2 (ilog2 s div 2)" "pow2 (ilog2 s div 2 + 1) \<le> pow2 136"
    using e by simp_all
  ultimately show ?thesis by (meson order_trans)
qed

lemma zip_finite:
  "(a, b) \<in> set (zip ls rs) \<Longrightarrow> \<forall>v \<in> set ls. f32_finite v \<Longrightarrow> \<forall>v \<in> set rs. f32_finite v \<Longrightarrow>
     f32_finite a \<and> f32_finite b"
  by (meson set_zip_leftD set_zip_rightD)

lemma dot_bounds:
  assumes "list_all f32_finite ls" "list_all f32_finite rs" "int (length ls) \<le> 16384"
  shows "\<exists>d. dot_product ls rs = Fin d \<and> \<bar>d\<bar> \<le> pow2 270"
proof -
  have "\<exists>d. foldl (\<lambda>s x. f64_add s ((\<lambda>(l, r). f64_mul (f32_value l) (f32_value r)) x)) (Fin 0) (zip ls rs) = Fin d \<and>
      \<bar>d\<bar> \<le> of_int (int (length (zip ls rs))) * pow2 256"
  proof (intro bounded_sum)
    fix x assume "x \<in> set (zip ls rs)"
    then have "f32_finite (fst x) \<and> f32_finite (snd x)"
      using zip_finite [of "fst x" "snd x" ls rs] assms(1,2) by (simp add: list_all_iff)
    then show "\<exists>p. (case x of (l, r) \<Rightarrow> f64_mul (f32_value l) (f32_value r)) = Fin p \<and> \<bar>p\<bar> \<le> pow2 256"
      using f32_product by (cases x) simp
  qed (use assms(3) in simp)
  then obtain d where d: "dot_product ls rs = Fin d" "\<bar>d\<bar> \<le> of_int (int (length (zip ls rs))) * pow2 256"
    by (auto simp: dot_product_def case_prod_unfold)
  have "(of_int (int (length (zip ls rs))) :: rat) \<le> of_int 16384" using assms(3) by (simp only: of_int_le_iff) simp
  also have "of_int 16384 = pow2 14" by (simp add: pow2_def)
  finally have "(of_int (int (length (zip ls rs))) :: rat) * pow2 256 \<le> pow2 14 * pow2 256" by (intro mult_right_mono) auto
  then have "(of_int (int (length (zip ls rs))) :: rat) * pow2 256 \<le> pow2 270" by simp
  with d show ?thesis by (meson order_trans)
qed

lemma quotient_finite:
  assumes "\<bar>d\<bar> \<le> pow2 270" and "pow2 (- 298) \<le> p"
  shows "f64_finite (f64_div (Fin d) (Fin p))"
proof -
  have p: "0 < p" using assms(2) pow2_pos(1) [of "- 298"] by linarith
  have "\<bar>d / p\<bar> = \<bar>d\<bar> / p" using p by simp
  also have "\<dots> \<le> pow2 270 / pow2 (- 298)" using assms by (intro frac_le) auto
  also have "\<dots> = pow2 568" by (simp add: pow2_def power_int_diff flip: power_int_diff)
  also have "\<dots> \<le> 2 powi 1023" unfolding pow2_def by (rule power_int_increasing) auto
  finally show ?thesis using p f64_round_finite by simp
qed

lemma cosine_finite:
  assumes "validate_embedding_vector ls = None" and "validate_embedding_vector rs = None"
    and "length ls = length rs" and "int (length ls) \<le> 16384"
  shows "\<exists>c. cosine ls rs = Inr (Fin c)"
proof -
  obtain s where s: "squared_norm ls = Fin s" "pow2 (- 298) \<le> s" "s \<le> pow2 270"
    using valid_norm [OF assms(1,4)] by blast
  obtain t where t: "squared_norm rs = Fin t" "pow2 (- 298) \<le> t" "t \<le> pow2 270"
    using valid_norm [OF assms(2)] assms(3,4) by auto
  obtain a where a: "f64_sqrt (Fin s) = Fin a" "pow2 (- 149) \<le> a" "a \<le> pow2 136" using norm_root [OF s(2,3)] by blast
  obtain b where b: "f64_sqrt (Fin t) = Fin b" "pow2 (- 149) \<le> b" "b \<le> pow2 136" using norm_root [OF t(2,3)] by blast
  have pos: "0 \<le> a" "0 \<le> b" using a(2) b(2) pow2_pos(2) [of "- 149"] by linarith+
  have "pow2 (- 149) * pow2 (- 149) \<le> a * b" by (rule mult_mono) (use a b pos in simp_all)
  moreover have "a * b \<le> pow2 136 * pow2 136" by (rule mult_mono) (use a b pos in simp_all)
  ultimately obtain p where p: "f64_round (a * b) = Fin p" "pow2 (- 298) \<le> p"
    using round_between [of "- 298" "a * b" 272] by auto
  have finite: "\<forall>v \<in> set ls. f32_finite v" "\<forall>v \<in> set rs. f32_finite v"
    using assms(1,2) by (simp_all add: validate_embedding_vector_None)
  then obtain d where d: "dot_product ls rs = Fin d" "\<bar>d\<bar> \<le> pow2 270"
    using dot_bounds [of ls rs] assms(4) by (auto simp: list_all_iff)
  have "check_all (\<lambda>(l, r). err_if (\<not> f32_finite l \<or> \<not> f32_finite r) ''cosine vector contains a non-finite value'')
      (zip ls rs) = None"
    using zip_finite [OF _ finite] by fastforce
  moreover have "ls \<noteq> []" "\<not> f64_eq (squared_norm ls) (Fin 0)" "\<not> f64_eq (squared_norm rs) (Fin 0)"
    using assms(1,2) by (simp_all add: validate_embedding_vector_None)
  ultimately have "cosine ls rs = Inr (f64_div (dot_product ls rs) (f64_mul (f64_sqrt (squared_norm ls)) (f64_sqrt (squared_norm rs))))"
    using assms(3) by (auto simp: cosine_def guard_check_pass)
  moreover have "f64_finite (f64_div (Fin d) (Fin p))" by (rule quotient_finite [OF d(2) p(2)])
  ultimately show ?thesis using s(1) t(1) a(1) b(1) p(1) d(1) by (simp add: f64_finite_iff)
qed

section \<open>Round trip through the database\<close>

lemma decode_encode:
  assumes "vs \<noteq> []" and "int (length vs) \<le> 16384" and "\<forall>v \<in> set vs. f32_finite v"
  shows "decode_vector (encode_vector vs) (int (length vs)) = Inr vs"
proof -
  have "map (\<lambda>k. uint32 (drop (4 * k) (encode_vector vs))) [0..<length vs] = vs"
  proof (rule nth_equalityI)
    fix k assume "k < length (map (\<lambda>k. uint32 (drop (4 * k) (encode_vector vs))) [0..<length vs])"
    then have k: "k < length vs" by simp
    obtain bs where "drop (4 * k) (encode_vector vs) = put_uint32 (vs ! k) @ bs"
      using drop_encode_vector [OF k] by blast
    with k show "map (\<lambda>k. uint32 (drop (4 * k) (encode_vector vs))) [0..<length vs] ! k = vs ! k"
      by (simp add: uint32_put)
  qed simp
  moreover have "1 \<le> int (length vs)" using assms(1) by (cases vs) auto
  ultimately show ?thesis using assms(2,3) by (auto simp: decode_vector_def Let_def guard_check_pass)
qed

lemma put_embedding_Inr:
  assumes "put_embedding L version provider model text vs at' st = (st', Inr u)"
  shows "validate_embedding_vector vs = None" "int (length vs) \<le> 16384"
    "\<exists>r. find_row fx_version version (st_fts st) = Some r \<and> fx_text r = text"
    "st' = st\<lparr>st_embeddings := upsert_embedding
       \<lparr>eb_version = version, eb_provider = provider, eb_model = model, eb_dimensions = int (length vs),
        eb_blob = encode_vector vs, eb_content_sha256 = hex_encode (lb_sha256 L text), eb_created_at = at'\<rparr>
       (st_embeddings st)\<rparr>"
  using assms
  by (auto simp: put_embedding_def guard_check_Inr validate_embedding_vector_None split: option.splits if_splits)

lemma upsert_embedding_mem: "e \<in> set (upsert_embedding e rows)"
  by (auto simp: upsert_embedding_def Let_def set_update_rows image_iff)

text \<open>
  C33. A stored embedding is read back exactly and always scores: the row written by a
  successful put decodes to the vector, its digest is that of the indexed text, and
  against every query vector of its dimension that passes the checks the cosine is a
  finite number.
\<close>

theorem stored_embedding_scores:
  assumes "put_embedding L version provider model text vs at' st = (st', Inr u)"
  shows "\<exists>e \<in> set (st_embeddings st'). eb_version e = version \<and> eb_provider e = provider \<and> eb_model e = model \<and>
    eb_content_sha256 e = hex_encode (lb_sha256 L text) \<and> decode_vector (eb_blob e) (eb_dimensions e) = Inr vs \<and>
    (\<forall>q. validate_embedding_vector q = None \<longrightarrow> length q = length vs \<longrightarrow> (\<exists>c. cosine q vs = Inr (Fin c)))"
proof -
  note put = put_embedding_Inr [OF assms]
  let ?e = "\<lparr>eb_version = version, eb_provider = provider, eb_model = model, eb_dimensions = int (length vs),
    eb_blob = encode_vector vs, eb_content_sha256 = hex_encode (lb_sha256 L text), eb_created_at = at'\<rparr>"
  have "?e \<in> set (st_embeddings st')" by (simp add: put(4) upsert_embedding_mem)
  moreover have "decode_vector (eb_blob ?e) (eb_dimensions ?e) = Inr vs"
    using decode_encode [of vs] put(1,2) by (simp add: validate_embedding_vector_None)
  moreover have "\<exists>c. cosine q vs = Inr (Fin c)" if "validate_embedding_vector q = None" "length q = length vs" for q
    using cosine_finite [OF that(1) put(1) that(2)] put(2) that(2) by simp
  ultimately show ?thesis by (intro bexI [of _ ?e]) auto
qed

definition sample_vector :: "f32 list" where
  "sample_vector = [0x3F800000, 0x40000000, 0xBF000000]"

definition store_embedded :: store where
  "store_embedded = fst (put_embedding sample_lib (sample_id ''mv'' ''p1'') ''local'' ''m'' (''likes'' @ [CHR 0x0A] @ ''tea'')
     sample_vector (sample_time 30) store_tea)"

lemma sample_vector_values: "map f32_value sample_vector = [Fin 1, Fin 2, Fin (- 1 / 2)]"
proof -
  have e: "f32_exponent 0x3F800000 = 127" "f32_exponent 0x40000000 = 128" "f32_exponent 0xBF000000 = 126"
    by (simp_all add: f32_exponent_def)
  have f: "f32_fraction 0x3F800000 = 0" "f32_fraction 0x40000000 = 0" "f32_fraction 0xBF000000 = 0"
    by (simp_all add: f32_fraction_def)
  have n: "\<not> f32_negative 0x3F800000" "\<not> f32_negative 0x40000000" "f32_negative 0xBF000000"
    by (simp_all add: f32_negative_def)
  have "f32_magnitude 0x3F800000 = 1" "f32_magnitude 0x40000000 = 2" "f32_magnitude 0xBF000000 = 1 / 2"
    by (simp_all add: f32_magnitude_def e f)
  with e n show ?thesis by (simp add: sample_vector_def f32_value_def)
qed

lemma sample_vector_norm: "squared_norm sample_vector = Fin (21 / 4)"
proof -
  have "squared_norm sample_vector = foldl (\<lambda>s v. f64_add s (f64_mul v v)) (Fin 0) (map f32_value sample_vector)"
    by (simp add: squared_norm_def foldl_map)
  also have "\<dots> = Fin (21 / 4)" unfolding sample_vector_values by code_simp
  finally show ?thesis .
qed

lemma sample_vector_valid: "validate_embedding_vector sample_vector = None"
proof -
  have "\<forall>x \<in> set (map f32_value sample_vector). f64_finite x" unfolding sample_vector_values by simp
  then have "\<forall>v \<in> set sample_vector. f32_finite v" by (simp add: f32_finite_def)
  then show ?thesis
    by (simp add: validate_embedding_vector_None sample_vector_norm) (simp add: sample_vector_def)
qed

lemma store_embedded_run:
  "put_embedding sample_lib (sample_id ''mv'' ''p1'') ''local'' ''m'' (''likes'' @ [CHR 0x0A] @ ''tea'')
     sample_vector (sample_time 30) store_tea = (store_embedded, Inr ())"
proof -
  have "find_row fx_version (sample_id ''mv'' ''p1'') (st_fts store_tea) \<noteq> None"
    "list_all (\<lambda>r. fx_text r = ''likes'' @ [CHR 0x0A] @ ''tea'') (st_fts store_tea)" by code_simp+
  then obtain r where "find_row fx_version (sample_id ''mv'' ''p1'') (st_fts store_tea) = Some r"
      "fx_text r = ''likes'' @ [CHR 0x0A] @ ''tea''"
    by (auto simp: list_all_iff dest: find_row_SomeD)
  moreover have "sample_id ''mv'' ''p1'' \<in> mv_id ` set (st_versions store_tea)" by code_simp
  moreover have "length (hex_encode (lb_sha256 sample_lib (''likes'' @ [CHR 0x0A] @ ''tea''))) = 64" by code_simp
  moreover have "sample_id ''mv'' ''p1'' \<noteq> ''''" "sample_time 30 \<noteq> 0" by (simp_all add: sample_id_def sample_time_def)
  ultimately have "snd (put_embedding sample_lib (sample_id ''mv'' ''p1'') ''local'' ''m'' (''likes'' @ [CHR 0x0A] @ ''tea'')
     sample_vector (sample_time 30) store_tea) = Inr ()"
    using sample_vector_valid
    by (auto simp: put_embedding_def validate_embedding_vector_None guard_check_pass is_zero_time_def transaction_def)
      (simp_all add: sample_vector_def)
  then show ?thesis unfolding store_embedded_def by (metis prod.collapse)
qed

theorem stored_embedding_scores_witness:
  "list_ex (\<lambda>e. eb_version e = sample_id ''mv'' ''p1'' \<and> decode_vector (eb_blob e) (eb_dimensions e) = Inr sample_vector)
     (st_embeddings store_embedded) \<and> (\<exists>c. cosine sample_vector sample_vector = Inr (Fin c))"
proof -
  have "validate_embedding_vector sample_vector = None" by (rule put_embedding_Inr(1) [OF store_embedded_run])
  then show ?thesis
    using stored_embedding_scores [OF store_embedded_run] by (auto simp: list_ex_iff)
qed

end
