(* ===== verification/RecallTrace.thy ===== *)
theory RecallTrace
  imports RecallProps CandidateProps VectorProps StrategyProps
begin

text \<open>
  Why a recall trace always validates: the scores are finite and the trust lies in the
  unit interval for every candidate a sound repository returns.
\<close>

section \<open>Scores\<close>

definition unit_score :: "f64 \<Rightarrow> bool" where
  "unit_score x \<longleftrightarrow> (\<exists>r. x = Fin r \<and> 0 \<le> r \<and> r \<le> 1)"

lemma unit_round: "0 \<le> x \<Longrightarrow> x \<le> 1 \<Longrightarrow> unit_score (f64_round x)"
  using f64_round_unit by (auto simp: unit_score_def)

lemma unit_mul:
  assumes "unit_score x" and "unit_score y"
  shows "unit_score (f64_mul x y)"
proof -
  from assms obtain a b where ab: "x = Fin a" "y = Fin b" "0 \<le> a" "a \<le> 1" "0 \<le> b" "b \<le> 1"
    by (auto simp: unit_score_def)
  then have "a * b \<le> 1" by (intro mult_le_one) auto
  with ab unit_round show ?thesis by simp
qed

text \<open>What a sound repository returns: valid identifiers and a payload that validates and was JSON.\<close>

definition candidate_sound :: "stored_candidate \<Rightarrow> bool" where
  "candidate_sound c \<longleftrightarrow> id_pattern (sn_memory_id c) \<and> id_pattern (sn_version_id c) \<and>
     (sn_conflict_group c = '''' \<or> id_pattern (sn_conflict_group c)) \<and>
     payload_validate (sn_function c) (sn_payload c) = None \<and> payload_encodable (sn_payload c)"

lemma unit_trust:
  assumes "candidate_sound c"
  shows "unit_score (candidate_trust c)"
proof -
  have units: "unit_score (f64_round (9 / 10))" "unit_score (f64_round (7 / 10))" "unit_score (f64_round (1 / 2))"
    "unit_score (f64_round (1 / 5))" "unit_score (f64_round (3 / 10))" "unit_score (f64_round (3 / 5))" "unit_score (Fin 0)"
    by (simp_all add: unit_round) (simp add: unit_score_def)
  have epistemic: "unit_score (epistemic_trust e)" for e using units by (cases e) simp_all
  from assms have "payload_validate (sn_function c) (sn_payload c) = None" by (simp add: candidate_sound_def)
  then show ?thesis
  proof (cases rule: payload_validate_cases)
    case (factual m)
    show ?thesis
    proof (cases "fm_confidence m")
      case None
      then show ?thesis using factual epistemic by (simp add: candidate_trust_def)
    next
      case (Some x)
      have "f64_finite x" using assms factual(2) Some by (simp add: candidate_sound_def payload_encodable_def)
      moreover have "\<not> f64_less x (Fin 0)" "\<not> f64_less (Fin 1) x"
        using factual(3) Some by (simp_all add: factual_validate_def)
      ultimately have "unit_score x" by (auto simp: f64_finite_iff unit_score_def)
      then show ?thesis using factual Some epistemic unit_mul by (simp add: candidate_trust_def)
    qed
  qed (use units in \<open>simp_all add: candidate_trust_def\<close>)
qed

lemma unit_reciprocal:
  assumes "1 \<le> k" "k < 2 ^ 63" and "0 \<le> rank" "rank < 2 ^ 63"
  shows "unit_score (reciprocal_rank k rank)"
proof -
  have n: "1 \<le> (of_int (k + rank) :: rat)" using assms by (metis add_increasing2 of_int_1 of_int_le_iff)
  have "(2 :: int) ^ 64 = 2 * 2 ^ 63" by simp
  then have "k + rank \<le> 2 ^ 64" using assms(2,4) by linarith
  then have "(of_int (k + rank) :: rat) \<le> of_int (2 ^ 64)" by (simp only: of_int_le_iff)
  then have "(of_int (k + rank) :: rat) \<le> 2 powi 64" by simp
  then obtain r where r: "f64_of_int (k + rank) = Fin r" "1 \<le> r"
    using f64_round_between [of 0 "of_int (k + rank)" 64] n unfolding f64_of_int_def by auto
  then have "f64_div (Fin 1) (f64_of_int (k + rank)) = f64_round (1 / r)" by simp
  moreover have "0 \<le> 1 / r" "1 / r \<le> 1" using r(2) by auto
  ultimately show ?thesis unfolding reciprocal_rank_def using unit_round by simp
qed

lemma small_sum:
  assumes "f64_finite x" "f64_finite y" "\<And>a. x = Fin a \<Longrightarrow> \<bar>a\<bar> \<le> 8" "\<And>b. y = Fin b \<Longrightarrow> \<bar>b\<bar> \<le> 8"
  shows "\<exists>r. f64_add x y = Fin r \<and> \<bar>r\<bar> \<le> 16"
proof -
  obtain a b where ab: "x = Fin a" "y = Fin b" using assms(1,2) by (auto simp: f64_finite_iff)
  have "\<bar>a + b\<bar> \<le> of_int 1 * 2 powi 4" using assms(3) [OF ab(1)] assms(4) [OF ab(2)] by simp
  from f64_round_within [OF this] show ?thesis by (auto simp: ab)
qed

lemma unit_sum:
  assumes "unit_score x" "unit_score y"
  shows "\<exists>r. f64_add x y = Fin r \<and> 0 \<le> r \<and> r \<le> 2"
proof -
  obtain a b where ab: "x = Fin a" "y = Fin b" "0 \<le> a" "a \<le> 1" "0 \<le> b" "b \<le> 1"
    using assms by (auto simp: unit_score_def)
  then have "\<bar>a + b\<bar> \<le> of_int 1 * 2 powi 1" by simp
  from f64_round_within [OF this] obtain r where r: "f64_round (a + b) = Fin r" "\<bar>r\<bar> \<le> 2" by auto
  moreover have "0 \<le> r" using r(1) ab f64_round_mono [of 0 0 "a + b" r] by simp
  ultimately show ?thesis using ab by auto
qed

lemma reciprocal_sum_finite:
  assumes "1 \<le> k" "k < 2 ^ 63" and "0 \<le> l" "l < 2 ^ 63" "0 \<le> s" "s < 2 ^ 63"
  shows "\<exists>r. reciprocal_sum k l s = Fin r \<and> 0 \<le> r \<and> r \<le> 8"
proof -
  have "unit_score (Fin 0)" by (simp add: unit_score_def)
  note recips = unit_reciprocal [OF assms(1,2,3,4)] unit_reciprocal [OF assms(1,2,5,6)]
  obtain a where a: "(if l > 0 then f64_add (Fin 0) (reciprocal_rank k l) else Fin 0) = Fin a" "0 \<le> a" "a \<le> 2"
    using unit_sum [OF \<open>unit_score (Fin 0)\<close> recips(1)] by (cases "l > 0") auto
  show ?thesis
  proof (cases "s > 0")
    case False
    then show ?thesis using a by (auto simp: reciprocal_sum_def)
  next
    case True
    obtain b where b: "reciprocal_rank k s = Fin b" "0 \<le> b" "b \<le> 1" using recips(2) by (auto simp: unit_score_def)
    have "\<bar>a + b\<bar> \<le> of_int 1 * 2 powi 2" using a b by simp
    from f64_round_within [OF this] obtain r where r: "f64_round (a + b) = Fin r" "\<bar>r\<bar> \<le> 4" by auto
    have "0 \<le> r" using r(1) a b f64_round_mono [of 0 0 "a + b" r] by simp
    then show ?thesis using True a b r by (simp add: reciprocal_sum_def Let_def)
  qed
qed

lemma with_trust_finite:
  assumes "x = Fin a" "0 \<le> a" "a \<le> 8" and "unit_score t"
  shows "\<exists>r. with_trust x t = Fin r"
proof -
  have "unit_score (f64_mul t (f64_round (1 / 1000)))" using assms(4) by (intro unit_mul unit_round) simp_all
  then show ?thesis
    using small_sum [of x "f64_mul t (f64_round (1 / 1000))"] assms(1-3) by (auto simp: with_trust_def unit_score_def)
qed

lemma rank_of_bounds: "0 \<le> rank_of cs v \<and> rank_of cs v \<le> int (length cs)"
proof -
  have "0 \<le> fold (\<lambda>(i, c) n. if sn_version_id c = v then int i + 1 else n) xs n \<and>
      fold (\<lambda>(i, c) n. if sn_version_id c = v then int i + 1 else n) xs n \<le> m"
    if "\<forall>(i, c) \<in> set xs. int i + 1 \<le> m" "0 \<le> n" "n \<le> m" for xs :: "(nat \<times> stored_candidate) list" and n m
    using that by (induction xs arbitrary: n) auto
  note bounds = this
  have "\<forall>(i, c) \<in> set (enumerate 0 cs). int i + 1 \<le> int (length cs)" by (auto simp: in_set_enumerate_eq)
  from bounds [OF this, of 0] show ?thesis by (simp add: rank_of_def)
qed

text \<open>What each ranked entry carries.\<close>

definition entry_ok :: "stored_candidate set \<Rightarrow> ranked \<Rightarrow> bool" where
  "entry_ok S x \<longleftrightarrow> rk_stored x \<in> S \<and> (\<forall>y. rk_lexical x = Some y \<longrightarrow> f64_finite y) \<and>
     (\<forall>y. rk_semantic x = Some y \<longrightarrow> f64_finite y) \<and> rk_rrf x = None"

lemma by_version_entries:
  assumes "\<forall>c \<in> set lexical. \<forall>y. sn_lexical c = Some y \<longrightarrow> f64_finite y"
    and "\<forall>c \<in> set semantic. \<forall>y. sn_semantic c = Some y \<longrightarrow> f64_finite y"
    and "x \<in> set (by_version lexical semantic)"
  shows "entry_ok (set lexical \<union> set semantic) x"
proof -
  let ?S = "set lexical \<union> set semantic"
  have keeps: "\<forall>x \<in> set (fold put cs rows). entry_ok ?S x"
    if "\<And>c rows. c \<in> set cs \<Longrightarrow> \<forall>x \<in> set rows. entry_ok ?S x \<Longrightarrow> \<forall>x \<in> set (put c rows). entry_ok ?S x"
      and "\<forall>x \<in> set rows. entry_ok ?S x" for put cs rows
    using that
  proof (induction cs arbitrary: rows)
    case (Cons c cs)
    have "\<forall>x \<in> set (put c rows). entry_ok ?S x" by (rule Cons.prems(1) [OF list.set_intros(1) Cons.prems(2)])
    then have "\<forall>x \<in> set (fold put cs (put c rows)). entry_ok ?S x"
      by (intro Cons.IH) (auto intro: Cons.prems(1) [rule_format])
    then show ?case by simp
  qed simp
  have lex: "\<forall>x \<in> set (put_lexical c rows). entry_ok ?S x" if "c \<in> set lexical" "\<forall>x \<in> set rows. entry_ok ?S x" for c rows
    using that assms(1) by (auto simp: put_lexical_def Let_def set_update_rows entry_ok_def fresh_ranked_def)
  have sem: "\<forall>x \<in> set (put_semantic c rows). entry_ok ?S x" if "c \<in> set semantic" "\<forall>x \<in> set rows. entry_ok ?S x" for c rows
    using that assms(2)
    by (auto simp: put_semantic_def Let_def set_update_rows entry_ok_def fresh_ranked_def split: option.splits if_splits)
  have "\<forall>x \<in> set (by_version lexical semantic). entry_ok ?S x"
    unfolding by_version_def using lex sem by (intro keeps [of semantic put_semantic] keeps [of lexical put_lexical]) auto
  with assms(3) show ?thesis by blast
qed

lemma scored_explained:
  assumes "entry_ok S x" and "candidate_sound (rk_stored x)" and mode: "mode = RetrievalLexical \<or> mode = RetrievalHybrid"
    and k: "1 \<le> k" "k < 2 ^ 63" and len: "int (length lexical) < 2 ^ 63" "int (length semantic) < 2 ^ 63"
  shows "score_validate (explain (scored mode lexical semantic k x)) = None \<and>
    finite_scores (scored mode lexical semantic k x)"
proof -
  let ?t = "candidate_trust (rk_stored x)" and ?l = "rank_of lexical (rk_version x)" and ?s = "rank_of semantic (rk_version x)"
  have t: "unit_score ?t" by (rule unit_trust [OF assms(2)])
  have l: "0 \<le> ?l" "?l < 2 ^ 63" and s: "0 \<le> ?s" "?s < 2 ^ 63"
    using rank_of_bounds [of lexical "rk_version x"] rank_of_bounds [of semantic "rk_version x"] len by linarith+
  obtain a where a: "reciprocal_rank k ?l = Fin a" "0 \<le> a" "a \<le> 1"
    using unit_reciprocal [OF k l] by (auto simp: unit_score_def)
  obtain b where b: "reciprocal_sum k ?l ?s = Fin b" "0 \<le> b" "b \<le> 8" using reciprocal_sum_finite [OF k l s] by blast
  obtain p where p: "with_trust (reciprocal_rank k ?l) ?t = Fin p"
    using with_trust_finite [OF a(1,2) _ t] a(3) by auto
  obtain q where q: "with_trust (reciprocal_sum k ?l ?s) ?t = Fin q" using with_trust_finite [OF b t] by blast
  obtain u where u: "?t = Fin u" "0 \<le> u" "u \<le> 1" using t by (auto simp: unit_score_def)
  show ?thesis
  proof (cases "mode = RetrievalLexical")
    case True
    then have "scored mode lexical semantic k x = x\<lparr>rk_trust := Fin u, rk_total := Fin p\<rparr>"
      using p u by (simp add: scored_def Let_def rk_version_def)
    then show ?thesis using assms(1) u
      by (auto simp: score_validate_def explain_def entry_ok_def finite_scores_def split: option.splits)
  next
    case False
    with mode have "scored mode lexical semantic k x = x\<lparr>rk_trust := Fin u, rk_rrf := Some (Fin b), rk_total := Fin q\<rparr>"
      using b(1) q u by (simp add: scored_def Let_def rk_version_def)
    then show ?thesis using assms(1) u
      by (auto simp: score_validate_def explain_def entry_ok_def finite_scores_def split: option.splits)
  qed
qed

section \<open>Text lengths\<close>

lemma rune_bytes: "x \<in> set (runes s) \<Longrightarrow> length (snd x) \<le> 4"
proof (induction s rule: runes.induct)
  case (2 c cs)
  obtain r n where rn: "decode_rune (map byte_of (take 4 (c # cs))) = (r, n)" by force
  have "n \<le> 4" using rn by (auto simp: decode_rune.simps split: if_splits list.splits)
  moreover have "runes (c # cs) = (r, c # take (n - 1) cs) # runes (drop (n - 1) cs)"
    using rn by (simp add: runes.simps)
  ultimately show ?case using 2 rn by auto
qed simp

lemma length_runes_bytes: "length s \<le> 4 * rune_count s"
proof -
  have "length (concat (map snd xs)) \<le> 4 * length xs" if "\<forall>x \<in> set xs. length (snd x) \<le> 4" for xs :: "(int \<times> string) list"
    using that by (induction xs) auto
  from this [of "runes s"] rune_bytes show ?thesis by (simp add: rune_count_def)
qed

lemma length_trim_space: "length (trim_space s) \<le> length s"
proof -
  have cut: "length (concat (map snd (dropWhile P xs))) \<le> length (concat (map snd xs))" for P and xs :: "(int \<times> string) list"
    by (induction xs) auto
  have rev: "length (concat (map snd (rev xs))) = length (concat (map snd xs))" for xs :: "(int \<times> string) list"
    by (induction xs) auto
  let ?P = "is_space \<circ> fst"
  have "length (trim_space s) = length (concat (map snd (dropWhile ?P (rev (dropWhile ?P (runes s))))))"
    by (simp only: trim_space_def rev)
  also have "\<dots> \<le> length (concat (map snd (rev (dropWhile ?P (runes s)))))" by (rule cut)
  also have "\<dots> \<le> length (concat (map snd (runes s)))" unfolding rev by (rule cut)
  finally show ?thesis by simp
qed

section \<open>Decisions in the trace\<close>

lemma select_from_candidates:
  assumes "select_from uc budget seen used xs = (items, trace, tokens)"
    and "\<forall>k. seen k = '''' \<or> id_pattern (seen k)"
    and "\<forall>x \<in> set xs. candidate_sound (rk_stored x) \<and> score_validate (explain x) = None"
  shows "\<forall>c \<in> set trace. candidate_validate c = None"
  using assms
proof (induction xs arbitrary: seen used items trace tokens)
  case (Cons x xs)
  let ?key = "dedupe_key uc (rk_stored x)" and ?est = "estimate_tokens (sn_text (rk_stored x))"
  let ?seen = "if seen ?key = '''' then seen(?key := rk_version x) else seen"
  let ?sel = "seen ?key = '''' \<and> used + ?est \<le> budget"
  obtain items' trace' u where rest: "select_from uc budget ?seen u xs = (items', trace', tokens)"
    and trace: "trace = trace_candidate ?sel (seen ?key) x # trace'"
    using Cons.prems(1) by (auto simp: Let_def split: if_splits prod.splits)
  have sound: "candidate_sound (rk_stored x)" "score_validate (explain x) = None" using Cons.prems(3) by auto
  have "candidate_validate (trace_candidate ?sel (seen ?key) x) = None"
    using sound Cons.prems(2) estimate_pos [of "sn_text (rk_stored x)"]
    by (auto simp: candidate_validate_def trace_candidate_def Let_def candidate_sound_def)
  moreover have "\<forall>k. ?seen k = '''' \<or> id_pattern (?seen k)"
    using sound(1) Cons.prems(2) by (auto simp: candidate_sound_def rk_version_def)
  ultimately show ?case using Cons.IH [OF rest] Cons.prems(3) by (simp add: trace)
qed simp

section \<open>The strategy of a recall\<close>

text \<open>What the configuration must be for its parameters to be encodable and its constant to fit an int.\<close>

definition configured :: "retriever \<Rightarrow> bool" where
  "configured r \<longleftrightarrow> 1 \<le> rv_rrf_constant r \<and> rv_rrf_constant r < 2 ^ 63 \<and> 0 \<le> rv_dimensions r \<and>
     valid_utf8 (rv_model r) \<and> valid_utf8 (rv_provider r)"

lemma strategy_package_valid:
  assumes "configured r" and "mode = RetrievalLexical \<or> mode = RetrievalHybrid"
  shows "package_validate (strategy_package r mode) = None"
proof -
  have keys: "list_all valid_utf8 [''embedding_dimensions'', ''embedding_model'', ''embedding_provider'', ''exact_scan_limit'',
      ''mode'', ''rrf_constant'', ''lexical'', ''hybrid'']" by code_simp
  have "json_ok 0 (retrieval_parameters r mode)"
    using assms keys by (auto simp: retrieval_parameters_def configured_def json_ok_JInt)
  then have "json_valid (pk_parameters (strategy_package r mode))"
    by (simp add: strategy_package_def json_valid_encode)
  moreover have "\<not> is_blank ''retrieval.lexical''" "\<not> is_blank ''retrieval.hybrid''" "\<not> is_blank ''1.0.0''"
      "\<not> is_blank ''internal/application/retrieval.go''" by code_simp+
  ultimately show ?thesis using assms(2) by (auto simp: package_validate_def strategy_package_def)
qed

lemma strategy_id_text:
  assumes "mode = RetrievalLexical \<or> mode = RetrievalHybrid"
  shows "validate_required_text f (pk_id (strategy_package r mode) @ ''@'' @ pk_version (strategy_package r mode)) 255 = None"
proof -
  have "\<not> is_blank ''retrieval.lexical@1.0.0'' \<and> int (length (trim_space ''retrieval.lexical@1.0.0'')) \<le> 255"
    "\<not> is_blank ''retrieval.hybrid@1.0.0'' \<and> int (length (trim_space ''retrieval.hybrid@1.0.0'')) \<le> 255" by code_simp+
  then show ?thesis using assms by (auto simp: strategy_package_def)
qed

lemma random_trace_id_pattern: "length bytes = 16 \<Longrightarrow> id_pattern (random_trace_id bytes)"
  using id_pattern_digest [of "''trace''" bytes] by (simp add: random_trace_id_def) (simp add: id_pattern_def is_alnum_def is_id_char_def byte_of_def)

section \<open>The trace validates\<close>

text \<open>The identities a caller supplies, which the request validation does not look at.\<close>

definition named_request :: "recall_request \<Rightarrow> bool" where
  "named_request q \<longleftrightarrow> id_pattern (ac_principal_id (rq_access q)) \<and> list_all id_pattern (ac_private_owners (rq_access q)) \<and>
     (rq_trace_id q = '''' \<or> id_pattern (rq_trace_id q))"

lemma recall_trace_valid:
  assumes "validate_recall_request q = None" and "named_request q" and "length bytes = 16"
    and mode: "mode = RetrievalLexical \<or> mode = RetrievalHybrid"
    and hash: "length d = 32" and times: "started \<noteq> 0" "started \<le> completed"
    and sel: "select_candidates uc xs (rq_token_budget q) = (items, candidates, used)"
    and sound: "\<forall>x \<in> set xs. candidate_sound (rk_stored x) \<and> score_validate (explain x) = None"
  shows "trace_validate (recall_trace q (if rq_trace_id q = '''' then random_trace_id bytes else rq_trace_id q)
     (pk_id (strategy_package r mode) @ ''@'' @ pk_version (strategy_package r mode)) (hex_encode d) fallback
     candidates used started completed) = None"
proof -
  note request = assms(1) [unfolded validate_recall_request_def]
  have query: "\<not> is_blank (rq_query q)" "rune_count (rq_query q) \<le> 10000" using request by auto
  have "int (length (trim_space (rq_query q))) \<le> 2 ^ 20"
    using length_trim_space [of "rq_query q"] length_runes_bytes [of "rq_query q"] query(2) by simp
  moreover have "used = selected_tokens candidates" "used \<le> rq_token_budget q"
    using sel select_from_trace [of uc "rq_token_budget q" "\<lambda>_. ''''" 0 xs items candidates used]
      select_from_budget [of uc "rq_token_budget q" "\<lambda>_. ''''" 0 xs items candidates used] request
    by (auto simp: select_candidates_def)
  moreover have candidates: "\<forall>c \<in> set candidates. candidate_validate c = None"
    using select_from_candidates sel sound by (fastforce simp: select_candidates_def)
  moreover have "0 \<le> selected_tokens candidates"
  proof -
    have "\<forall>c \<in> set candidates. 0 \<le> rc_estimated_tokens c" using candidates by (auto simp: candidate_validate_def)
    then show ?thesis by (auto simp: selected_tokens_def intro!: sum_list_nonneg)
  qed
  moreover have "is_zero_time started = False" using times(1) by (simp add: is_zero_time_def)
  ultimately show ?thesis
    using request assms(2,3) random_trace_id_pattern strategy_id_text [OF mode, of _ r] hash times(2) query
    unfolding trace_validate_def recall_trace_def named_request_def
    by (simp add: list_all_iff) blast
qed

end
