(* ===== verification/RecallStore.thy ===== *)
theory RecallStore
  imports RecallTrace Tokens
begin

text \<open>
  Recall over the SQLite adapter: the repository contract holds for it, so everything a
  bundle contains is granted, and its rows are sound, so the traces it leads to validate.
\<close>

section \<open>The adapter as repository\<close>

interpretation sqlite: candidate_source "sqlite_repository L uc fts st" "granted st"
  for L :: lib and uc :: unicode and fts :: fts_engine and st :: store
proof unfold_locales
  show "granted st f c" if "cr_lexical (sqlite_repository L uc fts st) f query n = Inr cs" "c \<in> set cs" for f query n cs c
    using that search_lexical_granted by (simp add: sqlite_repository_def)
  show "granted st f c" if "cr_semantic (sqlite_repository L uc fts st) f provider model n = Inr cs" "c \<in> set cs"
    for f provider model n cs c
    using that list_semantic_granted by (simp add: sqlite_repository_def)
  show "granted st f (c\<lparr>sn_semantic := x\<rparr>)" if "granted st f c" for f c x
    using that by simp
qed

lemma granted_sound:
  assumes "store_ok st" and "granted st f c"
  shows "candidate_sound c"
proof -
  from assms(2) obtain m v where mv: "m \<in> set (st_memories st)" "v \<in> set (st_versions st)" "me_id m = mv_memory_id v"
      "sn_memory_id c = me_id m" "sn_version_id c = mv_id v" "sn_function c = me_function m"
      "sn_conflict_group c = mv_conflict_group v" "sn_payload c = mv_payload v"
    unfolding granted_def by blast
  have chain: "chain_ok st" and keys: "keys_ok st" and mem: "memories_ok st" using assms(1) by (simp_all add: store_ok_def)
  obtain n where n: "n \<in> set (st_memories st)" "me_id n = mv_memory_id v" "payload_validate (me_function n) (mv_payload v) = None"
    by (rule chain_versionD [OF chain mv(2)])
  then have "n = m" using keys_memory_unique [OF keys n(1) mv(1)] mv(3) by simp
  moreover have "memory_validate m = None" "version_named v" using mem mv(1,2) by (simp_all add: memories_ok_def)
  ultimately show ?thesis using n(3) mv by (simp add: candidate_sound_def version_named_def memory_validate_None)
qed

text \<open>FTS5's \<open>bm25\<close> is a finite number.\<close>

definition bm25_finite :: "fts_engine \<Rightarrow> bool" where
  "bm25_finite fts \<longleftrightarrow> (\<forall>match rows r x. fts match rows r = Some x \<longrightarrow> f64_finite x)"

lemma lexical_scores_finite:
  assumes "bm25_finite fts" and "search_lexical_candidates uc fts st f query limit = Inr cs" and "c \<in> set cs"
  shows "\<forall>y. sn_lexical c = Some y \<longrightarrow> f64_finite y"
proof -
  have rows: "\<forall>y. sn_lexical c = Some y \<longrightarrow> f64_finite y" if "c \<in> set (lexical_rows fts st f match)" for match
    using that assms(1) by (auto simp: lexical_rows_def bm25_finite_def split: option.splits)
  from assms(2) obtain match where "cs = sql_limit limit (sort_by lexical_less (lexical_rows fts st f match))"
    unfolding search_lexical_Inr by blast
  then have "c \<in> set (lexical_rows fts st f match)" using assms(3) set_sql_limit by fastforce
  then show ?thesis by (rule rows)
qed

lemma cosine_Inr_finite:
  assumes "cosine q vs = Inr x" and "validate_embedding_vector q = None" and "int (length vs) \<le> 16384"
  shows "f64_finite x"
proof -
  from assms(1) have parts: "q \<noteq> []" "length q = length vs"
    "\<forall>(l, r) \<in> set (zip q vs). f32_finite l \<and> f32_finite r" "\<not> f64_eq (squared_norm vs) (Fin 0)"
    by (fastforce simp: cosine_def guard_check_Inr split: if_splits)+
  have "\<forall>v \<in> set vs. f32_finite v"
  proof
    fix v assume "v \<in> set vs"
    then obtain n where "n < length vs" "v = vs ! n" by (auto simp: in_set_conv_nth)
    then have "(q ! n, v) \<in> set (zip q vs)" using parts(2) by (auto simp: set_zip)
    then show "f32_finite v" using parts(3) by auto
  qed
  then have "validate_embedding_vector vs = None" using parts by (auto simp: validate_embedding_vector_None)
  from cosine_finite [OF assms(2) this parts(2)] assms(1,3) parts(2) show ?thesis by auto
qed

lemma decode_vector_length:
  assumes "decode_vector bs n = Inr vs"
  shows "int (length vs) = n \<and> n \<le> 16384"
  using assms by (auto simp: decode_vector_def guard_check_Inr Let_def split: if_splits)

lemma embed_query_valid:
  assumes "embed_query r query = Inr v"
  shows "validate_embedding_vector v = None"
proof -
  have single: "(case vs of [] \<Rightarrow> Inl e | [v] \<Rightarrow> f v | v # w # ws \<Rightarrow> Inl e) = Inr y \<longleftrightarrow> (\<exists>v. vs = [v] \<and> f v = Inr y)"
    for vs :: "'a list" and e :: go_error and f :: "'a \<Rightarrow> 'b result" and y
    by (auto split: list.splits)
  from assms obtain vectors w where "guard_check (err_if (int (length w) \<noteq> rv_dimensions r) ''query embedding dimension mismatch'')
      (guard_check (wrap_check ''query embedding'' (validate_embedding_vector w)) (Inr w)) = Inr v"
    unfolding embed_query_def by (auto simp: bind_result_Inr single split: option.splits)
  then show ?thesis by (auto simp: guard_check_Inr)
qed

lemma semantic_scores_finite:
  assumes "semantic_candidates r f query n = Inr cs" and "rv_repository r = sqlite_repository L uc fts st" and "c \<in> set cs"
  shows "\<forall>y. sn_semantic c = Some y \<longrightarrow> f64_finite y"
proof -
  from assms(1) obtain v raw scored where v: "embed_query r query = Inr v"
    and raw: "cr_semantic (rv_repository r) f (rv_provider r) (rv_model r) (exact_scan_limit + 1) = Inr raw"
    and scored: "list_all2 (\<lambda>x y. score_candidate r v x = Inr y) raw scored"
    and cs: "cs = take (nat n) (sort_by semantic_less scored)"
    by (auto simp: semantic_candidates_def bind_result_Inr guard_check_Inr wrap_result_Inr map_result_Inr)
  have "c \<in> set scored" using assms(3) set_take_subset unfolding cs by fastforce
  from list_all2_in_right [OF scored this] obtain x where x: "x \<in> set raw" "score_candidate r v x = Inr c" by blast
  then obtain y where y: "cosine v (sn_vector x) = Inr y" "c = x\<lparr>sn_semantic := Some y\<rparr>"
    by (auto simp: score_candidate_def guard_check_Inr bind_result_Inr wrap_result_Inr)
  from raw x(1) obtain e d where "scan_semantic L (e, d) = Inr x"
    by (auto simp: assms(2) sqlite_repository_def list_semantic_candidates_def guard_check_Inr map_result_Inr
        dest!: list_all2_in_right)
  from decode_vector_length [OF scan_semanticD(2) [OF this]] have "int (length (sn_vector x)) \<le> 16384" by simp
  moreover have "validate_embedding_vector v = None"
    by (rule embed_query_valid [OF v])
  ultimately show ?thesis using cosine_Inr_finite [OF y(1)] y(2) by simp
qed

section \<open>Gathering in automatic mode\<close>

lemma auto_gather:
  assumes "rq_mode q = RetrievalAuto"
    and "cr_lexical (rv_repository r) (recall_filter q) (rq_query q) (pool_limit q) = Inr lexical"
  shows "\<exists>g. gather r q = Inr g \<and> (ga_mode g = RetrievalLexical \<or> ga_mode g = RetrievalHybrid) \<and> ga_lexical g = lexical \<and>
    (ga_semantic g = [] \<or> semantic_candidates r (recall_filter q) (rq_query q) (pool_limit q) = Inr (ga_semantic g)) \<and>
    (ga_mode g = RetrievalLexical \<longrightarrow> ga_semantic g = [] \<and> ga_fallback g \<noteq> '''')"
proof -
  have search: "search_lexical r q m = Inr lexical" for m using assms(2) by (simp add: search_lexical_def)
  have again: "search_again r q lexical = Inr lexical" by (simp add: search_again_def search)
  show ?thesis
  proof (cases "rv_embedder r")
    case None
    then show ?thesis using assms(1) search by (auto simp: gather_def resolve_mode_def Let_def)
  next
    case (Some e)
    show ?thesis
    proof (cases "semantic_candidates r (recall_filter q) (rq_query q) (pool_limit q)")
      case (Inl err)
      then show ?thesis using assms(1) search again Some
        by (auto simp: gather_def resolve_mode_def Let_def after_semantic_def search_again_def)
    next
      case (Inr semantic)
      then show ?thesis using assms(1) search again Some
        by (auto simp: gather_def resolve_mode_def Let_def after_semantic_def)
    qed
  qed
qed

section \<open>Searching\<close>

lemma filter_check_request: "validate_recall_request q = None \<Longrightarrow> filter_check (recall_filter q) = None"
  by (auto simp: validate_recall_request_def filter_check_def recall_filter_def)

lemma search_lexical_total:
  assumes "store_ok st" and "filter_check f = None" and "safe_fts_query uc query = Inr match"
  shows "search_lexical_candidates uc fts st f query limit =
    Inr (sql_limit limit (sort_by lexical_less (lexical_rows fts st f match)))"
proof -
  let ?all = "sort_by lexical_less (lexical_rows fts st f match)"
  have "candidate_check c = None" if "c \<in> set (sql_limit limit ?all)" for c
    using that set_sql_limit [of limit ?all] lexical_rows_granted granted_check [OF assms(1)] by fastforce
  then show ?thesis using assms(2,3) by (simp add: search_lexical_Inr)
qed

lemma pool_limit_bounds: "validate_recall_request q = None \<Longrightarrow> 0 \<le> pool_limit q \<and> pool_limit q \<le> 1000"
  by (auto simp: validate_recall_request_def pool_limit_def)

lemma length_semantic_candidates: "semantic_candidates r f query n = Inr cs \<Longrightarrow> length cs \<le> nat n"
  by (auto simp: semantic_candidates_def bind_result_Inr guard_check_Inr)

text \<open>
  C34. Authorization end to end: whatever mode, embedding provider and fallback led to
  it, every item of a bundle recalled over the database is the stored content of a
  version of a memory in the caller's namespace and the requested subject that the
  caller may see; a private memory is one of the caller's own owners.
\<close>

theorem recall_is_authorized:
  assumes "recall L uc r sink started completed bytes q s = (s', Inr b)"
    and "rv_repository r = sqlite_repository L uc fts st" and "i \<in> set (bu_items b)"
  shows "\<exists>m \<in> set (st_memories st). \<exists>v \<in> set (st_versions st).
    ri_memory_id i = me_id m \<and> ri_version_id i = mv_id v \<and> mv_memory_id v = me_id m \<and> ri_payload i = mv_payload v \<and>
    ri_provenance i = mv_provenance v \<and>
    sc_namespace (me_scope m) = ac_namespace (rq_access q) \<and> sc_subject (me_scope m) = sc_subject (rq_scope q) \<and>
    visible_to (rq_access q) (me_scope m) \<and> me_state m = MemoryActive \<and>
    mv_state v \<in> {VersionCurrent, VersionSuperseded} \<and>
    in_range (mv_valid_time v) (rq_valid_at q) \<and> in_range (mv_system_time v) (rq_system_at q) \<and>
    (rq_functions q = [] \<or> me_function m \<in> set (rq_functions q))"
proof -
  obtain c where c: "granted st (recall_filter q) c" "ri_memory_id i = sn_memory_id c" "ri_version_id i = sn_version_id c"
      "ri_payload i = sn_payload c" "ri_provenance i = sn_provenance c"
    using sqlite.recall_items_allowed [OF assms] by blast
  from c(1) obtain m v where mv: "m \<in> set (st_memories st)" "v \<in> set (st_versions st)" "me_id m = mv_memory_id v"
      "admissible st (recall_filter q) m v" "sn_memory_id c = me_id m" "sn_version_id c = mv_id v"
      "sn_payload c = mv_payload v" "sn_provenance c = mv_provenance v"
    unfolding granted_def by blast
  show ?thesis
    by (rule bexI [OF _ mv(1)], rule bexI [OF _ mv(2)])
      (use mv(3-8) c(2-5) in \<open>auto simp: admissible_def recall_filter_def\<close>)
qed

text \<open>
  An automatic request with a searchable query is answered whatever the embedding
  provider does, when its identities are names and its trace id is new.
\<close>

lemma named_recall_answers:
  assumes "store_ok st" and "digest_ok L" and "bm25_finite fts"
    and "rv_repository r = sqlite_repository L uc fts st" and "configured r"
    and "validate_recall_request q = None" and "named_request q" and "rq_mode q = RetrievalAuto"
    and "safe_fts_query uc (rq_query q) = Inr match"
    and "length bytes = 16" and "started \<noteq> 0" and "started \<le> completed"
    and "(if rq_trace_id q = '''' then random_trace_id bytes else rq_trace_id q) \<notin> rt_id ` set (st_traces st)"
  shows "\<exists>b. recall L uc r (Some put_retrieval_trace) started completed bytes q st =
      (st\<lparr>st_traces := st_traces st @ [bu_trace b]\<rparr>, Inr b) \<and>
    (bu_mode b = RetrievalHybrid \<or> bu_mode b = RetrievalLexical \<and> bu_fallback_reason b \<noteq> '''')"
proof -
  let ?lex = "sql_limit (pool_limit q) (sort_by lexical_less (lexical_rows fts st (recall_filter q) match))"
  have search: "search_lexical_candidates uc fts st (recall_filter q) (rq_query q) (pool_limit q) = Inr ?lex"
    by (rule search_lexical_total [OF assms(1) filter_check_request [OF assms(6)] assms(9)])
  then have "cr_lexical (rv_repository r) (recall_filter q) (rq_query q) (pool_limit q) = Inr ?lex"
    by (simp add: assms(4) sqlite_repository_def)
  from auto_gather [OF assms(8) this] obtain g where g: "gather r q = Inr g"
    and mode: "ga_mode g = RetrievalLexical \<or> ga_mode g = RetrievalHybrid" and lex: "ga_lexical g = ?lex"
    and sem: "ga_semantic g = [] \<or> semantic_candidates r (recall_filter q) (rq_query q) (pool_limit q) = Inr (ga_semantic g)"
    and fallback: "ga_mode g = RetrievalLexical \<longrightarrow> ga_semantic g = [] \<and> ga_fallback g \<noteq> ''''" by blast
  let ?ranked = "rank_candidates (ga_mode g) (ga_lexical g) (ga_semantic g) (rv_rrf_constant r)"
  let ?xs = "take (nat (rq_candidate_limit q)) ?ranked"
  note pool = pool_limit_bounds [OF assms(6)]
  have len: "int (length (ga_lexical g)) < 2 ^ 63" "int (length (ga_semantic g)) < 2 ^ 63"
    using pool sem length_semantic_candidates [of r "recall_filter q" "rq_query q" "pool_limit q" "ga_semantic g"]
    by (auto simp: lex sql_limit_def)
  have sound: "candidate_sound (rk_stored x) \<and> score_validate (explain x) = None" if "x \<in> set ?xs" for x
  proof -
    have x: "x \<in> set ?ranked" using that by (rule in_set_takeD)
    then obtain y where y: "y \<in> set (by_version (ga_lexical g) (ga_semantic g))"
        "x = scored (ga_mode g) (ga_lexical g) (ga_semantic g) (rv_rrf_constant r) y"
      by (auto simp: rank_candidates_def)
    have granted: "granted st (recall_filter q) (rk_stored x)"
      using sqlite.gather_allowed [OF g assms(4)] rank_candidates_stored [OF x] .
    then have ok: "candidate_sound (rk_stored x)" by (rule granted_sound [OF assms(1)])
    have "entry_ok (set (ga_lexical g) \<union> set (ga_semantic g)) y"
      using lexical_scores_finite [OF assms(3) search] semantic_scores_finite [OF _ assms(4)] sem
      by (intro by_version_entries [OF _ _ y(1)]) (auto simp: lex)
    then show ?thesis using scored_explained [OF _ _ mode _ _ len] ok assms(5) y(2) by (simp add: configured_def)
  qed
  obtain items candidates used where sel: "select_candidates uc ?xs (rq_token_budget q) = (items, candidates, used)"
    using prod_cases3 by blast
  obtain t where hash: "package_hash L (strategy_package r (ga_mode g)) = Inr (hex_encode (lb_sha256 L t))"
    using package_hash_total [OF strategy_package_valid [OF assms(5) mode]] by blast
  have digest: "length (lb_sha256 L t) = 32" using assms(2) by (simp add: digest_ok_def)
  let ?trace = "recall_trace q (if rq_trace_id q = '''' then random_trace_id bytes else rq_trace_id q)
     (pk_id (strategy_package r (ga_mode g)) @ ''@'' @ pk_version (strategy_package r (ga_mode g)))
     (hex_encode (lb_sha256 L t)) (ga_fallback g) candidates used started completed"
  have trace: "trace_validate ?trace = None"
    using recall_trace_valid [OF assms(6,7,10) mode digest assms(11,12) sel] sound by blast
  let ?b = "\<lparr>bu_query = rq_query q, bu_mode = ga_mode g, bu_fallback_reason = ga_fallback g, bu_items = items,
    bu_groups = group_recall_items items, bu_trace = ?trace\<rparr>"
  have run: "recall_bundle_of L uc r started completed bytes q = Inr ?b"
    unfolding recall_bundle_Inr using assms(6) g sel hash trace by auto
  have "rt_id ?trace = (if rq_trace_id q = '''' then random_trace_id bytes else rq_trace_id q)" by (simp add: recall_trace_def)
  then have "put_retrieval_trace ?trace st = (st\<lparr>st_traces := st_traces st @ [?trace]\<rparr>, Inr ())"
    using trace assms(13) by (simp add: put_retrieval_trace_def guard_check_Inr bind_result_Inr wrap_result_Inr insert_row_Inr)
  then have "recall L uc r (Some put_retrieval_trace) started completed bytes q st =
      (st\<lparr>st_traces := st_traces st @ [bu_trace ?b]\<rparr>, Inr ?b)"
    unfolding recall_def run by simp
  then show ?thesis using mode fallback by (intro exI [of _ ?b]) auto
qed

lemma recall_needs_names:
  assumes "recall_bundle_of L uc r started completed bytes q = Inr b"
  shows "named_request q"
    "rt_id (bu_trace b) = (if rq_trace_id q = '''' then random_trace_id bytes else rq_trace_id q)"
  using assms
  by (auto simp: recall_bundle_Inr trace_validate_def recall_trace_def named_request_def list_all_iff split: if_splits)

lemma recall_needs_new_trace:
  assumes "recall L uc r (Some put_retrieval_trace) started completed bytes q st = (st', Inr b)"
  shows "rt_id (bu_trace b) \<notin> rt_id ` set (st_traces st)"
  using assms
  by (auto simp: recall_def put_retrieval_trace_def guard_check_Inr bind_result_Inr wrap_result_Inr insert_row_Inr
      split: sum.splits prod.splits)

lemma recall_failed:
  "recall L uc r (Some put_retrieval_trace) started completed bytes q st = (st', Inl e) \<Longrightarrow> st' = st"
  by (auto simp: recall_def put_retrieval_trace_def split: sum.splits prod.splits)

text \<open>
  C37. When automatic recall answers: on a well-formed database, for a request that the
  use case accepts, in the automatic mode and with a searchable query, the embedding
  provider never decides: it may be absent, fail, answer with the wrong dimension or
  find no stored vectors. The request succeeds, with its trace stored and with the
  reason in the bundle when the provider was not used, exactly when the principal, all
  its private owners and a trace id it brings match the pattern of names, and no stored
  trace has its id; otherwise it is an error and stores nothing. The first condition is
  not vacuous for accepted requests: the request validation and the credentials ask for
  owners that are not empty, the trace asks for names (see \<open>unnamed_owner_never_recalls\<close>).
\<close>

theorem auto_recall_answers_iff:
  assumes "store_ok st" and "digest_ok L" and "bm25_finite fts"
    and "rv_repository r = sqlite_repository L uc fts st" and "configured r"
    and "validate_recall_request q = None" and "rq_mode q = RetrievalAuto"
    and "safe_fts_query uc (rq_query q) = Inr match"
    and "length bytes = 16" and "started \<noteq> 0" and "started \<le> completed"
  shows "if id_pattern (ac_principal_id (rq_access q)) \<and> list_all id_pattern (ac_private_owners (rq_access q)) \<and>
        (rq_trace_id q = '''' \<or> id_pattern (rq_trace_id q)) \<and>
        (if rq_trace_id q = '''' then random_trace_id bytes else rq_trace_id q) \<notin> rt_id ` set (st_traces st)
      then \<exists>b. recall L uc r (Some put_retrieval_trace) started completed bytes q st =
          (st\<lparr>st_traces := st_traces st @ [bu_trace b]\<rparr>, Inr b) \<and>
        (bu_mode b = RetrievalHybrid \<or> bu_mode b = RetrievalLexical \<and> bu_fallback_reason b \<noteq> '''')
      else \<exists>e. recall L uc r (Some put_retrieval_trace) started completed bytes q st = (st, Inl e)"
    (is "if ?names \<and> _ \<and> ?trace \<and> ?new then _ else _")
proof (cases "named_request q \<and> ?new")
  case True
  then show ?thesis using named_recall_answers [OF assms(1-6) _ assms(7-11)] by (simp add: named_request_def)
next
  case False
  obtain st' x where run: "recall L uc r (Some put_retrieval_trace) started completed bytes q st = (st', x)" by fastforce
  have "isl x"
  proof (cases x)
    case (Inr b)
    note answered = run [unfolded Inr]
    show ?thesis
      using False recall_needs_names [OF recall_Inr [OF answered]] recall_needs_new_trace [OF answered] by simp
  qed simp
  then obtain e where "x = Inl e" by (auto simp: isl_def)
  then have "recall L uc r (Some put_retrieval_trace) started completed bytes q st = (st, Inl e)"
    using run recall_failed by blast
  then show ?thesis using False by (auto simp: named_request_def)
qed

section \<open>The selection\<close>

lemma select_from_items:
  "select_from uc budget seen used xs = (items, trace, tokens) \<Longrightarrow>
     map ri_version_id items = map rc_version_id (filter rc_selected trace) \<and>
     tokens = used + sum_list (map ri_estimated_tokens items)"
proof (induction xs arbitrary: seen used items trace tokens)
  case (Cons x xs)
  show ?case using Cons.prems
    by (auto simp: Let_def trace_candidate_def recall_item_of_def split: if_splits prod.splits dest!: Cons.IH)
qed simp

text \<open>
  C35. The selection is greedy within the budget: the trace lists the best candidates in
  rank order, at most the requested number; a candidate is selected exactly when no
  better one has the same normalized text and it fits in the budget beside those
  selected before it; the items are the selected candidates, and their estimates add up
  to the tokens used, never more than the budget.
\<close>

theorem recall_selects_greedily:
  assumes "recall L uc r sink started completed bytes q s = (s', Inr b)"
  shows "\<exists>g xs. gather r q = Inr g \<and>
    xs = take (nat (rq_candidate_limit q)) (rank_candidates (ga_mode g) (ga_lexical g) (ga_semantic g) (rv_rrf_constant r)) \<and>
    map rc_version_id (rt_candidates (bu_trace b)) = map rk_version xs \<and>
    (\<forall>k < length xs. rc_selected (rt_candidates (bu_trace b) ! k) \<longleftrightarrow>
       dedupe_key uc (rk_stored (xs ! k)) \<notin> (dedupe_key uc \<circ> rk_stored) ` set (take k xs) \<and>
       selected_tokens (take k (rt_candidates (bu_trace b))) + estimate_tokens (sn_text (rk_stored (xs ! k))) \<le> rq_token_budget q) \<and>
    map ri_version_id (bu_items b) = map rc_version_id (filter rc_selected (rt_candidates (bu_trace b))) \<and>
    rt_tokens_used (bu_trace b) = sum_list (map ri_estimated_tokens (bu_items b)) \<and>
    rt_tokens_used (bu_trace b) \<le> rq_token_budget q"
proof -
  from recall_Inr [OF assms] obtain g items candidates used hash where g: "gather r q = Inr g"
    and sel: "select_candidates uc (take (nat (rq_candidate_limit q))
        (rank_candidates (ga_mode g) (ga_lexical g) (ga_semantic g) (rv_rrf_constant r))) (rq_token_budget q) =
        (bu_items b, candidates, used)"
    and t: "bu_trace b = recall_trace q (if rq_trace_id q = '''' then random_trace_id bytes else rq_trace_id q)
        (pk_id (strategy_package r (ga_mode g)) @ ''@'' @ pk_version (strategy_package r (ga_mode g))) hash (ga_fallback g)
        candidates used started completed"
    and valid: "trace_validate (bu_trace b) = None" and request: "validate_recall_request q = None"
    unfolding recall_bundle_Inr by blast
  let ?xs = "take (nat (rq_candidate_limit q))
    (rank_candidates (ga_mode g) (ga_lexical g) (ga_semantic g) (rv_rrf_constant r))"
  have trace: "rt_candidates (bu_trace b) = candidates" "rt_tokens_used (bu_trace b) = used"
    by (simp_all add: t recall_trace_def)
  note run = sel [unfolded select_candidates_def]
  have budget: "0 \<le> rq_token_budget q" using request by (simp add: validate_recall_request_def)
  have shape: "length candidates = length ?xs" "map rc_version_id candidates = map rk_version ?xs"
      "map rc_estimated_tokens candidates = map (estimate_tokens \<circ> sn_text \<circ> rk_stored) ?xs"
    using select_from_trace [OF run] by blast+
  have "\<forall>c \<in> set candidates. rc_version_id c \<noteq> ''''"
    using valid trace(1) by (auto simp: trace_validate_def candidate_validate_def)
  then have "'''' \<notin> set (map rc_version_id candidates)" by auto
  then have named: "rk_version x \<noteq> ''''" if "x \<in> set ?xs" for x
    using that unfolding shape(2) by force
  have greedy: "rc_selected (candidates ! k) \<longleftrightarrow>
      dedupe_key uc (rk_stored (?xs ! k)) \<notin> (dedupe_key uc \<circ> rk_stored) ` set (take k ?xs) \<and>
      selected_tokens (take k candidates) + estimate_tokens (sn_text (rk_stored (?xs ! k))) \<le> rq_token_budget q"
    if "k < length ?xs" for k
  proof -
    have "rc_estimated_tokens (candidates ! k) = estimate_tokens (sn_text (rk_stored (?xs ! k)))"
      using that shape(1) arg_cong [OF shape(3), of "\<lambda>l. l ! k"] by simp
    with select_from_greedy [OF run that named] show ?thesis by simp
  qed
  have "used \<le> rq_token_budget q" by (rule select_from_budget [OF run budget])
  with g greedy shape select_from_items [OF run] show ?thesis unfolding trace
    by (intro exI [of _ g] exI [of _ ?xs]) simp
qed

section \<open>Samples\<close>

lemma mset_sort_by: "mset (sort_by lt xs) = mset xs"
proof -
  have "mset (insert_by lt x ys) = add_mset x (mset ys)" for x and ys :: "'a list"
    by (induction ys) auto
  then show ?thesis by (induction xs) (auto simp: sort_by_def)
qed

definition sample_retriever :: "store \<Rightarrow> retriever" where
  "sample_retriever st = \<lparr>rv_repository = sqlite_repository sample_lib sample_unicode sample_fts st,
     rv_embedder = None, rv_provider = '''', rv_model = '''', rv_dimensions = 0, rv_rrf_constant = 60\<rparr>"

definition sample_request :: "int \<Rightarrow> recall_request" where
  "sample_request budget = \<lparr>rq_trace_id = '''', rq_scope = sample_scope, rq_access = sample_access, rq_query = ''Tea?'',
     rq_functions = [], rq_mode = RetrievalAuto, rq_valid_at = sample_time 60, rq_system_at = sample_time 60,
     rq_token_budget = budget, rq_candidate_limit = 10, rq_include_global_working = False\<rparr>"

definition sample_bytes :: string where
  "sample_bytes = replicate 16 (CHR ''r'')"

definition sample_recall :: "int \<Rightarrow> store \<Rightarrow> store \<times> recall_bundle result" where
  "sample_recall budget st = recall sample_lib sample_unicode (sample_retriever st) (Some put_retrieval_trace)
     (sample_time 70) (sample_time 71) sample_bytes (sample_request budget) st"

lemma sample_recall_run:
  "map_sum (\<lambda>e. ()) (\<lambda>b. (map ri_version_id (bu_items b), rt_tokens_used (bu_trace b))) (snd (sample_recall 100 store_tea)) =
     Inr ([sample_id ''mv'' ''p1''], 3)"
  by code_simp

lemma sample_recall_bundle:
  obtains s b where "sample_recall 100 store_tea = (s, Inr b)" "map ri_version_id (bu_items b) = [sample_id ''mv'' ''p1'']"
    "rt_tokens_used (bu_trace b) = 3"
  using sample_recall_run that
  by (cases "sample_recall 100 store_tea"; cases "snd (sample_recall 100 store_tea)") auto

theorem recall_is_authorized_witness:
  "\<exists>b. snd (sample_recall 100 store_tea) = Inr b \<and> list_ex (\<lambda>i. list_ex (\<lambda>m.
     ri_memory_id i = me_id m \<and> visible_to sample_access (me_scope m)) (st_memories store_tea)) (bu_items b)"
proof -
  obtain s b where run: "sample_recall 100 store_tea = (s, Inr b)" "map ri_version_id (bu_items b) = [sample_id ''mv'' ''p1'']"
    by (rule sample_recall_bundle)
  then obtain i where i: "i \<in> set (bu_items b)" by (cases "bu_items b") auto
  have "rv_repository (sample_retriever store_tea) = sqlite_repository sample_lib sample_unicode sample_fts store_tea"
    by (simp add: sample_retriever_def)
  from recall_is_authorized [OF run(1) [unfolded sample_recall_def] this i]
  have "\<exists>m \<in> set (st_memories store_tea). ri_memory_id i = me_id m \<and> visible_to sample_access (me_scope m)"
    by (auto simp: sample_request_def)
  with i run(1) show ?thesis by (auto simp: list_ex_iff)
qed

theorem recall_selects_greedily_witness:
  "\<exists>b. snd (sample_recall 100 store_tea) = Inr b \<and> rt_tokens_used (bu_trace b) = 3 \<and>
     sum_list (map ri_estimated_tokens (bu_items b)) = 3"
proof -
  obtain s b where run: "sample_recall 100 store_tea = (s, Inr b)" "rt_tokens_used (bu_trace b) = 3"
    by (rule sample_recall_bundle)
  from recall_selects_greedily [OF run(1) [unfolded sample_recall_def]] run show ?thesis by auto
qed

lemma sample_digest_ok: "digest_ok sample_lib"
  by (simp add: digest_ok_def sample_lib_def sample_digest_def min_def)

theorem auto_recall_answers_iff_witness:
  "\<exists>b. sample_recall 3 store_tea = (store_tea\<lparr>st_traces := st_traces store_tea @ [bu_trace b]\<rparr>, Inr b)"
proof -
  have match: "safe_fts_query sample_unicode (rq_query (sample_request 3)) = Inr [CHR 0x22, CHR ''T'', CHR ''e'', CHR ''a'', CHR 0x22]"
    using sample_query by (simp add: sample_request_def)
  have "validate_recall_request (sample_request 3) = None" "st_traces store_tea = []"
    "id_pattern (ac_principal_id (rq_access (sample_request 3))) \<and> list_all id_pattern (ac_private_owners (rq_access (sample_request 3)))"
    by code_simp+
  moreover have "configured (sample_retriever store_tea)" by (simp add: configured_def sample_retriever_def valid_utf8_def)
  moreover have "bm25_finite sample_fts" by (simp add: bm25_finite_def sample_fts_def)
  ultimately show ?thesis
    unfolding sample_recall_def
    using auto_recall_answers_iff [OF store_tea_ok sample_digest_ok, of sample_fts "sample_retriever store_tea" sample_unicode
        "sample_request 3" "[CHR 0x22, CHR ''T'', CHR ''e'', CHR ''a'', CHR 0x22]" sample_bytes "sample_time 70" "sample_time 71"] match
    by (auto simp: sample_retriever_def sample_request_def sample_bytes_def sample_time_def)
qed

text \<open>
  An owner with a space is accepted by the credentials and by the request validation, and
  refused by the trace: no recall of a principal that has it succeeds, whatever owner the
  request names.
\<close>

definition spaced_owner :: token_spec where
  "spaced_owner = \<lparr>ts_id = ''tok-9'', ts_principal_id = ''alice'', ts_namespace = ''ns'', ts_private_owners = [''alice'', ''team one''],
     ts_scopes = [ScopeMemoryRead], ts_allow_shared = False, ts_allow_public = False, ts_expires_at = None,
     ts_created_at = sample_time 1\<rparr>"

definition spaced_request :: recall_request where
  "spaced_request = (sample_request 100)\<lparr>rq_access := (rq_access (sample_request 100))\<lparr>ac_private_owners := ts_private_owners spaced_owner\<rparr>\<rparr>"

lemma unnamed_owner_never_recalls:
  "token_spec_validate spaced_owner = None" "validate_recall_request spaced_request = None"
  "isl (snd (recall sample_lib sample_unicode (sample_retriever store_tea) (Some put_retrieval_trace)
     (sample_time 70) (sample_time 71) sample_bytes spaced_request store_tea))"
  by code_simp+

definition sample_candidate :: "ident \<Rightarrow> string \<Rightarrow> stored_candidate" where
  "sample_candidate i s = \<lparr>sn_memory_id = ''m-'' @ i, sn_version_id = i, sn_function = FunctionFactual, sn_conflict_group = '''',
     sn_payload = sample_fact s, sn_provenance = sample_evidence, sn_text = s, sn_lexical = Some (Fin (- 1)),
     sn_semantic = None, sn_vector = []\<rparr>"

theorem ranking_is_deterministic_witness:
  "map (scored RetrievalLexical [sample_candidate ''v2'' ''a'', sample_candidate ''v1'' ''b''] [] 60)
      (by_version [sample_candidate ''v2'' ''a'', sample_candidate ''v1'' ''b''] []) =
    rank_candidates RetrievalLexical [sample_candidate ''v2'' ''a'', sample_candidate ''v1'' ''b''] [] 60"
proof -
  let ?ys = "map (scored RetrievalLexical [sample_candidate ''v2'' ''a'', sample_candidate ''v1'' ''b''] [] 60)
      (by_version [sample_candidate ''v2'' ''a'', sample_candidate ''v1'' ''b''] [])"
  have "let ys = ?ys in sorted_wrt (\<lambda>a b. \<not> ranked_less b a) ys \<and> list_all (\<lambda>x. f64_finite (rk_total x) \<and> f64_finite (rk_trust x)) ys"
    by code_simp
  then have "sorted_wrt (\<lambda>a b. \<not> ranked_less b a) ?ys"
    "list_all (\<lambda>x. f64_finite (rk_total x) \<and> f64_finite (rk_trust x)) ?ys"
    by (simp_all only: Let_def)
  then show ?thesis by (intro ranking_is_deterministic) (simp_all add: list_all_iff)
qed

section \<open>The mode left empty\<close>

text \<open>
  An empty mode resolves to the automatic one but does not fall back like it: the two
  comparisons with \<open>auto\<close> after a semantic failure do not accept the empty mode.
\<close>

lemma unset_mode_does_not_fall_back:
  assumes "rv_embedder r \<noteq> None"
    and "semantic_candidates r (recall_filter q) (rq_query q) (pool_limit q) = Inl e"
    and "\<And>m. search_lexical r q m = Inr lexical" and "rq_mode q = RetrievalUnset"
  shows "resolve_mode r (rq_mode q) = resolve_mode r RetrievalAuto" and "gather r q = Inl e"
  using assms by (simp_all add: resolve_mode_def gather_def Let_def)

end
