(* ===== verification/DepGraph.thy ===== *)
theory DepGraph
  imports Prelude
begin

text \<open>
  The dependency check of \<open>internal/application/portable.go\<close> (\<open>validateDependencyGraph\<close>):
  a depth-first walk that colours versions and reports a version met again while it is
  being visited. The walk recurses as the closure \<open>visit\<close> does, over a map from a
  version to the versions it derives from; an absent key has no parents. It is a
  partial function, so that the walk ending is something to prove.
\<close>

datatype mark = Unvisited | Visiting | Visited

type_synonym marks = "string \<Rightarrow> mark"

text \<open>
  \<open>for _, parent := range ... { if err := visit(parent); err != nil { return err } }\<close>
  with the body of \<open>visit\<close> in line.
\<close>

partial_function (option) visit_all ::
  "(string \<Rightarrow> string list) \<Rightarrow> marks \<Rightarrow> string list \<Rightarrow> (go_error + marks) option" where
  "visit_all deps st xs =
     (case xs of
        [] \<Rightarrow> Some (Inr st)
      | x # xs \<Rightarrow>
          (case st x of
             Visiting \<Rightarrow> Some (Inl (Errorf ''memory dependency graph contains a cycle''))
           | Visited \<Rightarrow> visit_all deps st xs
           | Unvisited \<Rightarrow>
               Option.bind (visit_all deps (st(x := Visiting)) (deps x)) (\<lambda>r.
                 case r of Inl e \<Rightarrow> Some (Inl e) | Inr st \<Rightarrow> visit_all deps (st(x := Visited)) xs)))"

declare visit_all.simps [code]

definition validate_dependency_graph :: "(string \<Rightarrow> string list) \<Rightarrow> string list \<Rightarrow> check option" where
  "validate_dependency_graph deps keys =
     map_option (\<lambda>r. case r of Inl e \<Rightarrow> Some e | Inr st \<Rightarrow> None) (visit_all deps (\<lambda>_. Unvisited) keys)"

lemma visit_all_simps:
  "visit_all deps st [] = Some (Inr st)"
  "st x = Visiting \<Longrightarrow> visit_all deps st (x # xs) = Some (Inl (Errorf ''memory dependency graph contains a cycle''))"
  "st x = Visited \<Longrightarrow> visit_all deps st (x # xs) = visit_all deps st xs"
  "st x = Unvisited \<Longrightarrow> visit_all deps st (x # xs) =
     Option.bind (visit_all deps (st(x := Visiting)) (deps x)) (\<lambda>r.
       case r of Inl e \<Rightarrow> Some (Inl e) | Inr st \<Rightarrow> visit_all deps (st(x := Visited)) xs)"
  by (subst visit_all.simps; simp)+

section \<open>The walk ends\<close>

definition unvisited :: "string set \<Rightarrow> marks \<Rightarrow> string set" where
  "unvisited K st = {x \<in> K. st x = Unvisited}"

lemma unvisited_visit:
  assumes "finite K" and "x \<in> K" and "st x = Unvisited"
  shows "card (unvisited K (st(x := Visiting))) < card (unvisited K st)"
  using assms by (intro psubset_card_mono) (auto simp: unvisited_def)

text \<open>Every call ends, and leaves no version unvisited that was visited before.\<close>

lemma visit_all_ends:
  assumes "finite K" and "\<And>x. set (deps x) \<subseteq> K" and "set xs \<subseteq> K"
  shows "\<exists>r. visit_all deps st xs = Some r \<and> (\<forall>st'. r = Inr st' \<longrightarrow> unvisited K st' \<subseteq> unvisited K st)"
  using assms(3)
proof (induction "(card (unvisited K st), xs)" arbitrary: st xs rule: wf_induct_rule [OF wf_lex_prod [OF wf_less_than wf_measure [of length]]])
  case 1
  show ?case
  proof (cases xs)
    case Nil
    then show ?thesis by (simp add: visit_all_simps)
  next
    case (Cons x ys)
    have shorter: "\<exists>r. visit_all deps st' ys = Some r \<and> (\<forall>st''. r = Inr st'' \<longrightarrow> unvisited K st'' \<subseteq> unvisited K st')"
      if "unvisited K st' \<subseteq> unvisited K st" for st'
    proof (rule 1(1))
      have "card (unvisited K st') \<le> card (unvisited K st)"
        using that assms(1) by (intro card_mono) (auto simp: unvisited_def)
      then show "((card (unvisited K st'), ys), card (unvisited K st), xs) \<in> less_than <*lex*> measure length"
        using Cons by auto
    qed (use 1(2) Cons in auto)
    show ?thesis
    proof (cases "st x")
      case Unvisited
      have "x \<in> K" using 1(2) Cons by simp
      note less = unvisited_visit [of K x st, OF assms(1) this Unvisited]
      obtain r where r: "visit_all deps (st(x := Visiting)) (deps x) = Some r"
        "\<And>st'. r = Inr st' \<Longrightarrow> unvisited K st' \<subseteq> unvisited K (st(x := Visiting))"
        using 1(1) [of "st(x := Visiting)" "deps x"] less assms(2) by auto
      show ?thesis
      proof (cases r)
        case (Inl e)
        then show ?thesis using r Unvisited Cons by (simp add: visit_all_simps)
      next
        case (Inr st')
        then have "unvisited K (st'(x := Visited)) \<subseteq> unvisited K st"
          using r(2) by (auto simp: unvisited_def split: if_splits)
        from shorter [OF this] this show ?thesis
          using r(1) Unvisited Cons Inr by (auto simp: visit_all_simps)
      qed
    qed (use Cons shorter [of st] in \<open>simp_all add: visit_all_simps\<close>)
  qed
qed

section \<open>The walk finds exactly the cycles\<close>

definition derives :: "(string \<Rightarrow> string list) \<Rightarrow> (string \<times> string) set" where
  "derives deps = {(x, p). p \<in> set (deps x)}"

text \<open>
  Visited versions have only visited parents and lie on no cycle; a version being
  visited reaches every version still to be looked at.
\<close>

definition walk_ok :: "(string \<Rightarrow> string list) \<Rightarrow> marks \<Rightarrow> string list \<Rightarrow> bool" where
  "walk_ok deps st xs \<longleftrightarrow>
     (\<forall>x. st x = Visited \<longrightarrow> (\<forall>p \<in> set (deps x). st p = Visited) \<and> (x, x) \<notin> (derives deps)\<^sup>+) \<and>
     (\<forall>g. st g = Visiting \<longrightarrow> (\<forall>x \<in> set xs. (g, x) \<in> (derives deps)\<^sup>+))"

lemma walk_ok_closed:
  assumes "walk_ok deps st xs" and "(x, y) \<in> (derives deps)\<^sup>+" and "st x = Visited"
  shows "st y = Visited"
  using assms(2,3) by (induction rule: trancl_induct) (use assms(1) in \<open>auto simp: walk_ok_def derives_def\<close>)

definition walked :: "marks \<Rightarrow> string list \<Rightarrow> marks \<Rightarrow> bool" where
  "walked st xs st' \<longleftrightarrow> (\<forall>x. (st' x = Visiting) = (st x = Visiting)) \<and>
     (\<forall>x. st x = Visited \<longrightarrow> st' x = Visited) \<and> (\<forall>x \<in> set xs. st' x = Visited)"

text \<open>A version is finished: its parents are visited and nothing leads back to it.\<close>

lemma walk_ok_finish:
  assumes ok: "walk_ok deps (st(x := Visiting)) (deps x)" and fin: "walk_ok deps st' []"
    and w: "walked (st(x := Visiting)) (deps x) st'"
  shows "walk_ok deps (st'(x := Visited)) []"
proof -
  have x: "st' x = Visiting" using w by (simp add: walked_def)
  have parents: "st' p = Visited" if "p \<in> set (deps x)" for p using w that by (simp add: walked_def)
  have "(x, x) \<notin> (derives deps)\<^sup>+"
  proof
    assume "(x, x) \<in> (derives deps)\<^sup>+"
    then obtain p where p: "p \<in> set (deps x)" "p = x \<or> (p, x) \<in> (derives deps)\<^sup>+"
      by (auto simp: derives_def dest!: tranclD dest: rtranclD)
    then have "st' x = Visited" using parents walk_ok_closed [OF fin] by blast
    with x show False by simp
  qed
  then show ?thesis using fin parents by (auto simp: walk_ok_def)
qed

lemma visit_all_walks:
  assumes "finite K" and "\<And>x. set (deps x) \<subseteq> K" and "set xs \<subseteq> K" and "walk_ok deps st xs"
    and "visit_all deps st xs = Some r"
  shows "case r of Inl e \<Rightarrow> \<exists>x. (x, x) \<in> (derives deps)\<^sup>+ | Inr st' \<Rightarrow> walk_ok deps st' [] \<and> walked st xs st'"
  using assms(3-)
proof (induction "(card (unvisited K st), xs)" arbitrary: st xs r rule: wf_induct_rule [OF wf_lex_prod [OF wf_less_than wf_measure [of length]]])
  case 1
  show ?case
  proof (cases xs)
    case Nil
    then show ?thesis using 1(3,4) by (auto simp: visit_all_simps walked_def)
  next
    case (Cons x ys)
    have shorter: "case r of Inl e \<Rightarrow> \<exists>x. (x, x) \<in> (derives deps)\<^sup>+ | Inr st'' \<Rightarrow> walk_ok deps st'' [] \<and> walked st' ys st''"
      if "unvisited K st' \<subseteq> unvisited K st" "walk_ok deps st' ys" "visit_all deps st' ys = Some r" for st'
    proof (rule 1(1))
      have "card (unvisited K st') \<le> card (unvisited K st)"
        using that assms(1) by (intro card_mono) (auto simp: unvisited_def)
      then show "((card (unvisited K st'), ys), card (unvisited K st), xs) \<in> less_than <*lex*> measure length"
        using Cons by auto
    qed (use 1(2) Cons that in auto)
    have rest: "walk_ok deps st ys" using 1(3) Cons by (simp add: walk_ok_def)
    show ?thesis
    proof (cases "st x")
      case Visiting
      then have "(x, x) \<in> (derives deps)\<^sup>+" using 1(3) Cons by (simp add: walk_ok_def)
      then show ?thesis using 1(4) Visiting Cons by (auto simp: visit_all_simps)
    next
      case Visited
      then show ?thesis using shorter [OF _ rest] 1(4) Cons by (auto simp: visit_all_simps walked_def split: sum.splits)
    next
      case Unvisited
      have xK: "x \<in> K" using 1(2) Cons by simp
      note less = unvisited_visit [of K x st, OF assms(1) this Unvisited]
      let ?st = "st(x := Visiting)"
      have inner: "walk_ok deps ?st (deps x)"
      proof -
        have "(g, p) \<in> (derives deps)\<^sup>+" if "?st g = Visiting" "p \<in> set (deps x)" for g p
        proof -
          have edge: "(x, p) \<in> derives deps" using that by (simp add: derives_def)
          then show ?thesis using that 1(3) Cons by (cases "g = x") (auto simp: walk_ok_def dest: trancl_into_trancl)
        qed
        then show ?thesis using 1(3) Unvisited by (auto simp: walk_ok_def)
      qed
      obtain q where q: "visit_all deps ?st (deps x) = Some q"
        using visit_all_ends [where deps = deps, OF assms(1,2) assms(2)] by blast
      have ih: "case q of Inl e \<Rightarrow> \<exists>x. (x, x) \<in> (derives deps)\<^sup>+ | Inr st' \<Rightarrow> walk_ok deps st' [] \<and> walked ?st (deps x) st'"
        using 1(1) [OF _ assms(2) inner q] less by simp
      show ?thesis
      proof (cases q)
        case (Inl e)
        then show ?thesis using ih 1(4) q Unvisited Cons by (auto simp: visit_all_simps)
      next
        case (Inr st')
        with ih have st': "walk_ok deps st' []" "walked ?st (deps x) st'" by simp_all
        let ?st' = "st'(x := Visited)"
        have fin: "walk_ok deps ?st' []" by (rule walk_ok_finish [OF inner st'])
        have visiting: "(?st' g = Visiting) = (st g = Visiting)" for g
          using st'(2) Unvisited by (auto simp: walked_def)
        have kept: "?st' g = Visited" if "st g = Visited" for g using st'(2) that by (auto simp: walked_def)
        have "walk_ok deps ?st' ys" using fin rest visiting unfolding walk_ok_def by blast
        moreover have "unvisited K ?st' \<subseteq> unvisited K st"
          using visiting kept unfolding unvisited_def by (auto, metis mark.exhaust)
        moreover have "visit_all deps ?st' ys = Some r" using 1(4) q Unvisited Cons Inr by (simp add: visit_all_simps)
        ultimately have "case r of Inl e \<Rightarrow> \<exists>x. (x, x) \<in> (derives deps)\<^sup>+
            | Inr st'' \<Rightarrow> walk_ok deps st'' [] \<and> walked ?st' ys st''" by (intro shorter)
        then show ?thesis using visiting kept Cons unfolding walked_def by (auto split: sum.splits)
      qed
    qed
  qed
qed

lemma dependency_graph_verdict:
  assumes "\<And>x. deps x \<noteq> [] \<Longrightarrow> x \<in> set keys"
  shows "\<exists>c. validate_dependency_graph deps keys = Some c \<and> (c = None \<longleftrightarrow> acyclic (derives deps))"
proof -
  let ?K = "set keys \<union> (\<Union>x \<in> set keys. set (deps x))"
  have "set (deps x) \<subseteq> ?K" for x using assms [of x] by (cases "deps x = []") auto
  then have K: "finite ?K" "\<And>x. set (deps x) \<subseteq> ?K" "set keys \<subseteq> ?K" by auto
  have start: "walk_ok deps (\<lambda>_. Unvisited) keys" by (simp add: walk_ok_def)
  obtain r where r: "visit_all deps (\<lambda>_. Unvisited) keys = Some r" using visit_all_ends [where deps = deps, OF K] by blast
  have *: "case r of Inl e \<Rightarrow> \<exists>x. (x, x) \<in> (derives deps)\<^sup>+ | Inr st' \<Rightarrow> walk_ok deps st' [] \<and> walked (\<lambda>_. Unvisited) keys st'"
    by (rule visit_all_walks [OF K start r])
  show ?thesis
  proof (cases r)
    case (Inl e)
    then show ?thesis using * r by (auto simp: validate_dependency_graph_def acyclic_def)
  next
    case (Inr st')
    have "(x, x) \<notin> (derives deps)\<^sup>+" for x
    proof
      assume cycle: "(x, x) \<in> (derives deps)\<^sup>+"
      then have "deps x \<noteq> []" by (auto dest: tranclD simp: derives_def)
      then have "st' x = Visited" using * Inr assms by (simp add: walked_def)
      with cycle * Inr show False by (simp add: walk_ok_def)
    qed
    then show ?thesis using r Inr by (auto simp: validate_dependency_graph_def acyclic_def)
  qed
qed

end
