(* ===== verification/Portable.thy ===== *)
theory Portable
  imports Candidates Working Episodes DepGraph "HOL-Library.Product_Lexorder"
begin

text \<open>
  The portable subject bundle: its validation and normal order
  (\<open>internal/application/portable.go\<close>), the export of one subject's authorized rows and
  the import of a bundle in one transaction (\<open>sqlite/portable.go\<close>). The file copy that
  precedes an import into a database with data, the integrity check that follows it and
  the time-stamped path of the copy are parameters; no code of the repository writes
  the artifacts table, so its references stand for it.
\<close>

section \<open>The bundle\<close>

record portable_episode =
  pe_id :: ident
  pe_namespace :: ident
  pe_subject :: ident
  pe_task :: content
  pe_observation_ids :: "ident list"
  pe_started_at :: gtime
  pe_ended_at :: gtime
  pe_outcomes :: "outcome list"

record portable_working_set =
  pw_set :: working_set
  pw_state :: string

record portable_memory =
  pm_memory :: memory
  pm_versions :: "memory_version list"

record subject_export =
  sx_format :: string
  sx_schema_version :: int
  sx_exported_at :: gtime
  sx_namespace :: ident
  sx_subject :: ident
  sx_private_owners :: "ident list"
  sx_include_shared :: bool
  sx_include_public :: bool
  sx_observations :: "observation list"
  sx_episodes :: "portable_episode list"
  sx_working_sets :: "portable_working_set list"
  sx_memories :: "portable_memory list"

definition portable_export_format :: string where
  "portable_export_format = ''memxplore.subject-export''"

definition export_versions :: "subject_export \<Rightarrow> memory_version list" where
  "export_versions x = concat (map pm_versions (sx_memories x))"

section \<open>Validation\<close>

text \<open>A loop whose duplicate test is on a key of the element.\<close>

fun scan_keys :: "('a \<Rightarrow> check) \<Rightarrow> ('a \<Rightarrow> 'k) \<Rightarrow> string \<Rightarrow> ('a \<Rightarrow> check) \<Rightarrow> 'k list \<Rightarrow> 'a list \<Rightarrow> check" where
  "scan_keys pre key dup post seen [] = None"
| "scan_keys pre key dup post seen (x # xs) =
     first_error [pre x, err_if (key x \<in> set seen) dup, post x, scan_keys pre key dup post (key x # seen) xs]"

definition validate_export_owners :: "ident list \<Rightarrow> check" where
  "validate_export_owners vs =
     (if vs = [] then Some (Errorf ''export requires at least one private owner'')
      else scan_unique (\<lambda>o'. err_if (o' = '''') ''private owner cannot be empty'') ''duplicate private owner'' (\<lambda>_. None) [] vs)"

definition export_scope_check :: "subject_export \<Rightarrow> scope \<Rightarrow> check" where
  "export_scope_check x s =
     (if sc_namespace s \<noteq> sx_namespace x \<or> sc_subject s \<noteq> sx_subject x
      then Some (Errorf ''scope crosses export namespace or subject'')
      else case sc_visibility s of
        VisibilityPrivate \<Rightarrow> err_if (sc_owner s \<notin> set (sx_private_owners x)) ''private scope owner is not authorized''
      | VisibilityShared \<Rightarrow> err_if (\<not> sx_include_shared x) ''shared scope is not authorized''
      | VisibilityPublic \<Rightarrow> err_if (\<not> sx_include_public x) ''public scope is not authorized''
      | VisibilityOther v \<Rightarrow> None)"

definition observations_check :: "subject_export \<Rightarrow> check" where
  "observations_check x = scan_keys
     (\<lambda>ob. first_error [wrap_check ''observations'' (observation_validate ob),
        wrap_check ''observations'' (export_scope_check x (ob_scope ob))])
     ob_id ''duplicate observation id'' (\<lambda>_. None) [] (sx_observations x)"

text \<open>\<open>outcomeIDs\<close> is shared by all episodes: an outcome identifier occurs once in the bundle.\<close>

fun episodes_check :: "subject_export \<Rightarrow> ident list \<Rightarrow> ident list \<Rightarrow> portable_episode list \<Rightarrow> check" where
  "episodes_check x seen outcomes [] = None"
| "episodes_check x seen outcomes (e # es) = first_error
     [err_if (pe_id e = '''' \<or> pe_namespace e \<noteq> sx_namespace x \<or> pe_subject e \<noteq> sx_subject x)
        ''episode has invalid identity or scope'',
      wrap_check ''episodes.task'' (content_validate (pe_task e)),
      err_if (is_zero_time (pe_started_at e) \<or> \<not> pe_started_at e < pe_ended_at e) ''episode has invalid timestamps'',
      err_if (pe_id e \<in> set seen) ''duplicate episode id'',
      check_all (\<lambda>i. err_if (i \<notin> ob_id ` set (sx_observations x)) ''episode references absent observation'')
        (pe_observation_ids e),
      scan_keys (\<lambda>oc. first_error [wrap_check ''episodes.outcomes'' (outcome_validate oc),
           err_if (oc_episode_id oc \<noteq> pe_id e) ''outcome belongs to another episode''])
        oc_id ''duplicate outcome id'' (\<lambda>_. None) outcomes (pe_outcomes e),
      episodes_check x (pe_id e # seen) (map oc_id (pe_outcomes e) @ outcomes) es]"

definition working_sets_check :: "subject_export \<Rightarrow> check" where
  "working_sets_check x = scan_keys
     (\<lambda>p. first_error [wrap_check ''working_sets'' (working_set_validate (pw_set p)),
        wrap_check ''working_sets'' (export_scope_check x (ws_scope (pw_set p))),
        err_if (pw_state p \<notin> {''active'', ''expired'', ''archived''}) ''working set has invalid state''])
     (ws_id \<circ> pw_set) ''duplicate working set id'' (\<lambda>_. None) [] (sx_working_sets x)"

fun versions_check :: "memory \<Rightarrow> ident list \<Rightarrow> int list \<Rightarrow> memory_version list \<Rightarrow> check" where
  "versions_check m ids numbers [] = None"
| "versions_check m ids numbers (v # vs) = first_error
     [err_if (mv_memory_id v \<noteq> me_id m) ''version belongs to another memory'',
      wrap_check ''memories.versions'' (version_validate (me_function m) v),
      err_if (mv_id v \<in> set ids) ''duplicate memory version id'',
      err_if (mv_number v \<in> set numbers) ''memory contains duplicate version number'',
      versions_check m (mv_id v # ids) (mv_number v # numbers) vs]"

fun memories_check :: "subject_export \<Rightarrow> ident list \<Rightarrow> ident list \<Rightarrow> portable_memory list \<Rightarrow> check" where
  "memories_check x seen ids [] = None"
| "memories_check x seen ids (p # ps) = first_error
     [wrap_check ''memories'' (memory_validate (pm_memory p)),
      wrap_check ''memories'' (export_scope_check x (me_scope (pm_memory p))),
      err_if (me_id (pm_memory p) \<in> set seen) ''duplicate memory id'',
      err_if (pm_versions p = []) ''memory has no versions'',
      versions_check (pm_memory p) ids [] (pm_versions p),
      err_if (me_current_version (pm_memory p) \<notin> mv_number ` set (pm_versions p)) ''memory current version is absent'',
      memories_check x (me_id (pm_memory p) # seen) (map mv_id (pm_versions p) @ ids) ps]"

section \<open>References\<close>

text \<open>\<open>versionMemories\<close> and \<open>versionScopes\<close>: the memory a version of the bundle belongs to.\<close>

definition bundle_memory :: "subject_export \<Rightarrow> ident \<Rightarrow> memory option" where
  "bundle_memory x i = map_option snd (find_row (mv_id \<circ> fst) i
     (concat (map (\<lambda>p. map (\<lambda>v. (v, pm_memory p)) (pm_versions p)) (sx_memories x))))"

definition dependency_visibility_allowed :: "scope \<Rightarrow> scope \<Rightarrow> bool" where
  "dependency_visibility_allowed parent child \<longleftrightarrow>
     sc_namespace parent = sc_namespace child \<and> sc_subject parent = sc_subject child \<and>
     (case sc_visibility parent of
        VisibilityPrivate \<Rightarrow> sc_visibility child = VisibilityPrivate \<and> sc_owner parent = sc_owner child
      | VisibilityShared \<Rightarrow> sc_visibility child \<noteq> VisibilityPublic
      | VisibilityPublic \<Rightarrow> True
      | VisibilityOther v \<Rightarrow> False)"

definition lesson_reference_check :: "subject_export \<Rightarrow> lesson_evidence \<Rightarrow> check" where
  "lesson_reference_check x ev =
     (if le_episode_id ev \<notin> pe_id ` set (sx_episodes x)
      then Some (Errorf ''memory version references absent episode'')
      else check_all (\<lambda>i. err_if
          ((i, le_episode_id ev) \<notin> (\<lambda>oc. (oc_id oc, oc_episode_id oc)) ` set (concat (map pe_outcomes (sx_episodes x))))
          ''memory version references absent outcome'') (le_outcome_ids ev))"

definition working_reference_check :: "subject_export \<Rightarrow> memory \<Rightarrow> working_memory \<Rightarrow> check" where
  "working_reference_check x m w = first_error
     [err_if (case find_row ws_id (wm_working_set_id w) (map pw_set (sx_working_sets x)) of
          None \<Rightarrow> True
        | Some s \<Rightarrow> ws_task_id s \<noteq> wm_task_id w \<or> sc_context (me_scope m) \<noteq> wm_task_id w)
        ''memory version references an incompatible working set'',
      check_all (\<lambda>i. err_if (i \<notin> ob_id ` set (sx_observations x))
        ''memory version references absent compacted observation'') (wm_compacted_from w)]"

definition references_check :: "subject_export \<Rightarrow> memory \<Rightarrow> memory_version \<Rightarrow> check" where
  "references_check x m v = first_error
     [(case pl_factual (mv_payload v) of None \<Rightarrow> None
       | Some f \<Rightarrow> err_if (fm_claim_subject f \<noteq> sx_subject x) ''memory version factual claim crosses subject''),
      check_all (\<lambda>e. err_if (er_observation_id e \<notin> ob_id ` set (sx_observations x))
        ''memory version references absent observation'') (mv_provenance v),
      check_all (\<lambda>i. err_if (i \<notin> mv_id ` set (export_versions x)) ''memory version references absent version'')
        (mv_supersedes v @ mv_derived_from v),
      check_all (\<lambda>i. err_if (map_option me_id (bundle_memory x i) \<noteq> Some (me_id m))
        ''memory version supersedes a version from another memory'') (mv_supersedes v),
      check_all (\<lambda>i. err_if (case bundle_memory x i of None \<Rightarrow> True
          | Some parent \<Rightarrow> \<not> dependency_visibility_allowed (me_scope parent) (me_scope m))
        ''memory version dependency widens visibility'') (mv_derived_from v),
      (case pl_experiential (mv_payload v) of None \<Rightarrow> None
       | Some e \<Rightarrow> check_all (lesson_reference_check x) (em_evidence e)),
      (case pl_working (mv_payload v) of None \<Rightarrow> None
       | Some w \<Rightarrow> working_reference_check x m w)]"

definition export_parents :: "subject_export \<Rightarrow> ident \<Rightarrow> ident list" where
  "export_parents x i =
     (case find_row mv_id i (export_versions x) of None \<Rightarrow> [] | Some v \<Rightarrow> mv_derived_from v)"

text \<open>
  The walk over the map of parents; the identifiers are met in bundle order here and in
  map order there, and \<open>dependency_graph_verdict\<close> shows that the verdict does not depend
  on it and that the walk ends, so that the last branch is never taken.
\<close>

definition graph_check :: "subject_export \<Rightarrow> check" where
  "graph_check x =
     (case validate_dependency_graph (export_parents x) (map mv_id (export_versions x)) of
        Some c \<Rightarrow> c
      | None \<Rightarrow> Some (Errorf ''does not return''))"

definition export_validate :: "subject_export \<Rightarrow> check" where
  "export_validate x = first_error
     [err_if (sx_format x \<noteq> portable_export_format) ''export format is unsupported'',
      err_if (sx_schema_version x \<noteq> 1) ''export schema is unsupported'',
      err_if (is_zero_time (sx_exported_at x) \<or> sx_namespace x = '''' \<or> sx_subject x = '''')
        ''export timestamp, namespace, and subject are required'',
      validate_export_owners (sx_private_owners x),
      observations_check x, episodes_check x [] [] (sx_episodes x), working_sets_check x,
      memories_check x [] [] (sx_memories x),
      check_all (\<lambda>p. check_all (references_check x (pm_memory p)) (pm_versions p)) (sx_memories x),
      graph_check x]"

text \<open>
  \<open>SortSubjectExport\<close>. \<open>slices.SortFunc\<close> is not stable; on the distinct keys of a valid
  bundle every sort gives the same list.
\<close>

definition sort_subject_export :: "subject_export \<Rightarrow> subject_export" where
  "sort_subject_export x = x\<lparr>
     sx_private_owners := sort (sx_private_owners x),
     sx_observations := sort_key ob_id (sx_observations x),
     sx_episodes := map (\<lambda>e. e\<lparr>pe_outcomes := sort_key oc_id (pe_outcomes e)\<rparr>) (sort_key pe_id (sx_episodes x)),
     sx_working_sets := sort_key (ws_id \<circ> pw_set) (sx_working_sets x),
     sx_memories := map (\<lambda>p. p\<lparr>pm_versions := sort_key (\<lambda>v. (mv_number v, mv_id v)) (pm_versions p)\<rparr>)
       (sort_key (me_id \<circ> pm_memory) (sx_memories x))\<rparr>"

section \<open>Export\<close>

definition portable_access_check :: "access_scope \<Rightarrow> ident \<Rightarrow> check" where
  "portable_access_check a subject = first_error
     [err_if (ac_namespace a = '''' \<or> ac_principal_id a = '''' \<or> subject = '''' \<or> ac_private_owners a = [])
        ''complete authorized subject export scope is required'',
      scan_unique (\<lambda>o'. err_if (o' = '''') ''private owner cannot be empty'') ''duplicate private owner'' (\<lambda>_. None) []
        (ac_private_owners a)]"

definition portable_visible :: "access_scope \<Rightarrow> ident \<Rightarrow> scope \<Rightarrow> bool" where
  "portable_visible a subject s \<longleftrightarrow>
     sc_namespace s = ac_namespace a \<and> sc_subject s = subject \<and> visible_to a s"

definition export_observations :: "access_scope \<Rightarrow> ident \<Rightarrow> store \<Rightarrow> observation list" where
  "export_observations a subject st =
     sort_key ob_id (filter (\<lambda>ob. portable_visible a subject (ob_scope ob)) (map fst (st_observations st)))"

fun working_state_text :: "working_state \<Rightarrow> string" where
  "working_state_text WorkingActive = ''active''"
| "working_state_text WorkingExpired = ''expired''"
| "working_state_text WorkingArchived = ''archived''"

definition export_working_sets :: "access_scope \<Rightarrow> ident \<Rightarrow> store \<Rightarrow> portable_working_set list" where
  "export_working_sets a subject st =
     map (\<lambda>r. \<lparr>pw_set = wr_set r, pw_state = working_state_text (wr_state r)\<rparr>)
       (sort_key (ws_id \<circ> wr_set) (filter (\<lambda>r. portable_visible a subject (ws_scope (wr_set r))) (st_working_sets st)))"

text \<open>The rows of the join are grouped through a map from a memory to its place in the result.\<close>

definition add_version_to :: "memory \<times> memory_version \<Rightarrow> portable_memory list \<Rightarrow> portable_memory list" where
  "add_version_to r ps =
     (if me_id (fst r) \<in> (me_id \<circ> pm_memory) ` set ps
      then update_rows (\<lambda>p. me_id (pm_memory p) = me_id (fst r)) (\<lambda>p. p\<lparr>pm_versions := pm_versions p @ [snd r]\<rparr>) ps
      else ps @ [\<lparr>pm_memory = fst r, pm_versions = [snd r]\<rparr>])"

text \<open>\<open>FROM memories x JOIN memory_versions v ON v.memory_id = x.id ... ORDER BY x.id, v.version_number, v.id\<close>\<close>

definition export_memory_rows :: "access_scope \<Rightarrow> ident \<Rightarrow> store \<Rightarrow> (memory \<times> memory_version) list" where
  "export_memory_rows a subject st = sort_key (\<lambda>(m, v). (me_id m, mv_number v, mv_id v))
     (concat (map (\<lambda>m. map (Pair m) (filter (\<lambda>v. mv_memory_id v = me_id m) (st_versions st)))
       (filter (\<lambda>m. portable_visible a subject (me_scope m)) (st_memories st))))"

definition export_memories :: "access_scope \<Rightarrow> ident \<Rightarrow> store \<Rightarrow> portable_memory list" where
  "export_memories a subject st = fold add_version_to (export_memory_rows a subject st) []"

definition lesson_references :: "portable_memory list \<Rightarrow> lesson_evidence list" where
  "lesson_references ps = concat (map (\<lambda>v. case pl_experiential (mv_payload v) of None \<Rightarrow> [] | Some e \<Rightarrow> em_evidence e)
     (concat (map pm_versions ps)))"

definition export_outcome :: "store \<Rightarrow> ident \<Rightarrow> outcome result" where
  "export_outcome st i =
     (case find_row oc_id i (st_outcomes st) of
        None \<Rightarrow> Inl (Wrapped ''load export outcome'' ErrNoRows) | Some oc \<Rightarrow> Inr oc)"

definition evidence_outcomes :: "lesson_evidence list \<Rightarrow> ident \<Rightarrow> ident list" where
  "evidence_outcomes refs i = sort (remdups (concat (map le_outcome_ids (filter (\<lambda>ev. le_episode_id ev = i) refs))))"

definition export_episode :: "store \<Rightarrow> lesson_evidence list \<Rightarrow> ident \<Rightarrow> portable_episode result" where
  "export_episode st refs i =
     (case find_row es_id i (st_episodes st) of
        None \<Rightarrow> Inl (Wrapped ''load export episode'' ErrNoRows)
      | Some e \<Rightarrow>
          bind_result (map_result (export_outcome st) (evidence_outcomes refs i)) (\<lambda>ocs.
            Inr \<lparr>pe_id = es_id e, pe_namespace = es_namespace e, pe_subject = es_subject e, pe_task = es_task e,
             pe_observation_ids = es_observation_ids e, pe_started_at = es_started_at e,
             pe_ended_at = es_ended_at e, pe_outcomes = ocs\<rparr>))"

definition export_referenced_episodes :: "store \<Rightarrow> portable_memory list \<Rightarrow> portable_episode list result" where
  "export_referenced_episodes st ps =
     map_result (export_episode st (lesson_references ps)) (sort (remdups (map le_episode_id (lesson_references ps))))"

definition export_subject :: "access_scope \<Rightarrow> ident \<Rightarrow> gtime \<Rightarrow> store \<Rightarrow> subject_export result" where
  "export_subject a subject at' st =
     guard_check (err_if (is_zero_time at') ''export timestamp is required'')
     (guard_check (portable_access_check a subject)
     (bind_result (export_referenced_episodes st (export_memories a subject st)) (\<lambda>es.
      let x = sort_subject_export
        \<lparr>sx_format = portable_export_format, sx_schema_version = 1, sx_exported_at = at',
         sx_namespace = ac_namespace a, sx_subject = subject, sx_private_owners = ac_private_owners a,
         sx_include_shared = ac_allow_shared a, sx_include_public = ac_allow_public a,
         sx_observations = export_observations a subject st, sx_episodes = es,
         sx_working_sets = export_working_sets a subject st, sx_memories = export_memories a subject st\<rparr> in
      guard_check (wrap_check ''validate subject export'' (export_validate x)) (Inr x))))"

section \<open>Import\<close>

text \<open>The same INSERT reported under another message.\<close>

definition rewrap :: "string \<Rightarrow> 'a result \<Rightarrow> 'a result" where
  "rewrap m r = (case r of Inl (Wrapped m' e) \<Rightarrow> Inl (Wrapped m e) | _ \<Rightarrow> r)"

fun working_state_of :: "string \<Rightarrow> working_state option" where
  "working_state_of s = (if s = ''active'' then Some WorkingActive else if s = ''expired'' then Some WorkingExpired
     else if s = ''archived'' then Some WorkingArchived else None)"

definition import_working_set :: "portable_working_set \<Rightarrow> store \<Rightarrow> store result" where
  "import_working_set p st =
     (case working_state_of (pw_state p) of
        None \<Rightarrow> Inl (Wrapped ''import working set'' (ErrConstraint ''working_sets.state''))
      | Some s \<Rightarrow>
          bind_result (wrap_result ''import working set''
            (insert_row ''working_sets''
              (ws_id (pw_set p) \<in> (ws_id \<circ> wr_set) ` set (st_working_sets st) \<or>
               (sc_namespace (ws_scope (pw_set p)), ws_task_id (pw_set p)) \<in>
                 (\<lambda>r. (sc_namespace (ws_scope (wr_set r)), ws_task_id (wr_set r))) ` set (st_working_sets st))
              \<lparr>wr_set = pw_set p, wr_state = s\<rparr> (st_working_sets st)))
            (\<lambda>rows. Inr (st\<lparr>st_working_sets := rows\<rparr>)))"

definition import_episode :: "portable_episode \<Rightarrow> store \<Rightarrow> store result" where
  "import_episode e st =
     bind_result
      (wrap_result ''import episode''
        (insert_row ''episodes.id'' (pe_id e \<in> es_id ` set (st_episodes st))
          \<lparr>es_id = pe_id e, es_namespace = pe_namespace e, es_subject = pe_subject e, es_task = pe_task e,
           es_observation_ids = pe_observation_ids e, es_started_at = pe_started_at e, es_ended_at = pe_ended_at e\<rparr>
          (st_episodes st)))
      (\<lambda>rows. fold_result (\<lambda>oc st. rewrap ''import outcome'' (insert_outcome oc st)) (pe_outcomes e)
        (st\<lparr>st_episodes := rows\<rparr>))"

definition import_memory :: "portable_memory \<Rightarrow> store \<Rightarrow> store result" where
  "import_memory p st =
     bind_result
      (wrap_result ''import memory''
        (insert_row ''memories.id'' (me_id (pm_memory p) \<in> me_id ` set (st_memories st)) (pm_memory p) (st_memories st)))
      (\<lambda>rows. Inr (st\<lparr>st_memories := rows\<rparr>))"

definition insert_portable_version :: "memory_version \<Rightarrow> store \<Rightarrow> store result" where
  "insert_portable_version v st =
     guard_check (encode_version v) (rewrap ''import memory version'' (insert_version_row v st))"

definition import_edges :: "memory \<Rightarrow> memory_version \<Rightarrow> store \<Rightarrow> store result" where
  "import_edges m v st =
     bind_result (fold_result (\<lambda>parent st. rewrap ''import dependency'' (insert_dependency (mv_id v) parent st))
       (mv_derived_from v) st)
     (\<lambda>st. Inr (if me_state m \<noteq> MemoryForgotten \<and> mv_state v \<noteq> VersionForgotten then index_version m v st else st))"

definition import_subject_rows :: "subject_export \<Rightarrow> store \<Rightarrow> store result" where
  "import_subject_rows x st =
     bind_result (fold_result (\<lambda>ob st. wrap_result ''import observation'' (insert_observation ob (sx_exported_at x) st))
       (sx_observations x) st) (\<lambda>st.
     bind_result (fold_result import_working_set (sx_working_sets x) st) (\<lambda>st.
     bind_result (fold_result import_episode (sx_episodes x) st) (\<lambda>st.
     bind_result (fold_result import_memory (sx_memories x) st) (\<lambda>st.
     bind_result (fold_result (\<lambda>p. fold_result insert_portable_version (pm_versions p)) (sx_memories x) st)
       (fold_result (\<lambda>p. fold_result (import_edges (pm_memory p)) (pm_versions p)) (sx_memories x))))))"

text \<open>\<open>PRAGMA foreign_key_check\<close>\<close>

definition foreign_keys_ok :: "store \<Rightarrow> bool" where
  "foreign_keys_ok st \<longleftrightarrow>
     list_all (\<lambda>v. mv_memory_id v \<in> me_id ` set (st_memories st)) (st_versions st) \<and>
     list_all (\<lambda>(p, c). p \<in> mv_id ` set (st_versions st) \<and> c \<in> mv_id ` set (st_versions st)) (st_dependencies st) \<and>
     list_all (\<lambda>e. eb_version e \<in> mv_id ` set (st_versions st)) (st_embeddings st) \<and>
     list_all (\<lambda>oc. oc_episode_id oc \<in> es_id ` set (st_episodes st)) (st_outcomes st) \<and>
     list_all (\<lambda>f. fb_version f \<in> mv_id ` set (st_versions st) \<and>
       uf_trace_id (fb_feedback f) \<in> rt_id ` set (st_traces st)) (st_feedback st) \<and>
     list_all (\<lambda>r. rw_observation_id r \<in> (ob_id \<circ> fst) ` set (st_observations st) \<and>
       rw_job_id r \<in> jb_id ` set (st_jobs st)) (st_receipts st)"

definition has_portable_data :: "store \<Rightarrow> bool" where
  "has_portable_data st \<longleftrightarrow> st_observations st \<noteq> [] \<or> st_episodes st \<noteq> [] \<or> st_working_sets st \<noteq> [] \<or>
     st_memories st \<noteq> [] \<or> st_operations st \<noteq> [] \<or> st_traces st \<noteq> [] \<or> st_jobs st \<noteq> [] \<or>
     st_artifact_refs st \<noteq> [] \<or> st_purge_receipts st \<noteq> [] \<or> st_tokens st \<noteq> [] \<or> st_receipts st \<noteq> []"

record import_result =
  ir_dry_run :: bool
  ir_backup_path :: string
  ir_observations :: nat
  ir_episodes :: nat
  ir_outcomes :: nat
  ir_working_sets :: nat
  ir_memories :: nat
  ir_versions :: nat

definition import_counts :: "subject_export \<Rightarrow> bool \<Rightarrow> import_result" where
  "import_counts x dry = \<lparr>ir_dry_run = dry, ir_backup_path = '''', ir_observations = length (sx_observations x),
     ir_episodes = length (sx_episodes x), ir_outcomes = sum_list (map (length \<circ> pe_outcomes) (sx_episodes x)),
     ir_working_sets = length (sx_working_sets x), ir_memories = length (sx_memories x),
     ir_versions = sum_list (map (length \<circ> pm_versions) (sx_memories x))\<rparr>"

text \<open>
  \<open>ImportSubject\<close>: \<open>path\<close> is the path of the backup, \<open>backup\<close> the outcome of writing it and
  \<open>integrity\<close> the outcome of the database validation after the commit.
\<close>

definition import_subject ::
  "string \<Rightarrow> check \<Rightarrow> check \<Rightarrow> subject_export \<Rightarrow> bool \<Rightarrow> store \<Rightarrow> store \<times> import_result \<times> check" where
  "import_subject path backup integrity unsorted dry st =
     (let x = sort_subject_export unsorted;
          saved = (\<not> dry \<and> has_portable_data st);
          r = import_counts unsorted dry;
          r' = (if saved then r\<lparr>ir_backup_path := path\<rparr> else r) in
      case wrap_check ''validate subject import'' (export_validate x) of
        Some e \<Rightarrow> (st, r, Some e)
      | None \<Rightarrow>
          case (if saved then wrap_check ''pre-import backup'' backup else None) of
            Some e \<Rightarrow> (st, r', Some e)
          | None \<Rightarrow>
              case import_subject_rows x st of
                Inl e \<Rightarrow> (st, r', Some e)
              | Inr st' \<Rightarrow>
                  if \<not> foreign_keys_ok st' then (st, r', Some (Errorf ''subject import created a foreign key violation''))
                  else if dry then (st, r', None)
                  else (st', r', wrap_check ''validate imported database'' integrity))"

end
