(* ===== verification/PortableImport.thy ===== *)
theory PortableImport
  imports Portable LifecycleLaws
begin

text \<open>
  What a valid bundle is, loop by loop, and the database that importing it into an empty
  one makes. The inserts succeed because the validation excludes every key they could
  violate; the cycle check gives that no version is its own parent.
\<close>

section \<open>What a valid bundle is\<close>

lemma scan_keys_None [simp, result_simps]:
  "scan_keys pre key dup post seen xs = None \<longleftrightarrow>
     (\<forall>x \<in> set xs. pre x = None \<and> post x = None) \<and> distinct (map key xs) \<and> key ` set xs \<inter> set seen = {}"
  by (induction xs arbitrary: seen) auto

definition episode_fits :: "subject_export \<Rightarrow> portable_episode \<Rightarrow> bool" where
  "episode_fits x e \<longleftrightarrow> pe_id e \<noteq> '''' \<and> pe_namespace e = sx_namespace x \<and> pe_subject e = sx_subject x \<and>
     content_validate (pe_task e) = None \<and> pe_started_at e \<noteq> 0 \<and> pe_started_at e < pe_ended_at e \<and>
     set (pe_observation_ids e) \<subseteq> ob_id ` set (sx_observations x) \<and>
     (\<forall>oc \<in> set (pe_outcomes e). outcome_validate oc = None \<and> oc_episode_id oc = pe_id e)"

abbreviation outcome_ids :: "portable_episode list \<Rightarrow> ident list" where
  "outcome_ids es \<equiv> concat (map (\<lambda>e. map oc_id (pe_outcomes e)) es)"

lemma episodes_check_Cons:
  "episodes_check x seen ocs (e # es) = None \<longleftrightarrow>
     episode_fits x e \<and> pe_id e \<notin> set seen \<and> distinct (map oc_id (pe_outcomes e)) \<and>
     oc_id ` set (pe_outcomes e) \<inter> set ocs = {} \<and>
     episodes_check x (pe_id e # seen) (map oc_id (pe_outcomes e) @ ocs) es = None"
  by (auto simp: episode_fits_def is_zero_time_def)

lemma episodes_check_None [simp]:
  "episodes_check x seen ocs es = None \<longleftrightarrow>
     (\<forall>e \<in> set es. episode_fits x e) \<and> distinct (map pe_id es) \<and> pe_id ` set es \<inter> set seen = {} \<and>
     distinct (outcome_ids es) \<and> set (outcome_ids es) \<inter> set ocs = {}"
proof (induction es arbitrary: seen ocs)
  case (Cons e es)
  show ?case
    unfolding episodes_check_Cons Cons.IH by (simp add: Int_Un_distrib Int_Un_distrib2 Int_commute) (simp only: conj_ac)
qed simp

lemma versions_check_None [simp]:
  "versions_check m ids nums vs = None \<longleftrightarrow>
     (\<forall>v \<in> set vs. mv_memory_id v = me_id m \<and> version_validate (me_function m) v = None) \<and>
     distinct (map mv_id vs) \<and> mv_id ` set vs \<inter> set ids = {} \<and>
     distinct (map mv_number vs) \<and> mv_number ` set vs \<inter> set nums = {}"
proof (induction vs arbitrary: ids nums)
  case (Cons v vs)
  show ?case
    unfolding versions_check.simps first_error_None by (auto simp: Cons.IH)
qed simp

definition memory_bundle_fits :: "subject_export \<Rightarrow> portable_memory \<Rightarrow> bool" where
  "memory_bundle_fits x p \<longleftrightarrow> memory_validate (pm_memory p) = None \<and> export_scope_check x (me_scope (pm_memory p)) = None \<and>
     pm_versions p \<noteq> [] \<and> (\<forall>v \<in> set (pm_versions p). mv_memory_id v = me_id (pm_memory p) \<and>
       version_validate (me_function (pm_memory p)) v = None) \<and> distinct (map mv_number (pm_versions p)) \<and>
     me_current_version (pm_memory p) \<in> mv_number ` set (pm_versions p)"

lemma memories_check_Cons:
  "memories_check x seen ids (p # ps) = None \<longleftrightarrow>
     memory_bundle_fits x p \<and> me_id (pm_memory p) \<notin> set seen \<and>
     distinct (map mv_id (pm_versions p)) \<and> mv_id ` set (pm_versions p) \<inter> set ids = {} \<and>
     memories_check x (me_id (pm_memory p) # seen) (map mv_id (pm_versions p) @ ids) ps = None"
  by (auto simp: memory_bundle_fits_def)

lemma memories_check_None [simp]:
  "memories_check x seen ids ps = None \<longleftrightarrow>
     (\<forall>p \<in> set ps. memory_bundle_fits x p) \<and> distinct (map (\<lambda>p. me_id (pm_memory p)) ps) \<and>
     (\<lambda>p. me_id (pm_memory p)) ` set ps \<inter> set seen = {} \<and>
     distinct (concat (map (\<lambda>p. map mv_id (pm_versions p)) ps)) \<and>
     (\<Union>p \<in> set ps. mv_id ` set (pm_versions p)) \<inter> set ids = {}"
proof (induction ps arbitrary: seen ids)
  case (Cons p ps)
  show ?case
    unfolding memories_check_Cons Cons.IH by (simp add: Int_Un_distrib Int_Un_distrib2 Int_commute) (simp only: conj_ac)
qed simp

lemma export_scope_check_None:
  "scope_validate s = None \<Longrightarrow> export_scope_check x s = None \<longleftrightarrow>
     sc_namespace s = sx_namespace x \<and> sc_subject s = sx_subject x \<and>
     (sc_visibility s = VisibilityPrivate \<and> sc_owner s \<in> set (sx_private_owners x) \<or>
      sc_visibility s = VisibilityShared \<and> sx_include_shared x \<or> sc_visibility s = VisibilityPublic \<and> sx_include_public x)"
  by (cases "sc_visibility s") (auto simp: export_scope_check_def known_visibility_def)

lemma export_parents_key: "export_parents x i \<noteq> [] \<Longrightarrow> i \<in> set (map mv_id (export_versions x))"
  by (auto simp: export_parents_def dest: find_row_SomeD split: option.splits)

lemma graph_check_None: "graph_check x = None \<longleftrightarrow> acyclic (derives (export_parents x))"
  using dependency_graph_verdict [of "export_parents x" "map mv_id (export_versions x)"] export_parents_key [of x]
  by (auto simp: graph_check_def)

lemma versions_distinct: "memories_check x seen ids ps = None \<Longrightarrow> distinct (map mv_id (concat (map pm_versions ps)))"
  by (simp add: map_concat comp_def)

lemma export_parents_version:
  assumes "distinct (map mv_id (export_versions x))" and "v \<in> set (export_versions x)"
  shows "export_parents x (mv_id v) = mv_derived_from v"
  using assms by (simp add: export_parents_def find_row_distinct)

text \<open>No version of a valid bundle derives from itself, through any number of steps.\<close>

lemma bundle_no_self_parent:
  assumes "export_validate x = None" and "v \<in> set (export_versions x)"
  shows "mv_id v \<notin> set (mv_derived_from v)"
proof
  assume self: "mv_id v \<in> set (mv_derived_from v)"
  have valid: "memories_check x [] [] (sx_memories x) = None" "graph_check x = None"
    using assms(1) unfolding export_validate_def first_error_None by simp_all
  have "export_parents x (mv_id v) = mv_derived_from v"
    using versions_distinct [OF valid(1)] assms(2) by (intro export_parents_version) (simp_all add: export_versions_def)
  with self have "(mv_id v, mv_id v) \<in> derives (export_parents x)" by (simp add: derives_def)
  then show False using valid(2) unfolding graph_check_None acyclic_def by blast
qed


section \<open>The database an import makes\<close>

lemma fold_result_append:
  "fold_result f (xs @ ys) s = bind_result (fold_result f xs s) (fold_result f ys)"
  by (induction xs arbitrary: s) (auto simp: bind_result_def split: sum.splits)

lemma fold_result_nested:
  "fold_result (\<lambda>p. fold_result f (g p)) ps s = fold_result f (concat (map g ps)) s"
  by (induction ps arbitrary: s) (auto simp: fold_result_append bind_result_def split: sum.splits)

lemma fold_result_pairs: "fold_result (\<lambda>(m, v). f m v) (map (Pair m) vs) s = fold_result (f m) vs s"
  by (induction vs arbitrary: s) (auto simp: bind_result_def split: sum.splits)

lemma rewrap_Inr [simp]: "rewrap m (Inr y) = Inr y"
  by (simp add: rewrap_def)

lemma import_observations:
  assumes "\<forall>ob \<in> set obs. observation_validate ob = None" and "distinct (map ob_id obs)"
    and "ob_id ` set obs \<inter> (ob_id \<circ> fst) ` set (st_observations st) = {}"
  shows "fold_result (\<lambda>ob st. wrap_result m (insert_observation ob t st)) obs st =
    Inr (st\<lparr>st_observations := st_observations st @ map (\<lambda>ob. (ob, t)) obs\<rparr>)"
  using assms
proof (induction obs arbitrary: st)
  case (Cons ob obs)
  then have "insert_observation ob t st = Inr (st\<lparr>st_observations := st_observations st @ [(ob, t)]\<rparr>)"
    by (simp add: insert_observation_def insert_row_def wrap_check_def)
  then show ?case using Cons.prems Cons.IH [of "st\<lparr>st_observations := st_observations st @ [(ob, t)]\<rparr>"] by simp
qed simp

definition working_key :: "working_set \<Rightarrow> ident \<times> ident" where
  "working_key s = (sc_namespace (ws_scope s), ws_task_id s)"

definition working_row_of :: "portable_working_set \<Rightarrow> working_row" where
  "working_row_of p = \<lparr>wr_set = pw_set p, wr_state = the (working_state_of (pw_state p))\<rparr>"

lemma import_working_sets:
  assumes "\<forall>p \<in> set ps. working_state_of (pw_state p) \<noteq> None"
    and "distinct (map (\<lambda>p. ws_id (pw_set p)) ps)" and "distinct (map (\<lambda>p. working_key (pw_set p)) ps)"
    and "(\<lambda>p. ws_id (pw_set p)) ` set ps \<inter> (\<lambda>r. ws_id (wr_set r)) ` set (st_working_sets st) = {}"
    and "(\<lambda>p. working_key (pw_set p)) ` set ps \<inter> (\<lambda>r. working_key (wr_set r)) ` set (st_working_sets st) = {}"
  shows "fold_result import_working_set ps st = Inr (st\<lparr>st_working_sets := st_working_sets st @ map working_row_of ps\<rparr>)"
  using assms
proof (induction ps arbitrary: st)
  case (Cons p ps)
  then have "import_working_set p st = Inr (st\<lparr>st_working_sets := st_working_sets st @ [working_row_of p]\<rparr>)"
    by (auto simp: import_working_set_def insert_row_def working_row_of_def working_key_def comp_def
        simp del: working_state_of.simps)
  then show ?case
    using Cons.prems Cons.IH [of "st\<lparr>st_working_sets := st_working_sets st @ [working_row_of p]\<rparr>"]
    by (simp add: working_row_of_def del: working_state_of.simps)
qed simp

definition episode_row_of :: "portable_episode \<Rightarrow> episode_row" where
  "episode_row_of e = \<lparr>es_id = pe_id e, es_namespace = pe_namespace e, es_subject = pe_subject e, es_task = pe_task e,
     es_observation_ids = pe_observation_ids e, es_started_at = pe_started_at e, es_ended_at = pe_ended_at e\<rparr>"

lemma import_outcomes:
  assumes "\<forall>oc \<in> set ocs. oc_episode_id oc \<in> es_id ` set (st_episodes st) \<and> oc_value oc \<noteq> NaN"
    and "distinct (map oc_id ocs)" and "oc_id ` set ocs \<inter> oc_id ` set (st_outcomes st) = {}"
  shows "fold_result (\<lambda>oc st. rewrap m (insert_outcome oc st)) ocs st = Inr (st\<lparr>st_outcomes := st_outcomes st @ ocs\<rparr>)"
  using assms
proof (induction ocs arbitrary: st)
  case (Cons oc ocs)
  then have "insert_outcome oc st = Inr (st\<lparr>st_outcomes := st_outcomes st @ [oc]\<rparr>)"
    by (simp add: insert_outcome_def insert_row_def)
  then show ?case using Cons.prems Cons.IH [of "st\<lparr>st_outcomes := st_outcomes st @ [oc]\<rparr>"] by simp
qed simp

lemma import_episodes:
  assumes "\<forall>e \<in> set es. \<forall>oc \<in> set (pe_outcomes e). oc_episode_id oc = pe_id e \<and> oc_value oc \<noteq> NaN"
    and "distinct (map pe_id es)" and "pe_id ` set es \<inter> es_id ` set (st_episodes st) = {}"
    and "distinct (outcome_ids es)" and "set (outcome_ids es) \<inter> oc_id ` set (st_outcomes st) = {}"
  shows "fold_result import_episode es st = Inr (st\<lparr>st_episodes := st_episodes st @ map episode_row_of es,
     st_outcomes := st_outcomes st @ concat (map pe_outcomes es)\<rparr>)"
  using assms
proof (induction es arbitrary: st)
  case (Cons e es)
  let ?st = "st\<lparr>st_episodes := st_episodes st @ [episode_row_of e]\<rparr>"
  have "fold_result (\<lambda>oc st. rewrap ''import outcome'' (insert_outcome oc st)) (pe_outcomes e) ?st =
      Inr (?st\<lparr>st_outcomes := st_outcomes ?st @ pe_outcomes e\<rparr>)"
    by (rule import_outcomes) (use Cons.prems in \<open>auto simp: episode_row_of_def\<close>)
  then have "import_episode e st = Inr (?st\<lparr>st_outcomes := st_outcomes st @ pe_outcomes e\<rparr>)"
    using Cons.prems by (simp add: import_episode_def insert_row_def episode_row_of_def)
  moreover have "fold_result import_episode es (?st\<lparr>st_outcomes := st_outcomes st @ pe_outcomes e\<rparr>) =
      Inr (?st\<lparr>st_episodes := st_episodes ?st @ map episode_row_of es,
        st_outcomes := (st_outcomes st @ pe_outcomes e) @ concat (map pe_outcomes es)\<rparr>)"
  proof (subst Cons.IH)
    show "set (outcome_ids es) \<inter> oc_id ` set (st_outcomes (?st\<lparr>st_outcomes := st_outcomes st @ pe_outcomes e\<rparr>)) = {}"
      using Cons.prems(4,5) by (simp add: image_Un Int_Un_distrib Int_Un_distrib2 Int_commute)
  qed (use Cons.prems in \<open>auto simp: episode_row_of_def\<close>)
  ultimately show ?case by simp
qed simp

lemma import_memories:
  assumes "distinct (map (\<lambda>p. me_id (pm_memory p)) ps)"
    and "(\<lambda>p. me_id (pm_memory p)) ` set ps \<inter> me_id ` set (st_memories st) = {}"
  shows "fold_result import_memory ps st = Inr (st\<lparr>st_memories := st_memories st @ map pm_memory ps\<rparr>)"
  using assms
proof (induction ps arbitrary: st)
  case (Cons p ps)
  then have "import_memory p st = Inr (st\<lparr>st_memories := st_memories st @ [pm_memory p]\<rparr>)"
    by (simp add: import_memory_def insert_row_def)
  then show ?case using Cons.prems Cons.IH [of "st\<lparr>st_memories := st_memories st @ [pm_memory p]\<rparr>"] by simp
qed simp


lemma import_versions:
  assumes "\<forall>v \<in> set vs. encode_version v = None \<and> mv_memory_id v \<in> me_id ` set (st_memories st)"
    and "distinct (map mv_id vs)" and "distinct (map (\<lambda>v. (mv_memory_id v, mv_number v)) vs)"
    and "mv_id ` set vs \<inter> mv_id ` set (st_versions st) = {}"
    and "(\<lambda>v. (mv_memory_id v, mv_number v)) ` set vs \<inter> (\<lambda>v. (mv_memory_id v, mv_number v)) ` set (st_versions st) = {}"
  shows "fold_result insert_portable_version vs st = Inr (st\<lparr>st_versions := st_versions st @ vs\<rparr>)"
  using assms
proof (induction vs arbitrary: st)
  case (Cons v vs)
  then have "insert_portable_version v st = Inr (st\<lparr>st_versions := st_versions st @ [v]\<rparr>)"
    by (auto simp: insert_portable_version_def insert_version_row_def insert_row_def guard_check_pass)
  then show ?case using Cons.prems Cons.IH [of "st\<lparr>st_versions := st_versions st @ [v]\<rparr>"] by simp
qed simp

definition indexed :: "memory \<times> memory_version \<Rightarrow> fts_row list" where
  "indexed r = (if me_state (fst r) \<noteq> MemoryForgotten \<and> mv_state (snd r) \<noteq> VersionForgotten
     then [\<lparr>fx_version = mv_id (snd r), fx_memory = me_id (fst r), fx_namespace = sc_namespace (me_scope (fst r)),
       fx_text = memory_text (mv_payload (snd r))\<rparr>] else [])"

definition edges_of :: "memory_version \<Rightarrow> edges" where
  "edges_of v = map (\<lambda>p. (p, mv_id v)) (mv_derived_from v)"

lemma import_dependencies:
  assumes "\<forall>p \<in> set ps. p \<noteq> c \<and> p \<in> mv_id ` set (st_versions st) \<and> (p, c) \<notin> set (st_dependencies st)"
    and "distinct ps" and "c \<in> mv_id ` set (st_versions st)"
  shows "fold_result (\<lambda>p st. rewrap m (insert_dependency c p st)) ps st =
    Inr (st\<lparr>st_dependencies := st_dependencies st @ map (\<lambda>p. (p, c)) ps\<rparr>)"
  using assms
proof (induction ps arbitrary: st)
  case (Cons p ps)
  then have "insert_dependency c p st = Inr (st\<lparr>st_dependencies := st_dependencies st @ [(p, c)]\<rparr>)"
    by (auto simp: insert_dependency_def insert_row_def)
  then show ?case using Cons.prems Cons.IH [of "st\<lparr>st_dependencies := st_dependencies st @ [(p, c)]\<rparr>"] by auto
qed simp

lemma disjoint_insert_mono: "C \<subseteq> insert a B \<Longrightarrow> a \<notin> A \<Longrightarrow> A \<inter> B = {} \<Longrightarrow> A \<inter> C = {}"
  by blast

lemma import_all_edges:
  assumes "\<forall>(m, v) \<in> set rs. distinct (mv_derived_from v) \<and> mv_id v \<notin> set (mv_derived_from v) \<and>
      set (mv_id v # mv_derived_from v) \<subseteq> mv_id ` set (st_versions st)"
    and "distinct (map (mv_id \<circ> snd) rs)" and "(mv_id \<circ> snd) ` set rs \<inter> snd ` set (st_dependencies st) = {}"
  shows "fold_result (\<lambda>(m, v). import_edges m v) rs st = Inr (st\<lparr>
     st_dependencies := st_dependencies st @ concat (map (edges_of \<circ> snd) rs),
     st_fts := st_fts st @ concat (map indexed rs)\<rparr>)"
  using assms
proof (induction rs arbitrary: st)
  case (Cons r rs)
  obtain m v where r: "r = (m, v)" by force
  let ?st = "st\<lparr>st_dependencies := st_dependencies st @ edges_of v, st_fts := st_fts st @ indexed (m, v)\<rparr>"
  have "fold_result (\<lambda>p st. rewrap ''import dependency'' (insert_dependency (mv_id v) p st)) (mv_derived_from v) st =
      Inr (st\<lparr>st_dependencies := st_dependencies st @ map (\<lambda>p. (p, mv_id v)) (mv_derived_from v)\<rparr>)"
  proof (rule import_dependencies)
    have "mv_id v \<notin> snd ` set (st_dependencies st)" using Cons.prems(3) by (auto simp: r)
    then have "(p, mv_id v) \<notin> set (st_dependencies st)" for p by force
    then show "\<forall>p \<in> set (mv_derived_from v). p \<noteq> mv_id v \<and> p \<in> mv_id ` set (st_versions st) \<and>
        (p, mv_id v) \<notin> set (st_dependencies st)"
      using Cons.prems(1) by (auto simp: r)
  qed (use Cons.prems(1) in \<open>simp_all add: r\<close>)
  then have step: "import_edges m v st = Inr ?st"
    by (simp add: import_edges_def edges_of_def indexed_def index_version_def)
  have "snd ` set (st_dependencies ?st) \<subseteq> insert (mv_id v) (snd ` set (st_dependencies st))"
    by (auto simp: edges_of_def)
  moreover have "mv_id v \<notin> (mv_id \<circ> snd) ` set rs" using Cons.prems(2) by (simp add: r)
  ultimately have "(mv_id \<circ> snd) ` set rs \<inter> snd ` set (st_dependencies ?st) = {}"
    by (rule disjoint_insert_mono) (use Cons.prems(3) in simp)
  then have "fold_result (\<lambda>(m, v). import_edges m v) rs ?st = Inr (?st\<lparr>
     st_dependencies := st_dependencies ?st @ concat (map (edges_of \<circ> snd) rs),
     st_fts := st_fts ?st @ concat (map indexed rs)\<rparr>)"
    using Cons.prems(1,2) by (intro Cons.IH) (simp_all add: r)
  then show ?case using step by (simp add: r comp_def)
qed simp


definition bundle_rows :: "portable_memory list \<Rightarrow> (memory \<times> memory_version) list" where
  "bundle_rows ps = concat (map (\<lambda>p. map (Pair (pm_memory p)) (pm_versions p)) ps)"

definition imported :: "subject_export \<Rightarrow> store" where
  "imported x = empty_store\<lparr>
     st_observations := map (\<lambda>ob. (ob, sx_exported_at x)) (sx_observations x),
     st_working_sets := map working_row_of (sx_working_sets x),
     st_episodes := map episode_row_of (sx_episodes x), st_outcomes := concat (map pe_outcomes (sx_episodes x)),
     st_memories := map pm_memory (sx_memories x), st_versions := export_versions x,
     st_dependencies := concat (map (edges_of \<circ> snd) (bundle_rows (sx_memories x))),
     st_fts := concat (map indexed (bundle_rows (sx_memories x)))\<rparr>"

text \<open>What the columns ask of a bundle beyond its validation.\<close>

definition importable :: "subject_export \<Rightarrow> bool" where
  "importable x \<longleftrightarrow> distinct (map (\<lambda>p. working_key (pw_set p)) (sx_working_sets x)) \<and>
     (\<forall>e \<in> set (sx_episodes x). \<forall>oc \<in> set (pe_outcomes e). oc_value oc \<noteq> NaN) \<and>
     (\<forall>v \<in> set (export_versions x). encode_version v = None \<and> distinct (mv_derived_from v))"

lemma export_validate_parts:
  assumes "export_validate x = None"
  shows "\<forall>ob \<in> set (sx_observations x). observation_validate ob = None \<and> export_scope_check x (ob_scope ob) = None"
    and "distinct (map ob_id (sx_observations x))"
    and "\<forall>e \<in> set (sx_episodes x). episode_fits x e" and "distinct (map pe_id (sx_episodes x))"
    and "distinct (outcome_ids (sx_episodes x))"
    and "\<forall>p \<in> set (sx_working_sets x). working_set_validate (pw_set p) = None \<and> export_scope_check x (ws_scope (pw_set p)) = None"
    and "\<forall>p \<in> set (sx_working_sets x). working_state_of (pw_state p) \<noteq> None"
    and "distinct (map (\<lambda>p. ws_id (pw_set p)) (sx_working_sets x))"
    and "\<forall>p \<in> set (sx_memories x). memory_bundle_fits x p"
    and "distinct (map (\<lambda>p. me_id (pm_memory p)) (sx_memories x))"
    and "distinct (map mv_id (export_versions x))"
    and "\<forall>p \<in> set (sx_memories x). \<forall>v \<in> set (pm_versions p). references_check x (pm_memory p) v = None"
  using assms unfolding export_validate_def first_error_None observations_check_def working_sets_check_def export_versions_def
  by (simp_all add: comp_def map_concat) auto

lemma snd_bundle_rows: "map snd (bundle_rows ps) = concat (map pm_versions ps)"
  by (simp add: bundle_rows_def map_concat comp_def)

lemma set_bundle_rows: "(m, v) \<in> set (bundle_rows ps) \<longleftrightarrow> (\<exists>p \<in> set ps. m = pm_memory p \<and> v \<in> set (pm_versions p))"
  by (auto simp: bundle_rows_def)

lemma references_within:
  assumes "references_check x m v = None"
  shows "set (mv_derived_from v) \<subseteq> mv_id ` set (export_versions x)"
  using assms unfolding references_check_def first_error_None by auto

lemma distinct_version_numbers:
  assumes "export_validate x = None"
  shows "distinct (map (\<lambda>v. (mv_memory_id v, mv_number v)) (export_versions x))"
proof -
  note parts = export_validate_parts [OF assms]
  have "distinct (map (\<lambda>v. (mv_memory_id v, mv_number v)) (concat (map pm_versions ps)))"
    if "\<forall>p \<in> set ps. memory_bundle_fits x p" "distinct (map (\<lambda>p. me_id (pm_memory p)) ps)" for ps
    using that
  proof (induction ps)
    case (Cons p ps)
    have own: "distinct (map (\<lambda>v. (mv_memory_id v, mv_number v)) (pm_versions p))"
      using Cons.prems(1) by (auto simp: memory_bundle_fits_def distinct_map inj_on_def)
    have "mv_memory_id v = me_id (pm_memory p)" if "v \<in> set (pm_versions p)" for v
      using Cons.prems(1) that by (simp add: memory_bundle_fits_def)
    moreover have "mv_memory_id w \<noteq> me_id (pm_memory p)" if "w \<in> set (concat (map pm_versions ps))" for w
      using Cons.prems that by (auto simp: memory_bundle_fits_def image_iff)
    ultimately show ?case using own Cons.IH Cons.prems by (auto simp: image_iff) metis
  qed simp
  then show ?thesis using parts unfolding export_versions_def by blast
qed


text \<open>Into an empty database a valid bundle is imported as it stands.\<close>

lemma import_into_empty:
  assumes valid: "export_validate x = None" and cols: "importable x"
  shows "import_subject_rows x empty_store = Inr (imported x)" and "foreign_keys_ok (imported x)"
proof -
  note parts = export_validate_parts [OF valid]
  let ?s1 = "empty_store\<lparr>st_observations := map (\<lambda>ob. (ob, sx_exported_at x)) (sx_observations x)\<rparr>"
  let ?s2 = "?s1\<lparr>st_working_sets := map working_row_of (sx_working_sets x)\<rparr>"
  let ?s3 = "?s2\<lparr>st_episodes := map episode_row_of (sx_episodes x), st_outcomes := concat (map pe_outcomes (sx_episodes x))\<rparr>"
  let ?s4 = "?s3\<lparr>st_memories := map pm_memory (sx_memories x)\<rparr>"
  let ?s5 = "?s4\<lparr>st_versions := export_versions x\<rparr>"
  have own: "mv_memory_id v \<in> me_id ` pm_memory ` set (sx_memories x)" if "v \<in> set (export_versions x)" for v
    using parts(9) that by (auto simp: export_versions_def memory_bundle_fits_def)
  have 1: "fold_result (\<lambda>ob st. wrap_result ''import observation'' (insert_observation ob (sx_exported_at x) st))
      (sx_observations x) empty_store = Inr ?s1"
    using parts(1,2) by (subst import_observations) (simp_all add: empty_store_def)
  have 2: "fold_result import_working_set (sx_working_sets x) ?s1 = Inr ?s2"
    using parts(7,8) cols by (subst import_working_sets) (simp_all add: empty_store_def importable_def del: working_state_of.simps)
  have 3: "fold_result import_episode (sx_episodes x) ?s2 = Inr ?s3"
    using parts(3-5) cols by (subst import_episodes) (auto simp: empty_store_def importable_def episode_fits_def)
  have 4: "fold_result import_memory (sx_memories x) ?s3 = Inr ?s4"
    using parts(10) by (subst import_memories) (simp_all add: empty_store_def)
  have 5: "fold_result (\<lambda>p. fold_result insert_portable_version (pm_versions p)) (sx_memories x) ?s4 = Inr ?s5"
  proof -
    have "fold_result (\<lambda>p. fold_result insert_portable_version (pm_versions p)) (sx_memories x) ?s4 =
        fold_result insert_portable_version (export_versions x) ?s4"
      by (simp add: fold_result_nested export_versions_def)
    also have "\<dots> = Inr ?s5"
      using parts(11) own distinct_version_numbers [OF valid] cols
      by (subst import_versions) (simp_all add: empty_store_def importable_def)
    finally show ?thesis .
  qed
  have edges: "\<forall>(m, v) \<in> set (bundle_rows (sx_memories x)). distinct (mv_derived_from v) \<and>
      mv_id v \<notin> set (mv_derived_from v) \<and> set (mv_id v # mv_derived_from v) \<subseteq> mv_id ` set (export_versions x)"
  proof (intro ballI, clarify)
    fix m v
    assume row: "(m, v) \<in> set (bundle_rows (sx_memories x))"
    then have v: "v \<in> set (export_versions x)" by (auto simp: set_bundle_rows export_versions_def)
    from row parts(12) have "references_check x m v = None" by (auto simp: set_bundle_rows)
    from references_within [OF this] v bundle_no_self_parent [OF valid v] cols
    show "distinct (mv_derived_from v) \<and> mv_id v \<notin> set (mv_derived_from v) \<and>
        set (mv_id v # mv_derived_from v) \<subseteq> mv_id ` set (export_versions x)"
      by (simp add: importable_def)
  qed
  have "map (mv_id \<circ> snd) (bundle_rows (sx_memories x)) = map mv_id (export_versions x)"
    using arg_cong [OF snd_bundle_rows, of "map mv_id"] by (simp add: export_versions_def)
  then have ids: "distinct (map (mv_id \<circ> snd) (bundle_rows (sx_memories x)))" using parts(11) by simp
  have 6: "fold_result (\<lambda>p. fold_result (import_edges (pm_memory p)) (pm_versions p)) (sx_memories x) ?s5 = Inr (imported x)"
  proof -
    have "fold_result (\<lambda>p. fold_result (import_edges (pm_memory p)) (pm_versions p)) ps s =
        fold_result (\<lambda>(m, v). import_edges m v) (bundle_rows ps) s" for ps s
      unfolding bundle_rows_def fold_result_nested [symmetric] fold_result_pairs ..
    then show ?thesis
      using edges ids by (simp add: import_all_edges imported_def empty_store_def)
  qed
  show "import_subject_rows x empty_store = Inr (imported x)"
    unfolding import_subject_rows_def by (simp add: 1 2 3 4 5 6)
  have within: "p \<in> mv_id ` set (export_versions x)" if "(m, v) \<in> set (bundle_rows (sx_memories x))" "p \<in> set (mv_derived_from v)" for m v p
    using edges that by fastforce
  show "foreign_keys_ok (imported x)"
    using own edges parts(3) within
    by (auto simp: foreign_keys_ok_def imported_def empty_store_def list_all_iff edges_of_def episode_fits_def image_image
        episode_row_of_def)
qed

end
