(* ===== verification/PortableProps.thy ===== *)
theory PortableProps
  imports PortableImport Purge Samples
begin

text \<open>
  The round trip of the subject bundle: a bundle is in normal order, the rows of the
  imported database are read back in that order, and the episodes an export looks for
  are the ones the bundle holds.
\<close>

section \<open>Normal order\<close>

definition version_order :: "memory_version \<Rightarrow> int \<times> ident" where
  "version_order v = (mv_number v, mv_id v)"

definition normal_order :: "subject_export \<Rightarrow> bool" where
  "normal_order x \<longleftrightarrow> sorted (sx_private_owners x) \<and> sorted (map ob_id (sx_observations x)) \<and>
     sorted (map pe_id (sx_episodes x)) \<and> (\<forall>e \<in> set (sx_episodes x). sorted (map oc_id (pe_outcomes e))) \<and>
     sorted (map (\<lambda>p. ws_id (pw_set p)) (sx_working_sets x)) \<and>
     sorted (map (\<lambda>p. me_id (pm_memory p)) (sx_memories x)) \<and>
     (\<forall>p \<in> set (sx_memories x). sorted (map version_order (pm_versions p)))"

lemma sort_subject_export_normal: "normal_order (sort_subject_export x)"
  unfolding normal_order_def sort_subject_export_def
  by (simp add: comp_def version_order_def [symmetric] sorted_sort_key [of "\<lambda>p. ws_id (pw_set p)"]
      sorted_sort_key [of "\<lambda>p. me_id (pm_memory p)"])

lemma sort_key_sorted: "sorted (map f xs) \<Longrightarrow> sort_key f xs = xs"
  by (induction xs) (auto simp: insort_is_Cons)

lemma sort_normal_order:
  assumes "normal_order x"
  shows "sort_subject_export x = x"
proof -
  have "map (\<lambda>e. e\<lparr>pe_outcomes := sort_key oc_id (pe_outcomes e)\<rparr>) (sx_episodes x) = sx_episodes x"
    using assms by (intro map_idI) (simp add: normal_order_def sort_key_sorted)
  moreover have "map (\<lambda>p. p\<lparr>pm_versions := sort_key version_order (pm_versions p)\<rparr>) (sx_memories x) = sx_memories x"
    using assms by (intro map_idI) (simp add: normal_order_def sort_key_sorted)
  ultimately show ?thesis
    using assms unfolding sort_subject_export_def version_order_def [symmetric]
    by (simp add: normal_order_def sort_key_sorted sorted_sort_id comp_def)
qed

section \<open>Grouping the rows of the join\<close>

lemma add_versions:
  assumes "p = \<lparr>pm_memory = m, pm_versions = us\<rparr>" and "me_id m \<notin> (\<lambda>p. me_id (pm_memory p)) ` set ps"
  shows "fold add_version_to (map (Pair m) vs) (ps @ [p]) = ps @ [\<lparr>pm_memory = m, pm_versions = us @ vs\<rparr>]"
  using assms(1)
proof (induction vs arbitrary: p us)
  case (Cons v vs)
  have "update_rows (\<lambda>p. me_id (pm_memory p) = me_id m) f ps = ps" for f
    unfolding update_rows_def using assms(2) by (intro map_idI) force
  then have "add_version_to (m, v) (ps @ [p]) = ps @ [\<lparr>pm_memory = m, pm_versions = us @ [v]\<rparr>]"
    using Cons.prems by (auto simp: add_version_to_def update_rows_def)
  then show ?case using Cons.IH [OF refl, of "us @ [v]"] by simp
qed simp

lemma group_rows:
  assumes "distinct (map (\<lambda>p. me_id (pm_memory p)) (qs @ ps))" and "\<forall>p \<in> set ps. pm_versions p \<noteq> []"
  shows "fold add_version_to (bundle_rows ps) qs = qs @ ps"
  using assms
proof (induction ps arbitrary: qs)
  case (Cons p ps)
  obtain v vs where v: "pm_versions p = v # vs" using Cons.prems(2) by (cases "pm_versions p") auto
  have fresh: "me_id (pm_memory p) \<notin> (\<lambda>p. me_id (pm_memory p)) ` set qs" using Cons.prems(1) by auto
  then have "add_version_to (pm_memory p, v) qs = qs @ [\<lparr>pm_memory = pm_memory p, pm_versions = [v]\<rparr>]"
    by (simp add: add_version_to_def comp_def)
  moreover have "fold add_version_to (map (Pair (pm_memory p)) vs) (qs @ [\<lparr>pm_memory = pm_memory p, pm_versions = [v]\<rparr>]) =
      qs @ [\<lparr>pm_memory = pm_memory p, pm_versions = [v] @ vs\<rparr>]"
    by (rule add_versions [OF refl fresh])
  moreover have "\<lparr>pm_memory = pm_memory p, pm_versions = [v] @ vs\<rparr> = p" using v by (cases p) simp
  ultimately have "fold add_version_to (map (Pair (pm_memory p)) (pm_versions p)) qs = qs @ [p]"
    using v by simp
  then show ?case using Cons.IH [of "qs @ [p]"] Cons.prems by (simp add: bundle_rows_def)
qed (simp add: bundle_rows_def)


section \<open>Reading the imported database back\<close>

definition exported_for :: "access_scope \<Rightarrow> ident \<Rightarrow> subject_export \<Rightarrow> bool" where
  "exported_for a subject x \<longleftrightarrow> sx_namespace x = ac_namespace a \<and> sx_subject x = subject \<and>
     set (sx_private_owners x) = set (ac_private_owners a) \<and> sx_include_shared x = ac_allow_shared a \<and>
     sx_include_public x = ac_allow_public a"

lemma scope_visible:
  "exported_for a subject x \<Longrightarrow> scope_validate s = None \<Longrightarrow>
     export_scope_check x s = None \<longleftrightarrow> portable_visible a subject s"
  by (auto simp: export_scope_check_None portable_visible_def visible_to_def exported_for_def simp del: scope_validate_None)

lemma working_state_text_of: "working_state_of s \<noteq> None \<Longrightarrow> working_state_text (the (working_state_of s)) = s"
  by (auto split: if_splits)

lemma memory_scope_valid: "memory_validate m = None \<Longrightarrow> scope_validate (me_scope m) = None"
  by (simp add: memory_validate_None)

lemma observation_scope_valid: "observation_validate ob = None \<Longrightarrow> scope_validate (ob_scope ob) = None"
  by (simp add: observation_validate_def)

lemma working_scope_valid: "working_set_validate w = None \<Longrightarrow> scope_validate (ws_scope w) = None"
  by (simp add: working_set_validate_def)

lemma sorted_bundle_rows:
  assumes "sorted (map (\<lambda>p. me_id (pm_memory p)) ps)" and "distinct (map (\<lambda>p. me_id (pm_memory p)) ps)"
    and "\<forall>p \<in> set ps. sorted (map version_order (pm_versions p))"
  shows "sorted (map (\<lambda>(m, v). (me_id m, mv_number v, mv_id v)) (bundle_rows ps))"
  using assms
proof (induction ps)
  case (Cons p ps)
  let ?key = "\<lambda>(m, v). (me_id m, mv_number v, mv_id v)"
  have "sorted (map ?key (map (Pair (pm_memory p)) (pm_versions p)))"
    using Cons.prems(3) by (simp add: comp_def sorted_map version_order_def)
  moreover have "me_id (pm_memory p) < me_id (pm_memory q)" if "q \<in> set ps" for q
    using Cons.prems(1,2) that by (auto simp: order_less_le)
  then have "?key r < ?key s" if "r \<in> set (map (Pair (pm_memory p)) (pm_versions p))" "s \<in> set (bundle_rows ps)" for r s
    using that by (auto simp: bundle_rows_def)
  ultimately show ?case
    using Cons by (auto simp: bundle_rows_def sorted_append intro: order_less_imp_le)
qed (simp add: bundle_rows_def)

lemma join_bundle_rows:
  assumes "\<forall>p \<in> set ps. \<forall>v \<in> set (pm_versions p). mv_memory_id v = me_id (pm_memory p)"
    and "distinct (map (\<lambda>p. me_id (pm_memory p)) ps)"
  shows "concat (map (\<lambda>m. map (Pair m) (filter (\<lambda>v. mv_memory_id v = me_id m) (concat (map pm_versions ps)))) (map pm_memory ps)) =
    bundle_rows ps"
proof -
  have "filter (\<lambda>v. mv_memory_id v = me_id (pm_memory p)) (concat (map pm_versions qs)) = pm_versions p"
    if "p \<in> set qs" "\<forall>p \<in> set qs. \<forall>v \<in> set (pm_versions p). mv_memory_id v = me_id (pm_memory p)"
      "distinct (map (\<lambda>p. me_id (pm_memory p)) qs)" for p qs
    using that
  proof (induction qs)
    case (Cons q qs)
    have none: "filter (\<lambda>v. mv_memory_id v = i) (concat (map pm_versions qs)) = []" if "i \<notin> (\<lambda>p. me_id (pm_memory p)) ` set qs" for i
      using Cons.prems(2) that by (auto simp: filter_empty_conv image_iff)
    show ?case
    proof (cases "p = q")
      case True
      then show ?thesis using Cons.prems none by (auto simp: filter_id_conv)
    next
      case False
      then have "me_id (pm_memory q) \<noteq> me_id (pm_memory p)" using Cons.prems(1,3) by auto
      then have "filter (\<lambda>v. mv_memory_id v = me_id (pm_memory p)) (pm_versions q) = []"
        using Cons.prems(2) by (auto simp: filter_empty_conv)
      then show ?thesis using Cons False by simp
    qed
  qed simp
  then have "\<forall>p \<in> set ps. filter (\<lambda>v. mv_memory_id v = me_id (pm_memory p)) (concat (map pm_versions ps)) = pm_versions p"
    using assms by blast
  then show ?thesis by (simp add: bundle_rows_def comp_def cong: map_cong)
qed

lemma export_imported:
  assumes valid: "export_validate x = None" and order: "normal_order x" and a: "exported_for a subject x"
  shows "export_observations a subject (imported x) = sx_observations x"
    and "export_working_sets a subject (imported x) = sx_working_sets x"
    and "export_memories a subject (imported x) = sx_memories x"
proof -
  note parts = export_validate_parts [OF valid]
  have "filter (\<lambda>ob. portable_visible a subject (ob_scope ob)) (sx_observations x) = sx_observations x"
    using parts(1) scope_visible [OF a observation_scope_valid] by (intro filter_True) blast
  then show "export_observations a subject (imported x) = sx_observations x"
    using order by (simp add: export_observations_def imported_def comp_def sort_key_sorted normal_order_def)
  have "filter (\<lambda>r. portable_visible a subject (ws_scope (wr_set r))) (map working_row_of (sx_working_sets x)) =
      map working_row_of (sx_working_sets x)"
    using parts(6) scope_visible [OF a working_scope_valid] by (intro filter_True) (auto simp: working_row_of_def)
  moreover have "sort_key (ws_id \<circ> wr_set) (map working_row_of (sx_working_sets x)) = map working_row_of (sx_working_sets x)"
    using order by (intro sort_key_sorted) (simp add: comp_def working_row_of_def normal_order_def)
  moreover have "map (\<lambda>p. \<lparr>pw_set = pw_set p, pw_state = working_state_text (the (working_state_of (pw_state p)))\<rparr>) (sx_working_sets x) =
      sx_working_sets x"
    using parts(7) working_state_text_of by (intro map_idI) (simp del: working_state_of.simps)
  ultimately show "export_working_sets a subject (imported x) = sx_working_sets x"
    by (simp add: export_working_sets_def imported_def working_row_of_def comp_def del: working_state_of.simps)
  have "filter (\<lambda>m. portable_visible a subject (me_scope m)) (map pm_memory (sx_memories x)) = map pm_memory (sx_memories x)"
    using parts(9) scope_visible [OF a memory_scope_valid] by (intro filter_True) (auto simp: memory_bundle_fits_def)
  then have "export_memory_rows a subject (imported x) =
      sort_key (\<lambda>(m, v). (me_id m, mv_number v, mv_id v)) (bundle_rows (sx_memories x))"
    using join_bundle_rows [of "sx_memories x"] parts(9,10)
    by (simp add: export_memory_rows_def imported_def export_versions_def memory_bundle_fits_def)
  also have "\<dots> = bundle_rows (sx_memories x)"
    using order parts(10) by (intro sort_key_sorted sorted_bundle_rows) (simp_all add: normal_order_def)
  finally show "export_memories a subject (imported x) = sx_memories x"
    using group_rows [of "[]" "sx_memories x"] parts(9,10) by (simp add: export_memories_def memory_bundle_fits_def)
qed


section \<open>The referenced episodes\<close>

lemma sort_remdups_cong: "set xs = set ys \<Longrightarrow> sort (remdups xs) = sort (remdups ys)"
  by (metis sorted_list_of_set_sort_remdups)

lemma evidence_outcomes_cong: "set refs = set refs' \<Longrightarrow> evidence_outcomes refs = evidence_outcomes refs'"
  unfolding evidence_outcomes_def by (intro ext sort_remdups_cong) simp

lemma lesson_references_sorted:
  "set (lesson_references (map (\<lambda>p. p\<lparr>pm_versions := sort_key k (pm_versions p)\<rparr>) (sort_key l ps))) =
     set (lesson_references ps)"
  by (auto simp: lesson_references_def)

lemma export_outcome_Inr: "export_outcome st i = Inr oc \<longleftrightarrow> find_row oc_id i (st_outcomes st) = Some oc"
  by (auto simp: export_outcome_def split: option.splits)

lemma export_outcomes_ids:
  "list_all2 (\<lambda>x y. find_row oc_id x rows = Some y) is ocs \<Longrightarrow> map oc_id ocs = is \<and> set ocs \<subseteq> set rows"
  by (induction rule: list_all2_induct) (auto dest: find_row_SomeD)

lemma export_episode_shape:
  assumes "export_episode st refs i = Inr e"
  shows "pe_id e = i" and "map oc_id (pe_outcomes e) = evidence_outcomes refs i"
    and "set (pe_outcomes e) \<subseteq> set (st_outcomes st)"
proof -
  obtain r ocs where r: "find_row es_id i (st_episodes st) = Some r"
    and ocs: "list_all2 (\<lambda>x y. find_row oc_id x (st_outcomes st) = Some y) (evidence_outcomes refs i) ocs"
    and e: "pe_id e = es_id r" "pe_outcomes e = ocs"
    using assms by (auto simp: export_episode_def bind_result_Inr map_result_Inr export_outcome_Inr split: option.splits)
  show "pe_id e = i" using find_row_SomeD [OF r] e by simp
  show "map oc_id (pe_outcomes e) = evidence_outcomes refs i" "set (pe_outcomes e) \<subseteq> set (st_outcomes st)"
    using export_outcomes_ids [OF ocs] e by simp_all
qed

lemma export_referenced_shape:
  assumes "export_referenced_episodes st ps = Inr es"
  shows "map pe_id es = sort (remdups (map le_episode_id (lesson_references ps)))"
    and "e \<in> set es \<Longrightarrow> map oc_id (pe_outcomes e) = evidence_outcomes (lesson_references ps) (pe_id e)"
    and "e \<in> set es \<Longrightarrow> set (pe_outcomes e) \<subseteq> set (st_outcomes st)"
proof -
  have all: "list_all2 (\<lambda>i e. export_episode st (lesson_references ps) i = Inr e)
      (sort (remdups (map le_episode_id (lesson_references ps)))) es"
    using assms unfolding export_referenced_episodes_def map_result_Inr .
  then show "map pe_id es = sort (remdups (map le_episode_id (lesson_references ps)))"
    by (induction rule: list_all2_induct) (auto dest: export_episode_shape(1))
  show "map oc_id (pe_outcomes e) = evidence_outcomes (lesson_references ps) (pe_id e)"
    "set (pe_outcomes e) \<subseteq> set (st_outcomes st)" if "e \<in> set es"
    using list_all2_in_right [OF all that] export_episode_shape by metis+
qed

text \<open>The imported rows give back the episodes of a bundle that holds exactly the referenced ones.\<close>

lemma export_imported_episodes:
  assumes valid: "export_validate x = None"
    and ids: "map pe_id (sx_episodes x) = sort (remdups (map le_episode_id (lesson_references (sx_memories x))))"
    and ocs: "\<And>e. e \<in> set (sx_episodes x) \<Longrightarrow>
       map oc_id (pe_outcomes e) = evidence_outcomes (lesson_references (sx_memories x)) (pe_id e)"
  shows "export_referenced_episodes (imported x) (sx_memories x) = Inr (sx_episodes x)"
proof -
  note parts = export_validate_parts [OF valid]
  let ?refs = "lesson_references (sx_memories x)"
  have outcome: "export_outcome (imported x) (oc_id oc) = Inr oc" if "e \<in> set (sx_episodes x)" "oc \<in> set (pe_outcomes e)" for e oc
  proof -
    have "distinct (map oc_id (concat (map pe_outcomes (sx_episodes x))))"
      using parts(5) by (simp add: map_concat comp_def)
    then show ?thesis using that by (auto simp: export_outcome_Inr imported_def find_row_eq_Some)
  qed
  have "map_result (export_outcome (imported x)) (map oc_id os) = Inr os"
    if "e \<in> set (sx_episodes x)" "set os \<subseteq> set (pe_outcomes e)" for e os
    using that by (induction os) (auto simp: outcome)
  then have outcomes: "map_result (export_outcome (imported x)) (evidence_outcomes ?refs (pe_id e)) = Inr (pe_outcomes e)"
    if "e \<in> set (sx_episodes x)" for e
    using that ocs by (metis order_refl)
  have episode: "export_episode (imported x) ?refs (pe_id e) = Inr e" if e: "e \<in> set (sx_episodes x)" for e
  proof -
    have "distinct (map es_id (map episode_row_of (sx_episodes x)))"
      using parts(4) by (simp add: comp_def episode_row_of_def)
    moreover have "episode_row_of e \<in> set (map episode_row_of (sx_episodes x))" using e by simp
    ultimately have "find_row es_id (pe_id e) (st_episodes (imported x)) = Some (episode_row_of e)"
      by (simp add: imported_def find_row_eq_Some episode_row_of_def)
    then show ?thesis
      using outcomes [OF e] by (simp add: export_episode_def episode_row_of_def)
  qed
  have "list_all2 (\<lambda>i e. export_episode (imported x) ?refs i = Inr e) (map pe_id es) es" if "set es \<subseteq> set (sx_episodes x)" for es
    using that by (induction es) (simp_all add: episode)
  then show ?thesis unfolding export_referenced_episodes_def ids [symmetric] map_result_Inr by simp
qed


section \<open>Round trip\<close>

text \<open>
  What the schema holds of the rows an export reads: \<open>UNIQUE(namespace_id, task_id)\<close> of
  \<open>working_sets\<close>, \<open>REAL NOT NULL\<close> of \<open>outcomes.value\<close> (a NaN is stored as NULL), payload
  columns that were encoded, and parents that were inserted as distinct dependency keys.
\<close>

definition columns_ok :: "store \<Rightarrow> bool" where
  "columns_ok st \<longleftrightarrow> distinct (map (\<lambda>r. working_key (wr_set r)) (st_working_sets st)) \<and>
     list_all (\<lambda>oc. oc_value oc \<noteq> NaN) (st_outcomes st) \<and>
     list_all (\<lambda>v. encode_version v = None \<and> distinct (mv_derived_from v)) (st_versions st)"

lemma set_add_version_to:
  "(\<Union>p \<in> set (add_version_to r ps). set (pm_versions p)) \<subseteq> insert (snd r) (\<Union>p \<in> set ps. set (pm_versions p))"
  by (auto simp: add_version_to_def set_update_rows split: if_splits)

lemma set_group_rows:
  "(\<Union>p \<in> set (fold add_version_to rs ps). set (pm_versions p)) \<subseteq> snd ` set rs \<union> (\<Union>p \<in> set ps. set (pm_versions p))"
proof (induction rs arbitrary: ps)
  case (Cons r rs)
  have "snd ` set rs \<union> (\<Union>p \<in> set (add_version_to r ps). set (pm_versions p)) \<subseteq>
      snd ` set (r # rs) \<union> (\<Union>p \<in> set ps. set (pm_versions p))"
    using set_add_version_to [of r ps] by auto
  with Cons.IH show ?case unfolding fold_simps by (rule subset_trans)
qed simp

lemma exported_versions_stored:
  "(\<Union>p \<in> set (export_memories a subject st). set (pm_versions p)) \<subseteq> set (st_versions st)"
  using set_group_rows [of "export_memory_rows a subject st" "[]"]
  by (auto simp: export_memories_def export_memory_rows_def)

text \<open>
  C39. A subject bundle loses nothing: what an export of a database returns can be imported
  into an empty database, the import succeeds and reports the bundle's counts, and the
  same export of the imported database returns the same bundle.
\<close>

theorem export_import_round_trip:
  assumes export: "export_subject a subject at' st = Inr x" and cols: "columns_ok st"
  shows "import_subject path backup None x False empty_store = (imported x, import_counts x False, None) \<and>
    export_subject a subject at' (imported x) = Inr x"
proof -
  obtain es where es: "export_referenced_episodes st (export_memories a subject st) = Inr es"
    and pre: "\<not> is_zero_time at'" "portable_access_check a subject = None"
    and x: "x = sort_subject_export
        \<lparr>sx_format = portable_export_format, sx_schema_version = 1, sx_exported_at = at',
         sx_namespace = ac_namespace a, sx_subject = subject, sx_private_owners = ac_private_owners a,
         sx_include_shared = ac_allow_shared a, sx_include_public = ac_allow_public a,
         sx_observations = export_observations a subject st, sx_episodes = es,
         sx_working_sets = export_working_sets a subject st, sx_memories = export_memories a subject st\<rparr>"
    and valid: "export_validate x = None"
    using export by (auto simp: export_subject_def Let_def result_simps)
  note shape = export_referenced_shape [OF es]
  have order: "normal_order x" unfolding x by (rule sort_subject_export_normal)
  have fixed: "sort_subject_export x = x" by (rule sort_normal_order [OF order])
  have exported: "exported_for a subject x" unfolding exported_for_def x by (simp add: sort_subject_export_def)
  have refs: "set (lesson_references (sx_memories x)) = set (lesson_references (export_memories a subject st))"
    unfolding x by (simp add: sort_subject_export_def lesson_references_sorted)
  have "sorted (map pe_id es)" unfolding shape(1) by simp
  moreover have "sort_key oc_id (pe_outcomes e) = pe_outcomes e" if "e \<in> set es" for e
    using shape(2) [OF that] by (intro sort_key_sorted) (simp add: evidence_outcomes_def)
  ultimately have episodes: "sx_episodes x = es"
    unfolding x by (simp add: sort_subject_export_def sort_key_sorted map_idI)
  have "distinct (map (\<lambda>p. working_key (pw_set p)) (sx_working_sets x))"
    using cols unfolding x columns_ok_def sort_subject_export_def export_working_sets_def
    by (simp add: distinct_map inj_on_def) blast
  moreover have "set (export_versions x) \<subseteq> set (st_versions st)"
    using exported_versions_stored [of a subject st] unfolding x export_versions_def
    by (auto simp: sort_subject_export_def)
  ultimately have "importable x"
    using cols shape(3) unfolding importable_def episodes columns_ok_def list_all_iff by blast
  note empty = import_into_empty [OF valid this]
  have "export_referenced_episodes (imported x) (sx_memories x) = Inr (sx_episodes x)"
  proof (rule export_imported_episodes [OF valid])
    show "map pe_id (sx_episodes x) = sort (remdups (map le_episode_id (lesson_references (sx_memories x))))"
      unfolding episodes shape(1) using refs by (intro sort_remdups_cong) simp
    show "map oc_id (pe_outcomes e) = evidence_outcomes (lesson_references (sx_memories x)) (pe_id e)"
      if "e \<in> set (sx_episodes x)" for e
      using shape(2) that unfolding episodes evidence_outcomes_cong [OF refs] .
  qed
  moreover have "\<lparr>sx_format = portable_export_format, sx_schema_version = 1, sx_exported_at = at',
         sx_namespace = ac_namespace a, sx_subject = subject, sx_private_owners = ac_private_owners a,
         sx_include_shared = ac_allow_shared a, sx_include_public = ac_allow_public a,
         sx_observations = sx_observations x, sx_episodes = sx_episodes x,
         sx_working_sets = sx_working_sets x, sx_memories = sx_memories x\<rparr> =
       x\<lparr>sx_private_owners := ac_private_owners a\<rparr>" (is "?again = _")
    by (rule subject_export.equality) (simp_all add: x sort_subject_export_def)
  moreover have "sort_subject_export (x\<lparr>sx_private_owners := ac_private_owners a\<rparr>) =
      (sort_subject_export x)\<lparr>sx_private_owners := sort (ac_private_owners a)\<rparr>"
    by (simp add: sort_subject_export_def)
  moreover have "x\<lparr>sx_private_owners := sort (ac_private_owners a)\<rparr> = x"
    by (rule subject_export.equality) (simp_all add: x sort_subject_export_def)
  ultimately have "export_subject a subject at' (imported x) = Inr x"
    using export_imported [OF valid order exported] valid pre
    by (simp add: export_subject_def fixed guard_check_pass Let_def)
  moreover have no_data: "\<not> has_portable_data empty_store" by (simp add: has_portable_data_def empty_store_def)
  moreover have "import_subject path backup None x False empty_store = (imported x, import_counts x False, None)"
    using empty valid no_data by (simp add: import_subject_def fixed wrap_check_def Let_def)
  ultimately show ?thesis by blast
qed

section \<open>Sample bundle\<close>

text \<open>The supersede chain and its stale derivative, with the observation they cite.\<close>

definition store_source :: store where
  "store_source = store_coffee\<lparr>st_observations := [(sample_observation, sample_time 1)]\<rparr>"

definition sample_bundle :: "subject_export result" where
  "sample_bundle = export_subject sample_access ''sub'' (sample_time 400) store_source"

lemma map_sum_InrD: "map_sum f g r = Inr y \<Longrightarrow> \<exists>x. r = Inr x \<and> g x = y"
  by (cases r) auto

lemma sample_bundle_size:
  "map_sum (\<lambda>e. ()) (\<lambda>x. map (length \<circ> pm_versions) (sx_memories x)) sample_bundle = Inr [2, 1]"
  by code_simp

theorem export_import_round_trip_witness:
  "\<exists>x. sample_bundle = Inr x \<and> length (sx_memories x) = 2 \<and>
     import_subject '''' None None x False empty_store = (imported x, import_counts x False, None) \<and>
     export_subject sample_access ''sub'' (sample_time 400) (imported x) = Inr x"
proof -
  from map_sum_InrD [OF sample_bundle_size] obtain x
    where x: "sample_bundle = Inr x" and "map (length \<circ> pm_versions) (sx_memories x) = [2, 1]"
    by (elim exE conjE) (rule that)
  then have n: "length (sx_memories x) = 2" by (metis length_map length_Cons list.size(3) numeral_2_eq_2)
  have "columns_ok store_source" by code_simp
  from export_import_round_trip [OF x [unfolded sample_bundle_def] this] x n show ?thesis by (intro exI conjI) blast+
qed

section \<open>A purge that leaves a reference behind\<close>

text \<open>
  A purge in mark-stale mode keeps the versions derived from the target with their
  \<open>derived_from_json\<close> as it was: the subject can no longer be exported, because the
  validation of the bundle misses the purged parent. A cascading purge does not do this.
\<close>

lemma mark_stale_blocks_export:
  "map_sum id (\<lambda>x. ()) (export_subject sample_access ''sub'' (sample_time 400)
     (fst (purge_memory_with_mode ''r1'' ''ns'' ''alice'' (sample_id ''mem'' ''p1'') PurgeMarkStale (sample_time 300)
       (store_derived\<lparr>st_observations := [(sample_observation, sample_time 1)]\<rparr>)))) =
   Inl (Wrapped ''validate subject export'' (Errorf ''memory version references absent version''))"
  by code_simp


section \<open>The cycle check\<close>

text \<open>
  C40. The cycle check of the bundle validation always ends, and it accepts exactly the
  bundles whose versions have no cycle of derivations, in whatever order the Go map
  yields the versions.
\<close>

theorem cycle_check_is_exact:
  assumes "set keys = mv_id ` set (export_versions x)"
  shows "\<exists>c. validate_dependency_graph (export_parents x) keys = Some c \<and>
    (c = None \<longleftrightarrow> acyclic (derives (export_parents x)))"
  using assms export_parents_key [of x] by (intro dependency_graph_verdict) simp

definition circular_export :: subject_export where
  "circular_export = \<lparr>sx_format = portable_export_format, sx_schema_version = 1, sx_exported_at = sample_time 400,
     sx_namespace = ''ns'', sx_subject = ''sub'', sx_private_owners = [''alice''], sx_include_shared = False,
     sx_include_public = False, sx_observations = [sample_observation], sx_episodes = [], sx_working_sets = [],
     sx_memories = map (\<lambda>m. \<lparr>pm_memory = m, pm_versions = map (\<lambda>v. v\<lparr>mv_derived_from :=
          filter (\<lambda>i. i \<noteq> mv_id v) (map mv_id (st_versions derived_rows))\<rparr>)
        (filter (\<lambda>v. mv_memory_id v = me_id m) (st_versions derived_rows))\<rparr>) (st_memories derived_rows)\<rparr>"

theorem cycle_check_is_exact_witness:
  "\<not> acyclic (derives (export_parents circular_export))"
proof -
  let ?keys = "rev (map mv_id (export_versions circular_export))"
  have keys: "set ?keys = mv_id ` set (export_versions circular_export)" by simp
  have "validate_dependency_graph (export_parents circular_export) ?keys =
      Some (Some (Errorf ''memory dependency graph contains a cycle''))"
    by code_simp
  with cycle_check_is_exact [OF keys] show ?thesis by (metis option.distinct(1) option.inject)
qed

end
