(* ===== verification/AgentEvent.thy ===== *)
theory AgentEvent
  imports Proposals
begin

text \<open>
  The agent event protocol (\<open>internal/agentevent/event.go\<close>) and its Codex adapter
  (\<open>codex.go\<close>): a versioned envelope becomes one immutable, untrusted observation whose
  identifier is determined by the event and its source. The decoding of the JSON line
  is an argument, the envelope it yields or its error.
\<close>

datatype event_type = EventMessage | EventToolResult | EventOutcome | EventTaskState | EventOther string

fun event_text :: "event_type \<Rightarrow> string" where
  "event_text EventMessage = ''message''"
| "event_text EventToolResult = ''tool_result''"
| "event_text EventOutcome = ''outcome''"
| "event_text EventTaskState = ''task_state''"
| "event_text (EventOther s) = s"

record agent_event =
  ae_schema_version :: string
  ae_id :: ident
  ae_source :: string
  ae_type :: event_type
  ae_owner :: ident
  ae_subject :: ident
  ae_context :: ident
  ae_content :: content
  ae_occurred_at :: gtime
  ae_metadata :: "string \<rightharpoonup> string"

definition event_validate :: "agent_event \<Rightarrow> check" where
  "event_validate e = first_error
     [err_if (ae_schema_version e \<noteq> ''v1'' \<or> ae_id e = '''' \<or> ae_source e = '''' \<or> ae_owner e = '''' \<or>
          ae_subject e = '''' \<or> is_zero_time (ae_occurred_at e))
        ''AgentEvent v1 requires schema, id, source, owner, subject, and timestamp'',
      (case ae_type e of EventOther t \<Rightarrow> Some (Errorf ''AgentEvent type is invalid'') | _ \<Rightarrow> None),
      content_validate (ae_content e)]"

definition event_observation :: "lib \<Rightarrow> agent_event \<Rightarrow> ident \<Rightarrow> ident \<Rightarrow> visibility \<Rightarrow> observation result" where
  "event_observation L e namespace actor visibility =
     guard_check (event_validate e)
     (let b = \<lparr>ob_id = ''obs-event-'' @ hex_encode (take 12 (lb_sha256 L (ae_id e @ [CHR 0x00] @ ae_source e))),
        ob_scope = \<lparr>sc_namespace = namespace, sc_owner = ae_owner e, sc_subject = ae_subject e, sc_actor = actor,
          sc_context = ae_context e, sc_visibility = visibility\<rparr>,
        ob_source_kind = ''agent-event:'' @ ae_source e, ob_source_reference = ae_id e,
        ob_content = ae_content e, ob_evidence_class = EvidenceUntrusted, ob_policy_authority = '''',
        ob_captured_at = ae_occurred_at e,
        ob_metadata = (ae_metadata e)(''agent_event_id'' \<mapsto> ae_id e, ''agent_event_type'' \<mapsto> event_text (ae_type e))\<rparr> in
      guard_check (observation_validate b) (Inr b))"

section \<open>The Codex adapter\<close>

record codex_envelope =
  cx_id :: string
  cx_type :: string
  cx_timestamp :: gtime
  cx_thread_id :: string
  cx_turn_id :: string
  cx_role :: string
  cx_text :: string
  cx_metadata :: "string \<rightharpoonup> string"

definition codex_event_type :: "string \<Rightarrow> event_type result" where
  "codex_event_type t =
     (if t \<in> {''message'', ''assistant_message'', ''user_message''} then Inr EventMessage
      else if t \<in> {''tool_result'', ''command_result''} then Inr EventToolResult
      else if t = ''outcome'' then Inr EventOutcome
      else if t \<in> {''task_state'', ''turn_state''} then Inr EventTaskState
      else Inl (Errorf ''unsupported Codex event type''))"

definition parse_codex :: "codex_envelope result \<Rightarrow> ident \<Rightarrow> ident \<Rightarrow> agent_event result" where
  "parse_codex decoded owner subject =
     bind_result (wrap_result ''decode Codex event'' decoded) (\<lambda>x.
     guard_check (err_if (cx_id x = '''' \<or> trim_space (cx_text x) = '''' \<or> is_zero_time (cx_timestamp x))
       ''codex event requires id, text, and timestamp'')
     (bind_result (codex_event_type (cx_type x)) (\<lambda>t.
      Inr \<lparr>ae_schema_version = ''v1'', ae_id = cx_id x, ae_source = ''codex'', ae_type = t, ae_owner = owner,
        ae_subject = subject, ae_context = cx_thread_id x,
        ae_content = \<lparr>co_parts = [\<lparr>cp_kind = PartText, cp_text = cx_text x, cp_artifact = None\<rparr>]\<rparr>,
        ae_occurred_at = cx_timestamp x,
        ae_metadata = (cx_metadata x)(''thread_id'' \<mapsto> cx_thread_id x, ''turn_id'' \<mapsto> cx_turn_id x,
          ''role'' \<mapsto> cx_role x)\<rparr>)))"

section \<open>Events are untrusted evidence\<close>

lemma event_observation_Inr:
  assumes "event_observation L e ns actor vis = Inr b"
  shows "event_validate e = None" "observation_validate b = None" "ob_evidence_class b = EvidenceUntrusted"
    "ob_policy_authority b = ''''" "sc_namespace (ob_scope b) = ns" "sc_owner (ob_scope b) = ae_owner e"
    "sc_actor (ob_scope b) = actor"
  using assms by (auto simp: event_observation_def guard_check_Inr Let_def)

end
