(* ===== verification/Api.thy ===== *)
theory Api
  imports Worker AgentEvent Tokens Purge Portable
begin

text \<open>
  The REST and MCP server (\<open>internal/api/server.go\<close>, \<open>mcp.go\<close>, \<open>types.go\<close>): who a
  request comes from, what its credential permits, and what each handler does to the
  database. A request arrives routed: the call carries what the JSON decoder made of its
  body, and the peer the verdict of \<open>remoteIsLoopback\<close> on its address. What a handler
  reads beside the database (the clock, random bytes, the databases it sees while it
  waits for a job) is its environment.
\<close>

section \<open>Requests\<close>

record remember_request =
  rb_observation_id :: ident
  rb_idempotency_key :: string
  rb_owner :: ident
  rb_subject :: ident
  rb_context :: ident
  rb_visibility :: visibility
  rb_source_kind :: string
  rb_source_reference :: string
  rb_content :: content
  rb_evidence_class :: evidence_class
  rb_policy_authority :: string
  rb_captured_at :: "gtime option"
  rb_metadata :: "string \<rightharpoonup> string"
  rb_function :: memory_function
  rb_strategy :: string
  rb_working_ttl_seconds :: int
  rb_working_global_recall :: bool
  rb_wait_milliseconds :: int

record wire_recall =
  wq_owner :: ident
  wq_subject :: ident
  wq_context :: ident
  wq_query :: string
  wq_functions :: "memory_function list"
  wq_mode :: retrieval_mode
  wq_valid_at :: "gtime option"
  wq_system_at :: "gtime option"
  wq_token_budget :: int
  wq_candidate_limit :: int
  wq_include_global_working :: bool

record token_request =
  tq_id :: ident
  tq_principal_id :: ident
  tq_private_owners :: "ident list"
  tq_scopes :: "auth_scope list"
  tq_allow_shared :: bool
  tq_allow_public :: bool
  tq_expires_at :: "gtime option"

record event_request =
  er_event :: agent_event
  er_function :: memory_function
  er_strategy :: string
  er_wait_milliseconds :: int

record peer =
  pe_authorization :: string
  pe_loopback :: bool

text \<open>
  A decoded body: what \<open>decodeRequest\<close> distinguishes, a value that does not decode, a value
  followed by more input, and one value. The arguments of an MCP tool are decoded by
  \<open>strictUnmarshal\<close>, whose error becomes the tool's.
\<close>

datatype 'a body = MalformedBody | TrailingBody | Body 'a

datatype mcp_tool =
    McpJobStatus "ident result"
  | McpRecall "wire_recall result"
  | McpRemember "remember_request result"
  | McpUnknownTool string

datatype mcp_method =
    McpDiscover
  | McpInitialize "string option"
  | McpPing
  | McpToolsList
  | McpToolsCall "mcp_tool option"
  | McpUnknownMethod string

record mcp_request =
  mr_jsonrpc :: string
  mr_id :: string
  mr_method :: string
  mr_call :: mcp_method
  mr_params_name :: "string option"

record mcp_headers =
  mh_version :: string
  mh_method :: string
  mh_name :: string

datatype api_call =
    CallHealth
  | CallVersion
  | CallRemember "remember_request body"
  | CallRecall "wire_recall body"
  | CallExport ident
  | CallJob ident
  | CallArchive ident
  | CallForget ident
  | CallPurge ident
  | CallCreateToken "token_request body"
  | CallAgentEvent "event_request body"
  | CallMcp mcp_headers "mcp_request body"

datatype mcp_reply =
    McpAccepted
  | McpFailure string int string
  | McpVersions string "string list"
  | McpEmpty string
  | McpTools string "string list"
  | McpJob string job
  | McpBundle string recall_bundle
  | McpToolError string go_error

datatype api_reply =
    ReplyError int string string
  | ReplyFailed int string go_error
  | ReplyHealth
  | ReplyVersion
  | ReplyJob int job
  | ReplyBundle recall_bundle
  | ReplyExport subject_export
  | ReplyMutation applied_mutation
  | ReplyPurge purge_receipt
  | ReplyToken ident string
  | ReplyMcp int mcp_reply

section \<open>Configuration and environment\<close>

record server_config =
  sv_retriever :: retriever
  sv_worker :: worker_config
  sv_loopback_principal :: principal
  sv_allow_loopback :: bool
  sv_enable_agent_events :: bool

record environment =
  en_lib :: lib
  en_codec :: job_codec
  en_unicode :: unicode
  en_fts :: fts_engine
  en_auth_time :: gtime
  en_now :: gtime
  en_later :: gtime
  en_stored_at :: gtime
  en_recall_started :: gtime
  en_recall_completed :: gtime
  en_bytes :: string
  en_job_bytes :: string
  en_waits :: "store list"

definition random_id :: "string \<Rightarrow> string \<Rightarrow> ident" where
  "random_id prefix bytes = prefix @ ''-'' @ hex_encode bytes"

section \<open>Authentication\<close>

definition authenticate :: "environment \<Rightarrow> server_config \<Rightarrow> peer \<Rightarrow> store \<Rightarrow> store \<times> principal result" where
  "authenticate en sv pe st =
     (let header = pe_authorization pe; rest = drop (length ''Bearer '') header in
      if header \<noteq> '''' then
        (if \<not> has_prefix ''Bearer '' header \<or> trim_space rest = '''' then (st, Inl ErrInvalidToken)
         else authenticate_token (en_lib en) (trim_space rest) (en_auth_time en) st)
      else if sv_allow_loopback sv \<and> pe_loopback pe then (st, Inr (sv_loopback_principal sv))
      else (st, Inl ErrInvalidToken))"

definition unauthorized :: api_reply where
  "unauthorized = ReplyError 401 ''unauthorized'' ''valid bearer token required''"

definition forbidden_scope :: api_reply where
  "forbidden_scope = ReplyError 403 ''forbidden'' ''token scope does not permit this operation''"

definition authorize_any ::
  "environment \<Rightarrow> server_config \<Rightarrow> peer \<Rightarrow> (principal \<Rightarrow> store \<Rightarrow> store \<times> api_reply) \<Rightarrow> store \<Rightarrow> store \<times> api_reply" where
  "authorize_any en sv pe next_handler st =
     (case authenticate en sv pe st of
        (st', Inl e) \<Rightarrow> (st', unauthorized)
      | (st', Inr p) \<Rightarrow> next_handler p st')"

definition authorize ::
  "environment \<Rightarrow> server_config \<Rightarrow> peer \<Rightarrow> auth_scope \<Rightarrow> (principal \<Rightarrow> store \<Rightarrow> store \<times> api_reply) \<Rightarrow> store \<Rightarrow> store \<times> api_reply" where
  "authorize en sv pe sc next_handler st =
     (case authenticate en sv pe st of
        (st', Inl e) \<Rightarrow> (st', unauthorized)
      | (st', Inr p) \<Rightarrow> if \<not> has_scope p sc then (st', forbidden_scope) else next_handler p st')"

definition decode_request ::
  "'a body \<Rightarrow> ('a \<Rightarrow> store \<Rightarrow> store \<times> api_reply) \<Rightarrow> store \<Rightarrow> store \<times> api_reply" where
  "decode_request body k st =
     (case body of
        MalformedBody \<Rightarrow> (st, ReplyError 400 ''invalid_json'' ''request body must be valid schema-conformant JSON'')
      | TrailingBody \<Rightarrow> (st, ReplyError 400 ''invalid_json'' ''request body must contain exactly one JSON value'')
      | Body q \<Rightarrow> k q st)"

section \<open>Remembering\<close>

text \<open>The defaults of a remember request, in the order they are filled in.\<close>

definition default_text :: "string \<Rightarrow> string \<Rightarrow> string" where
  "default_text d s = (if s = '''' then d else s)"

definition remember_visibility :: "remember_request \<Rightarrow> visibility" where
  "remember_visibility q = (if rb_visibility q = VisibilityOther '''' then VisibilityPrivate else rb_visibility q)"

definition remember_class :: "remember_request \<Rightarrow> evidence_class" where
  "remember_class q = (if rb_evidence_class q = EvidenceOther '''' then EvidenceUntrusted else rb_evidence_class q)"

definition remember_observation :: "environment \<Rightarrow> remember_request \<Rightarrow> scope \<Rightarrow> observation" where
  "remember_observation en q sc =
     \<lparr>ob_id = default_text (random_id ''obs'' (en_bytes en)) (rb_observation_id q), ob_scope = sc,
      ob_source_kind = default_text ''api'' (rb_source_kind q), ob_source_reference = rb_source_reference q,
      ob_content = rb_content q, ob_evidence_class = remember_class q, ob_policy_authority = rb_policy_authority q,
      ob_captured_at = (case rb_captured_at q of None \<Rightarrow> en_now en | Some t \<Rightarrow> t), ob_metadata = rb_metadata q\<rparr>"

definition working_ttl :: "remember_request \<Rightarrow> int" where
  "working_ttl q = (if rb_working_ttl_seconds q = 0 then 86400 else rb_working_ttl_seconds q)"

definition remember_payload :: "remember_request \<Rightarrow> observation \<Rightarrow> formation_job" where
  "remember_payload q b =
     \<lparr>fj_observation_id = ob_id b, fj_function = rb_function q, fj_mode = default_text ''generator-free'' (rb_strategy q),
      fj_apply_scope = ob_scope b,
      fj_working_expires_at = (if rb_function q = FunctionWorking
        then Some (ob_captured_at b + working_ttl q * nanos_per_sec) else None),
      fj_working_global_recall = rb_working_global_recall q\<rparr>"

definition remember_job :: "environment \<Rightarrow> principal \<Rightarrow> remember_request \<Rightarrow> observation \<Rightarrow> string \<Rightarrow> job" where
  "remember_job en p q b encoded =
     \<lparr>jb_id = random_id ''job'' (en_job_bytes en), jb_namespace = pn_namespace p,
      jb_kind = ''formation.'' @ function_text (rb_function q), jb_state = JobQueued,
      jb_idempotency_key = default_text (ob_id b) (rb_idempotency_key q), jb_payload = encoded, jb_result = None,
      jb_error_code = '''', jb_error_message = '''', jb_attempts = 0, jb_lease_owner = '''', jb_lease_expires_at = None,
      jb_available_at = en_later en, jb_created_at = 0, jb_updated_at = 0\<rparr>"

definition prepare_remember ::
  "environment \<Rightarrow> server_config \<Rightarrow> principal \<Rightarrow> remember_request \<Rightarrow> (observation \<times> job) result" where
  "prepare_remember en sv p q =
     guard_check (err_if (\<not> has_scope p ScopeMemoryWrite) ''memory write scope is required'')
     (bind_result (domain_scope p (rb_owner q) (rb_subject q) (rb_context q) (remember_visibility q)) (\<lambda>sc.
      guard_check (err_if (remember_class q = EvidencePolicy \<and> \<not> has_scope p ScopeAdmin)
        ''admin scope is required for policy evidence'')
      (let b = remember_observation en q sc in
       guard_check (observation_validate b)
       (guard_check (err_if (default_text ''generator-free'' (rb_strategy q) = ''assisted'' \<and> \<not> supports_assisted (sv_worker sv))
          ''assisted formation is not enabled'')
       (guard_check (err_if (rb_function q = FunctionWorking \<and> (working_ttl q < 1 \<or> working_ttl q > 30 * 86400))
          ''working TTL must be within 1 second and 30 days'')
       (bind_result (encode_formation_job (en_codec en) (remember_payload q b)) (\<lambda>encoded.
        Inr (b, remember_job en p q b encoded))))))))"

text \<open>
  Waiting: the databases the request sees until its time is over. Running out of them
  is the deadline, and then the job as it was enqueued is the answer.
\<close>

definition wait_for_job :: "environment \<Rightarrow> job \<Rightarrow> int \<Rightarrow> job result" where
  "wait_for_job en j ms =
     (if ms = 0 then Inr j
      else case wait_job (jb_id j) (en_waits en) of
        Inr t \<Rightarrow> Inr t
      | Inl e \<Rightarrow> if errors_is e (Errorf ''context canceled'') then Inr j else Inl e)"

definition remember_value ::
  "environment \<Rightarrow> server_config \<Rightarrow> principal \<Rightarrow> remember_request \<Rightarrow> store \<Rightarrow> store \<times> job result" where
  "remember_value en sv p q st =
     (if rb_wait_milliseconds q < 0 \<or> rb_wait_milliseconds q > 30000
      then (st, Inl (Errorf ''wait_milliseconds must be between 0 and 30000''))
      else with_value (prepare_remember en sv p q) st (\<lambda>(b, j).
        and_then (enqueue_observation (en_lib en) b j None (en_stored_at en) st) (\<lambda>(created, _) st'.
          (st', wait_for_job en created (rb_wait_milliseconds q)))))"

definition job_status :: "job \<Rightarrow> int" where
  "job_status j = (if terminal j then 200 else 202)"

definition invalid_wait :: api_reply where
  "invalid_wait = ReplyError 400 ''invalid_wait'' ''wait_milliseconds must be between 0 and 30000''"

definition remember ::
  "environment \<Rightarrow> server_config \<Rightarrow> remember_request body \<Rightarrow> principal \<Rightarrow> store \<Rightarrow> store \<times> api_reply" where
  "remember en sv body p = decode_request body (\<lambda>q st.
     if rb_wait_milliseconds q < 0 \<or> rb_wait_milliseconds q > 30000 then (st, invalid_wait)
     else (case remember_value en sv p q st of
         (st', Inl e) \<Rightarrow> (st', ReplyFailed 400 ''remember_failed'' e)
       | (st', Inr j) \<Rightarrow> (st', ReplyJob (job_status j) j)))"

section \<open>Reading\<close>

definition recall_wire :: "environment \<Rightarrow> principal \<Rightarrow> wire_recall \<Rightarrow> scope \<Rightarrow> recall_request" where
  "recall_wire en p q sc =
     \<lparr>rq_trace_id = '''', rq_scope = sc, rq_access = principal_access p, rq_query = wq_query q,
      rq_functions = wq_functions q, rq_mode = wq_mode q,
      rq_valid_at = (case wq_valid_at q of None \<Rightarrow> en_now en | Some t \<Rightarrow> t),
      rq_system_at = (case wq_system_at q of None \<Rightarrow> en_now en | Some t \<Rightarrow> t),
      rq_token_budget = (if wq_token_budget q = 0 then 2048 else wq_token_budget q),
      rq_candidate_limit = (if wq_candidate_limit q = 0 then 20 else wq_candidate_limit q),
      rq_include_global_working = wq_include_global_working q\<rparr>"

text \<open>The retriever reads the database of the request and stores its trace there.\<close>

definition recall_value ::
  "environment \<Rightarrow> server_config \<Rightarrow> principal \<Rightarrow> wire_recall \<Rightarrow> store \<Rightarrow> store \<times> recall_bundle result" where
  "recall_value en sv p q st =
     with_value (domain_scope p (wq_owner q) (wq_subject q) (wq_context q) VisibilityPrivate) st (\<lambda>sc.
       recall (en_lib en) (en_unicode en)
         ((sv_retriever sv)\<lparr>rv_repository := sqlite_repository (en_lib en) (en_unicode en) (en_fts en) st\<rparr>)
         (Some put_retrieval_trace) (en_recall_started en) (en_recall_completed en) (en_bytes en) (recall_wire en p q sc) st)"

definition recall_handler ::
  "environment \<Rightarrow> server_config \<Rightarrow> wire_recall body \<Rightarrow> principal \<Rightarrow> store \<Rightarrow> store \<times> api_reply" where
  "recall_handler en sv body p = decode_request body (\<lambda>q st.
     case recall_value en sv p q st of
       (st', Inl e) \<Rightarrow> (st', ReplyFailed 400 ''recall_failed'' e)
     | (st', Inr b) \<Rightarrow> (st', ReplyBundle b))"

definition export_handler :: "environment \<Rightarrow> ident \<Rightarrow> principal \<Rightarrow> store \<Rightarrow> store \<times> api_reply" where
  "export_handler en subject p st =
     (st, case export_subject (principal_access p) subject (en_now en) st of
            Inl e \<Rightarrow> ReplyFailed 409 ''export_failed'' e | Inr x \<Rightarrow> ReplyExport x)"

definition job_not_found :: api_reply where
  "job_not_found = ReplyError 404 ''not_found'' ''job not found''"

definition job_handler :: "ident \<Rightarrow> principal \<Rightarrow> store \<Rightarrow> store \<times> api_reply" where
  "job_handler i p st =
     (st, case get_job st i of
            Inl e \<Rightarrow> job_not_found
          | Inr j \<Rightarrow> if jb_namespace j \<noteq> pn_namespace p then job_not_found else ReplyJob 200 j)"

section \<open>Changing and purging\<close>

definition memory_not_found :: api_reply where
  "memory_not_found = ReplyError 404 ''not_found'' ''memory not found''"

text \<open>The memory a principal may change: of its namespace and one of its private owners.\<close>

definition owned_memory :: "principal \<Rightarrow> store \<Rightarrow> ident \<Rightarrow> memory option" where
  "owned_memory p st i =
     (case get_memory st i of
        Inl e \<Rightarrow> None
      | Inr (m, v) \<Rightarrow> if sc_namespace (me_scope m) \<noteq> pn_namespace p \<or> sc_owner (me_scope m) \<notin> set (pn_private_owners p)
          then None else Some m)"

definition state_proposal :: "environment \<Rightarrow> principal \<Rightarrow> proposal_kind \<Rightarrow> memory \<Rightarrow> proposal" where
  "state_proposal en p kind m =
     \<lparr>pr_id = random_id ''proposal'' (en_bytes en), pr_namespace = pn_namespace p, pr_observation_ids = [],
      pr_kind = kind, pr_target_id = me_id m, pr_payload = ''{}'', pr_strategy_id = ''protocol.lifecycle@1.0.0'',
      pr_strategy_hash = hex_encode (lb_sha256 (en_lib en) ''protocol.lifecycle@1.0.0''),
      pr_provider = '''', pr_model = '''', pr_created_at = en_now en, pr_untrusted = False\<rparr>"

definition change_memory_state ::
  "environment \<Rightarrow> proposal_kind \<Rightarrow> ident \<Rightarrow> principal \<Rightarrow> store \<Rightarrow> store \<times> api_reply" where
  "change_memory_state en kind i p st =
     (case owned_memory p st i of
        None \<Rightarrow> (st, memory_not_found)
      | Some m \<Rightarrow>
          (case service_apply (en_lib en) (owner_policy (en_lib en)) (apply_proposal_authorized (en_lib en)) st
             ((me_scope m)\<lparr>sc_actor := pn_principal_id p\<rparr>) (state_proposal en p kind m) (en_later en) of
             (st', _, Inl e) \<Rightarrow> (st', ReplyFailed 409 ''state_change_failed'' e)
           | (st', _, Inr a) \<Rightarrow> (st', ReplyMutation a)))"

definition purge_handler :: "environment \<Rightarrow> ident \<Rightarrow> principal \<Rightarrow> store \<Rightarrow> store \<times> api_reply" where
  "purge_handler en i p st =
     (case owned_memory p st i of
        None \<Rightarrow> (st, memory_not_found)
      | Some m \<Rightarrow>
          (case purge_memory (random_id ''purge'' (en_bytes en)) (pn_namespace p) (pn_principal_id p) (me_id m) (en_now en) st of
             (st', Inl e) \<Rightarrow> (st', ReplyFailed 409 ''purge_failed'' e)
           | (st', Inr r) \<Rightarrow> (st', ReplyPurge r)))"

section \<open>Credentials and agent events\<close>

definition requested_token :: "environment \<Rightarrow> principal \<Rightarrow> token_request \<Rightarrow> token_spec" where
  "requested_token en p q =
     \<lparr>ts_id = default_text (random_id ''token'' (en_bytes en)) (tq_id q), ts_principal_id = tq_principal_id q,
      ts_namespace = pn_namespace p, ts_private_owners = tq_private_owners q, ts_scopes = tq_scopes q,
      ts_allow_shared = tq_allow_shared q, ts_allow_public = tq_allow_public q, ts_expires_at = tq_expires_at q,
      ts_created_at = en_now en\<rparr>"

definition create_token :: "environment \<Rightarrow> token_request body \<Rightarrow> principal \<Rightarrow> store \<Rightarrow> store \<times> api_reply" where
  "create_token en body p = decode_request body (\<lambda>q st.
     if \<not> list_all (\<lambda>owner. owner \<in> set (pn_private_owners p)) (tq_private_owners q)
     then (st, ReplyError 403 ''forbidden'' ''cannot delegate an unauthorized owner'')
     else (case create_api_token (en_lib en) (requested_token en p q) (en_job_bytes en) st of
         (st', Inl e) \<Rightarrow> (st', ReplyFailed 400 ''token_create_failed'' e)
       | (st', Inr raw) \<Rightarrow> (st', ReplyToken (ts_id (requested_token en p q)) raw)))"

definition event_remember :: "event_request \<Rightarrow> observation \<Rightarrow> remember_request" where
  "event_remember q b =
     \<lparr>rb_observation_id = ob_id b,
      rb_idempotency_key = ''agent-event:'' @ ae_source (er_event q) @ '':'' @ ae_id (er_event q),
      rb_owner = sc_owner (ob_scope b), rb_subject = sc_subject (ob_scope b), rb_context = sc_context (ob_scope b),
      rb_visibility = sc_visibility (ob_scope b), rb_source_kind = ob_source_kind b,
      rb_source_reference = ob_source_reference b, rb_content = ob_content b, rb_evidence_class = ob_evidence_class b,
      rb_policy_authority = '''', rb_captured_at = Some (ob_captured_at b), rb_metadata = ob_metadata b,
      rb_function = er_function q, rb_strategy = er_strategy q, rb_working_ttl_seconds = 0,
      rb_working_global_recall = False, rb_wait_milliseconds = er_wait_milliseconds q\<rparr>"

definition event_receipt_of :: "environment \<Rightarrow> agent_event \<Rightarrow> event_receipt" where
  "event_receipt_of en e = \<lparr>rr_event_id = ae_id e, rr_schema_version = ae_schema_version e, rr_source = ae_source e,
     rr_received_at = en_later en\<rparr>"

definition invalid_event :: "go_error \<Rightarrow> api_reply" where
  "invalid_event e = ReplyFailed 400 ''invalid_agent_event'' e"

definition ingest_event ::
  "environment \<Rightarrow> server_config \<Rightarrow> principal \<Rightarrow> event_request \<Rightarrow> store \<Rightarrow> store \<times> api_reply" where
  "ingest_event en sv p q st =
     (case event_observation (en_lib en) (er_event q) (pn_namespace p) (pn_principal_id p) VisibilityPrivate of
        Inl e \<Rightarrow> (st, invalid_event e)
      | Inr b \<Rightarrow> (case prepare_remember en sv p (event_remember q b) of
            Inl e \<Rightarrow> (st, invalid_event e)
          | Inr (prepared, j) \<Rightarrow>
              (case enqueue_agent_event (en_lib en) (event_receipt_of en (er_event q)) prepared j (en_stored_at en) st of
                 (st', Inl e) \<Rightarrow> (st', ReplyFailed 409 ''enqueue_failed'' e)
               | (st', Inr (created, _)) \<Rightarrow> (case wait_for_job en created (er_wait_milliseconds q) of
                     Inl e \<Rightarrow> (st', ReplyError 500 ''wait_failed'' ''failed waiting for durable job'')
                   | Inr t \<Rightarrow> (st', ReplyJob (job_status t) t)))))"

definition agent_event_handler ::
  "environment \<Rightarrow> server_config \<Rightarrow> event_request body \<Rightarrow> principal \<Rightarrow> store \<Rightarrow> store \<times> api_reply" where
  "agent_event_handler en sv body p st =
     (if \<not> sv_enable_agent_events sv
      then (st, ReplyError 403 ''agent_events_disabled'' ''AgentEvent ingestion is not enabled'')
      else decode_request body (\<lambda>q st.
        if er_wait_milliseconds q < 0 \<or> er_wait_milliseconds q > 30000 then (st, invalid_wait)
        else if ae_owner (er_event q) \<notin> set (pn_private_owners p)
        then (st, ReplyError 403 ''forbidden'' ''event owner is not authorized'')
        else ingest_event en sv p q st) st)"

section \<open>MCP\<close>

definition mcp_versions :: "string list" where
  "mcp_versions = [''2026-07-28'', ''2025-11-25'', ''2025-06-18'']"

definition mcp_tool_names :: "string list" where
  "mcp_tool_names = [''memxplore_job_status'', ''memxplore_recall'', ''memxplore_remember'']"

definition negotiated :: "string \<Rightarrow> string" where
  "negotiated v = (if v \<noteq> ''2025-11-25'' \<and> v \<noteq> ''2025-06-18'' then ''2025-11-25'' else v)"

definition mcp_failure :: "string \<Rightarrow> int \<Rightarrow> string \<Rightarrow> mcp_reply" where
  "mcp_failure i code m = McpFailure (default_text ''null'' i) code m"

definition mcp_value :: "string \<Rightarrow> ('a \<Rightarrow> mcp_reply) \<Rightarrow> store \<times> 'a result \<Rightarrow> store \<times> mcp_reply" where
  "mcp_value i wrap r = (case r of (st, Inl e) \<Rightarrow> (st, McpToolError i e) | (st, Inr x) \<Rightarrow> (st, wrap x))"

definition call_mcp_tool ::
  "environment \<Rightarrow> server_config \<Rightarrow> principal \<Rightarrow> string \<Rightarrow> mcp_tool option \<Rightarrow> store \<Rightarrow> store \<times> mcp_reply" where
  "call_mcp_tool en sv p i call st =
     (case call of
        None \<Rightarrow> (st, mcp_failure i (-32602) ''Invalid tool call parameters'')
      | Some (McpJobStatus arg) \<Rightarrow>
          mcp_value i (McpJob i) (st,
            guard_check (err_if (\<not> has_scope p ScopeMemoryRead) ''memory read scope is required'')
            (bind_result arg (\<lambda>j. bind_result (get_job st j) (\<lambda>r.
               if jb_namespace r \<noteq> pn_namespace p then Inl ErrJobNotFound else Inr r))))
      | Some (McpRecall arg) \<Rightarrow>
          mcp_value i (McpBundle i)
            (if \<not> has_scope p ScopeMemoryRead then (st, Inl (Errorf ''memory read scope is required''))
             else with_value arg st (\<lambda>q. recall_value en sv p q st))
      | Some (McpRemember arg) \<Rightarrow>
          mcp_value i (McpJob i)
            (if \<not> has_scope p ScopeMemoryWrite then (st, Inl (Errorf ''memory write scope is required''))
             else with_value arg st (\<lambda>q. remember_value en sv p q st))
      | Some (McpUnknownTool n) \<Rightarrow> (st, mcp_failure i (-32602) (''Unknown tool: '' @ n)))"

definition handle_mcp :: "environment \<Rightarrow> server_config \<Rightarrow> principal \<Rightarrow> mcp_request \<Rightarrow> store \<Rightarrow> store \<times> mcp_reply" where
  "handle_mcp en sv p q st =
     (if mr_jsonrpc q \<noteq> ''2.0'' \<or> mr_method q = '''' \<or> mr_id q = ''null''
      then (st, mcp_failure (mr_id q) (-32600) ''Invalid Request'')
      else if mr_id q = '''' then (st, McpAccepted)
      else case mr_call q of
        McpDiscover \<Rightarrow> (st, McpVersions (mr_id q) mcp_versions)
      | McpInitialize v \<Rightarrow>
          (case v of
             None \<Rightarrow> (st, mcp_failure (mr_id q) (-32602) ''Invalid initialize parameters'')
           | Some t \<Rightarrow> if t = '''' then (st, mcp_failure (mr_id q) (-32602) ''Invalid initialize parameters'')
               else (st, McpVersions (mr_id q) [negotiated t]))
      | McpPing \<Rightarrow> (st, McpEmpty (mr_id q))
      | McpToolsList \<Rightarrow> (st, McpTools (mr_id q) mcp_tool_names)
      | McpToolsCall call \<Rightarrow> call_mcp_tool en sv p (mr_id q) call st
      | McpUnknownMethod m \<Rightarrow> (st, mcp_failure (mr_id q) (-32601) ''Method not found''))"

text \<open>
  The HTTP transport: a request that names the latest revision must repeat its method
  and its tool in headers, and a request that names another revision is refused.
  \<open>mr_params_name\<close> is the tool name a lenient decoding of the parameters reads.
\<close>

definition header_failure :: "mcp_headers \<Rightarrow> mcp_request \<Rightarrow> mcp_reply option" where
  "header_failure h q =
     (if mh_version h \<noteq> '''' \<and> mh_version h \<noteq> ''2026-07-28''
      then Some (mcp_failure (mr_id q) (-32022) ''Unsupported protocol version'')
      else if mh_version h = ''2026-07-28'' \<and> mh_method h \<noteq> mr_method q
      then Some (mcp_failure (mr_id q) (-32600) ''Mcp-Method header does not match request'')
      else if mh_version h = ''2026-07-28'' \<and> mr_method q = ''tools/call'' \<and> mr_params_name q \<noteq> Some (mh_name h)
      then Some (mcp_failure (mr_id q) (-32600) ''Mcp-Name header does not match request'')
      else None)"

definition mcp_handler ::
  "environment \<Rightarrow> server_config \<Rightarrow> mcp_headers \<Rightarrow> mcp_request body \<Rightarrow> principal \<Rightarrow> store \<Rightarrow> store \<times> api_reply" where
  "mcp_handler en sv h body p = decode_request body (\<lambda>q st.
     case header_failure h q of
       Some r \<Rightarrow> (st, ReplyMcp 400 r)
     | None \<Rightarrow> (case handle_mcp en sv p q st of
         (st', McpAccepted) \<Rightarrow> (st', ReplyMcp 202 McpAccepted)
       | (st', r) \<Rightarrow> (st', ReplyMcp 200 r)))"

text \<open>
  The stdio transport: one request after another, each in its own environment, until
  the input ends or does not decode (\<open>Inl\<close>), which ends the session with an error.
  Notifications have no response.
\<close>

fun serve_mcp_stdio ::
  "server_config \<Rightarrow> principal \<Rightarrow> (environment \<times> mcp_request result) list \<Rightarrow> store \<Rightarrow> store \<times> mcp_reply list \<times> check" where
  "serve_mcp_stdio sv p [] st = (st, [], None)"
| "serve_mcp_stdio sv p ((en, Inl e) # rest) st =
     (st, [mcp_failure '''' (-32700) ''Parse error''], Some (Wrapped ''decode MCP request'' e))"
| "serve_mcp_stdio sv p ((en, Inr q) # rest) st =
     (case handle_mcp en sv p q st of (st1, r) \<Rightarrow>
      case serve_mcp_stdio sv p rest st1 of (st2, out, err) \<Rightarrow>
        (st2, (case r of McpAccepted \<Rightarrow> out | _ \<Rightarrow> r # out), err))"

section \<open>The router\<close>

definition serve :: "environment \<Rightarrow> server_config \<Rightarrow> peer \<Rightarrow> api_call \<Rightarrow> store \<Rightarrow> store \<times> api_reply" where
  "serve en sv pe call =
     (case call of
        CallHealth \<Rightarrow> (\<lambda>st. (st, ReplyHealth))
      | CallVersion \<Rightarrow> authorize en sv pe ScopeMemoryRead (\<lambda>p st. (st, ReplyVersion))
      | CallRemember q \<Rightarrow> authorize en sv pe ScopeMemoryWrite (remember en sv q)
      | CallRecall q \<Rightarrow> authorize en sv pe ScopeMemoryRead (recall_handler en sv q)
      | CallExport i \<Rightarrow> authorize en sv pe ScopeMemoryRead (export_handler en i)
      | CallJob i \<Rightarrow> authorize en sv pe ScopeMemoryRead (job_handler i)
      | CallArchive i \<Rightarrow> authorize en sv pe ScopeMemoryWrite (change_memory_state en ProposalArchive i)
      | CallForget i \<Rightarrow> authorize en sv pe ScopeMemoryWrite (change_memory_state en ProposalForget i)
      | CallPurge i \<Rightarrow> authorize en sv pe ScopeMemoryPurge (purge_handler en i)
      | CallCreateToken q \<Rightarrow> authorize en sv pe ScopeAdmin (create_token en q)
      | CallAgentEvent q \<Rightarrow> authorize en sv pe ScopeMemoryWrite (agent_event_handler en sv q)
      | CallMcp h q \<Rightarrow> authorize_any en sv pe (mcp_handler en sv h q))"

end
