(* ===== verification/ApiProps.thy ===== *)
theory ApiProps
  imports Api WorkerInv PurgeProps TokenProps
begin

text \<open>
  What a request can do. Behind authentication a request makes one of six steps on the
  database, each behind its scope; from the steps follow that requests keep every
  invariant, that each table changes only under its scope, that memories change for
  their owner only, and whom captured evidence is attributed to.
\<close>

section \<open>The steps of a request\<close>

inductive request_step :: "environment \<Rightarrow> server_config \<Rightarrow> principal \<Rightarrow> api_call \<Rightarrow> store \<Rightarrow> store \<Rightarrow> bool"
  for en sv p call st where
  idle: "request_step en sv p call st st"
| captured: "has_scope p ScopeMemoryWrite \<Longrightarrow> prepare_remember en sv p q = Inr (b, j) \<Longrightarrow>
    request_step en sv p call st (fst (enqueue_observation (en_lib en) b j receipt (en_stored_at en) st))"
| traced: "has_scope p ScopeMemoryRead \<Longrightarrow> request_step en sv p call st (st\<lparr>st_traces := ts\<rparr>)"
| minted: "has_scope p ScopeAdmin \<Longrightarrow> ts_namespace spec = pn_namespace p \<Longrightarrow>
    set (ts_private_owners spec) \<subseteq> set (pn_private_owners p) \<Longrightarrow>
    request_step en sv p call st (fst (create_api_token (en_lib en) spec secret st))"
| changed: "has_scope p ScopeMemoryWrite \<Longrightarrow> call \<in> {CallArchive i, CallForget i} \<Longrightarrow> owned_memory p st i = Some m \<Longrightarrow>
    pr_kind x \<in> {ProposalArchive, ProposalForget} \<Longrightarrow> pr_target_id x = me_id m \<Longrightarrow>
    request_step en sv p call st (fst (service_apply (en_lib en) (owner_policy (en_lib en))
      (apply_proposal_authorized (en_lib en)) st ((me_scope m)\<lparr>sc_actor := pn_principal_id p\<rparr>) x (en_later en)))"
| purged: "has_scope p ScopeMemoryPurge \<Longrightarrow> call = CallPurge i \<Longrightarrow> owned_memory p st i = Some m \<Longrightarrow>
    request_step en sv p call st (fst (purge_memory rid (pn_namespace p) (pn_principal_id p) (me_id m) at' st))"

lemmas step_intros = request_step.intros

lemma enqueue_event_state:
  "fst (enqueue_agent_event L r b j now st) = st \<or>
   fst (enqueue_agent_event L r b j now st) = fst (enqueue_observation L b j (Some r) now st)"
  by (auto simp: enqueue_agent_event_def)

lemma transaction_fst: "fst (transaction st r) = (case r of Inl e \<Rightarrow> st | Inr x \<Rightarrow> fst x)"
  by (auto simp: transaction_def split: sum.splits prod.splits)

lemma put_trace_state: "\<exists>ts. fst (put_retrieval_trace t st) = st\<lparr>st_traces := ts\<rparr>"
proof -
  have "\<exists>ts. st = st\<lparr>st_traces := ts\<rparr>" by (rule exI [of _ "st_traces st"]) simp
  then show ?thesis
    unfolding put_retrieval_trace_def transaction_fst guard_check_def bind_result_def
    by (auto split: option.splits sum.splits)
qed

lemma remember_value_step:
  assumes "has_scope p ScopeMemoryWrite"
  shows "request_step en sv p call st (fst (remember_value en sv p q st))"
proof (cases "prepare_remember en sv p q")
  case (Inl e)
  then show ?thesis by (auto simp: remember_value_def with_value_def intro: step_intros(1))
next
  case (Inr bj)
  obtain b j where bj: "bj = (b, j)" by force
  let ?e = "enqueue_observation (en_lib en) b j None (en_stored_at en) st"
  have "fst (remember_value en sv p q st) \<in> {st, fst ?e}"
    by (auto simp: remember_value_def with_value_def Inr bj and_then_def split: sum.splits prod.splits)
  then show ?thesis using request_step.captured [OF assms] Inr bj by (auto intro: step_intros(1))
qed

lemma recall_state:
  "fst (recall L uc r (Some put_retrieval_trace) s c bytes w st) = st \<or>
   (\<exists>ts. fst (recall L uc r (Some put_retrieval_trace) s c bytes w st) = st\<lparr>st_traces := ts\<rparr>)"
proof (cases "recall_bundle_of L uc r s c bytes w")
  case (Inr b)
  then have "fst (recall L uc r (Some put_retrieval_trace) s c bytes w st) = fst (put_retrieval_trace (bu_trace b) st)"
    by (auto simp: recall_def split: sum.splits prod.splits)
  then show ?thesis using put_trace_state by metis
qed (simp add: recall_def)

lemma recall_value_step:
  assumes "has_scope p ScopeMemoryRead"
  shows "request_step en sv p call st (fst (recall_value en sv p q st))"
proof (cases "domain_scope p (wq_owner q) (wq_subject q) (wq_context q) VisibilityPrivate")
  case (Inl e)
  then show ?thesis by (auto simp: recall_value_def with_value_def intro: step_intros(1))
next
  case (Inr sc)
  let ?r = "(sv_retriever sv)\<lparr>rv_repository := sqlite_repository (en_lib en) (en_unicode en) (en_fts en) st\<rparr>"
  have "fst (recall_value en sv p q st) =
      fst (recall (en_lib en) (en_unicode en) ?r (Some put_retrieval_trace) (en_recall_started en)
        (en_recall_completed en) (en_bytes en) (recall_wire en p q sc) st)"
    by (simp add: recall_value_def with_value_def Inr)
  then show ?thesis using recall_state request_step.traced [OF assms] step_intros(1) by metis
qed

lemma ingest_event_step:
  assumes "has_scope p ScopeMemoryWrite"
  shows "request_step en sv p call st (fst (ingest_event en sv p q st))"
proof (cases "event_observation (en_lib en) (er_event q) (pn_namespace p) (pn_principal_id p) VisibilityPrivate")
  case (Inl e)
  then show ?thesis by (auto simp: ingest_event_def intro: step_intros(1))
next
  case ob: (Inr b)
  show ?thesis
  proof (cases "prepare_remember en sv p (event_remember q b)")
    case (Inl e)
    then show ?thesis by (auto simp: ingest_event_def ob intro: step_intros(1))
  next
    case (Inr bj)
    obtain c j where bj: "bj = (c, j)" by force
    have "fst (ingest_event en sv p q st) =
        fst (enqueue_agent_event (en_lib en) (event_receipt_of en (er_event q)) c j (en_stored_at en) st)"
      by (auto simp: ingest_event_def ob Inr bj split: sum.splits prod.splits)
    then show ?thesis
      using enqueue_event_state request_step.captured [OF assms] Inr bj by (metis step_intros(1))
  qed
qed

lemma decode_request_step:
  "(\<And>q. body = Body q \<Longrightarrow> request_step en sv p call st (fst (k q st))) \<Longrightarrow>
   request_step en sv p call st (fst (decode_request body k st))"
  by (cases body) (auto simp: decode_request_def intro: step_intros(1))

lemma case_reply: "fst (case x of (st', Inl e) \<Rightarrow> (st', f e) | (st', Inr y) \<Rightarrow> (st', g y)) = fst x"
  by (auto split: prod.splits sum.splits)

lemma mcp_step: "request_step en sv p call st (fst (handle_mcp en sv p q st))"
proof -
  have "fst (mcp_value i wrap r) = fst r" for i and wrap :: "'b \<Rightarrow> mcp_reply" and r
    by (simp add: mcp_value_def case_reply)
  note replies = this
  have "request_step en sv p call st (fst (call_mcp_tool en sv p i c st))" for i c
    by (cases c)
      (auto simp: call_mcp_tool_def replies with_value_def intro: step_intros(1) recall_value_step remember_value_step
        split: mcp_tool.splits sum.splits)
  then show ?thesis by (auto simp: handle_mcp_def intro: step_intros(1) split: mcp_method.splits option.splits)
qed

lemma change_state_step:
  assumes "has_scope p ScopeMemoryWrite" and "call \<in> {CallArchive i, CallForget i}"
    and "kind \<in> {ProposalArchive, ProposalForget}"
  shows "request_step en sv p call st (fst (change_memory_state en kind i p st))"
proof (cases "owned_memory p st i")
  case (Some m)
  let ?a = "service_apply (en_lib en) (owner_policy (en_lib en)) (apply_proposal_authorized (en_lib en)) st
    ((me_scope m)\<lparr>sc_actor := pn_principal_id p\<rparr>) (state_proposal en p kind m) (en_later en)"
  have "fst (change_memory_state en kind i p st) = fst ?a"
    by (auto simp: change_memory_state_def Some split: prod.splits sum.splits)
  moreover have "pr_kind (state_proposal en p kind m) = kind" "pr_target_id (state_proposal en p kind m) = me_id m"
    by (simp_all add: state_proposal_def)
  ultimately show ?thesis using request_step.changed [OF assms(1,2) Some] assms(3) by metis
qed (simp add: change_memory_state_def step_intros)

lemma purge_step:
  assumes "has_scope p ScopeMemoryPurge"
  shows "request_step en sv p (CallPurge i) st (fst (purge_handler en i p st))"
  using request_step.purged [OF assms refl] by (cases "owned_memory p st i") (auto simp: purge_handler_def case_reply intro: step_intros(1))

lemma create_token_step:
  assumes "has_scope p ScopeAdmin"
  shows "request_step en sv p call st (fst (create_token en q p st))"
  unfolding create_token_def
proof (rule decode_request_step)
  fix t
  have "ts_namespace (requested_token en p t) = pn_namespace p" "ts_private_owners (requested_token en p t) = tq_private_owners t"
    by (simp_all add: requested_token_def)
  then show "request_step en sv p call st (fst (if \<not> list_all (\<lambda>owner. owner \<in> set (pn_private_owners p)) (tq_private_owners t)
     then (st, ReplyError 403 ''forbidden'' ''cannot delegate an unauthorized owner'')
     else (case create_api_token (en_lib en) (requested_token en p t) (en_job_bytes en) st of
         (st', Inl e) \<Rightarrow> (st', ReplyFailed 400 ''token_create_failed'' e)
       | (st', Inr raw) \<Rightarrow> (st', ReplyToken (ts_id (requested_token en p t)) raw))))"
    using request_step.minted [OF assms, of "requested_token en p t" en sv call st "en_job_bytes en"]
    by (auto simp: case_reply list_all_iff subset_iff intro: step_intros(1))
qed

lemma write_step:
  assumes "has_scope p ScopeMemoryWrite"
  shows "request_step en sv p call st (fst (remember en sv b p st))"
    "request_step en sv p call st (fst (agent_event_handler en sv v p st))"
  using remember_value_step [OF assms] ingest_event_step [OF assms]
  by (auto simp: remember_def agent_event_handler_def case_reply intro!: decode_request_step intro: step_intros(1))

lemma read_step:
  assumes "has_scope p ScopeMemoryRead"
  shows "request_step en sv p call st (fst (recall_handler en sv q p st))"
  using recall_value_step [OF assms]
  by (auto simp: recall_handler_def case_reply intro!: decode_request_step)

lemma mcp_handler_step: "request_step en sv p call st (fst (mcp_handler en sv h q p st))"
  unfolding mcp_handler_def
proof (rule decode_request_step)
  fix m
  have "fst (case x of (st', McpAccepted) \<Rightarrow> (st', ReplyMcp 202 McpAccepted) | (st', y) \<Rightarrow> (st', ReplyMcp 200 y)) = fst x"
    for x :: "store \<times> mcp_reply"
    by (cases x) (simp split: mcp_reply.splits)
  then show "request_step en sv p call st (fst (case header_failure h m of Some y \<Rightarrow> (st, ReplyMcp 400 y)
      | None \<Rightarrow> (case handle_mcp en sv p m st of (st', McpAccepted) \<Rightarrow> (st', ReplyMcp 202 McpAccepted)
          | (st', y) \<Rightarrow> (st', ReplyMcp 200 y))))"
    using mcp_step step_intros(1) by (cases "header_failure h m") simp_all
qed

text \<open>
  A request is refused without a trace, or its principal is recorded as the user of the
  token and the request makes one step.
\<close>

lemma authenticate_cases:
  obtains (invalid) "authenticate en sv pe st = (st, Inl ErrInvalidToken)"
  | (token) raw where "authenticate en sv pe st = authenticate_token (en_lib en) raw (en_auth_time en) st"
  | (loopback) "authenticate en sv pe st = (st, Inr (sv_loopback_principal sv))"
  unfolding authenticate_def Let_def by (metis (full_types))

text \<open>A credential without the instant of its last use.\<close>

definition unused :: "token_row \<Rightarrow> token_row" where
  "unused r = r\<lparr>tk_last_used_at := None\<rparr>"

definition credentials :: "store \<Rightarrow> token_row list" where
  "credentials st = map unused (st_tokens st)"

lemma authenticate_token_state:
  obtains (invalid) "authenticate_token L raw at' st = (st, Inl ErrInvalidToken)"
  | (used) ts p where "authenticate_token L raw at' st = (st\<lparr>st_tokens := ts\<rparr>, Inr p)" "map unused ts = credentials st"
proof (cases "authenticate_token L raw at' st")
  case (Pair st' r)
  show thesis
  proof (cases r)
    case (Inl e)
    then have "st' = st \<and> e = ErrInvalidToken"
      using Pair by (simp add: authenticate_token_def split: option.splits if_splits)
    then show thesis using Pair Inl invalid by simp
  next
    case (Inr p)
    then obtain i where "st' = st\<lparr>st_tokens := update_rows (\<lambda>q. ts_id (tk_spec q) = i) (\<lambda>q. q\<lparr>tk_last_used_at := Some at'\<rparr>)
        (st_tokens st)\<rparr>"
      using Pair [unfolded Inr authenticate_token_Inr] by blast
    then show thesis
      using Pair Inr used by (auto simp: credentials_def unused_def map_key_update_rows)
  qed
qed

lemma authenticate_outcome:
  obtains (invalid) "authenticate en sv pe st = (st, Inl ErrInvalidToken)"
  | (known) ts p where "authenticate en sv pe st = (st\<lparr>st_tokens := ts\<rparr>, Inr p)" "map unused ts = credentials st"
proof (rule authenticate_cases [of en sv pe st])
  fix raw assume token: "authenticate en sv pe st = authenticate_token (en_lib en) raw (en_auth_time en) st"
  show thesis
    by (rule authenticate_token_state [of "en_lib en" raw "en_auth_time en" st]) (simp_all add: token that)
next
  assume "authenticate en sv pe st = (st, Inr (sv_loopback_principal sv))"
  then show thesis using known [of "st_tokens st"] by (simp add: credentials_def)
qed (rule invalid)

lemma authenticate_known:
  "authenticate en sv pe st = (st1, Inr p) \<Longrightarrow> \<exists>ts. st1 = st\<lparr>st_tokens := ts\<rparr> \<and> map unused ts = credentials st"
  by (rule authenticate_outcome [of en sv pe st]) auto

lemma authenticate_refused: "authenticate en sv pe st = (st', Inl e) \<Longrightarrow> st' = st"
  by (rule authenticate_outcome [of en sv pe st]) auto

lemma serve_step:
  assumes "serve en sv pe call st = (st', r)"
  obtains (refused) "st' = st"
  | (granted) st1 p where "authenticate en sv pe st = (st1, Inr p)" "request_step en sv p call st1 st'"
proof (cases "authenticate en sv pe st")
  case (Pair st1 a)
  show thesis
  proof (cases a)
    case (Inl e)
    then have "st1 = st" using Pair authenticate_refused by auto
    then show thesis
      using assms refused by (cases call) (auto simp: serve_def authorize_def authorize_any_def Pair Inl)
  next
    case (Inr p)
    have "st' = st \<or> request_step en sv p call st1 st'"
      using assms change_state_step purge_step create_token_step write_step read_step mcp_handler_step step_intros(1)
      by (cases call)
        (auto simp: serve_def authorize_def authorize_any_def Pair Inr export_handler_def job_handler_def
          split: if_splits dest!: arg_cong [where f = fst])
    then show thesis using refused granted Pair Inr by blast
  qed
qed

section \<open>What each step changes\<close>

lemma service_state_change:
  assumes kind: "pr_kind x \<in> {ProposalArchive, ProposalForget}"
  obtains (same) "fst (service_apply L pol (apply_proposal_authorized L) st s x t) = st"
  | (stated) st1 m v ms vs remove ops where "apply_state L st x (Some s) ms vs remove = Inr (st1, m, v)"
      "fst (service_apply L pol (apply_proposal_authorized L) st s x t) = st1\<lparr>st_operations := ops\<rparr>"
proof (cases "fst (service_apply L pol (apply_proposal_authorized L) st s x t) = st")
  case False
  then have run: "fst (service_apply L pol (apply_proposal_authorized L) st s x t) = fst (apply_with L st x (Some s) (sc_actor s) t)"
    using service_state [of L pol "apply_proposal_authorized L" st s x t]
    by (auto simp: apply_proposal_authorized_def split: option.splits)
  obtain st' a where a: "apply_with L st x (Some s) (sc_actor s) t = (st', Inr a)"
    using False run by (metis apply_with_failed prod.collapse sum.exhaust)
  moreover have "st' \<noteq> st" using False run a by simp
  ultimately have "apply_fresh L st x (Some s) (sc_actor s) t = Inr (st', a)" by (auto simp: apply_with_Inr)
  then obtain st1 m v o' where mut: "apply_mutation L st x (Some s) t = Inr (st1, m, v)"
    and ins: "insert_operation o' st1 = Inr st'"
    unfolding apply_fresh_def by (auto simp: bind_result_Inr)
  from kind mut have "\<exists>ms vs remove. apply_state L st x (Some s) ms vs remove = Inr (st1, m, v)"
    unfolding apply_mutation_def by (elim insertE emptyE) (simp, blast)+
  then show thesis using stated ins a run by (auto simp: insert_operation_Inr)
qed (rule same)

definition lifecycle_only :: "store \<Rightarrow> store \<Rightarrow> bool" where
  "lifecycle_only st st' \<longleftrightarrow> st_observations st' = st_observations st \<and> st_jobs st' = st_jobs st \<and>
     st_receipts st' = st_receipts st \<and> st_tokens st' = st_tokens st \<and> st_traces st' = st_traces st \<and>
     st_episodes st' = st_episodes st \<and> st_outcomes st' = st_outcomes st \<and> st_working_sets st' = st_working_sets st"

text \<open>Archiving and forgetting erase nothing: no dependency, feedback, artifact reference or receipt.\<close>

definition erases_nothing :: "store \<Rightarrow> store \<Rightarrow> bool" where
  "erases_nothing st st' \<longleftrightarrow> st_dependencies st' = st_dependencies st \<and> st_feedback st' = st_feedback st \<and>
     st_artifact_refs st' = st_artifact_refs st \<and> st_purge_receipts st' = st_purge_receipts st"

lemma state_change_frame:
  assumes "pr_kind x \<in> {ProposalArchive, ProposalForget}"
  shows "lifecycle_only st (fst (service_apply L pol (apply_proposal_authorized L) st s x t)) \<and>
    erases_nothing st (fst (service_apply L pol (apply_proposal_authorized L) st s x t))"
  by (rule service_state_change [OF assms, of L pol st s t])
    (auto simp: lifecycle_only_def erases_nothing_def apply_state_Inr change_state_def set_version_state_def
      set_memory_state_def remove_indexes_def)

lemma state_change_spares:
  assumes ok: "store_ok st" and kind: "pr_kind x \<in> {ProposalArchive, ProposalForget}"
    and run: "st' = fst (service_apply L pol (apply_proposal_authorized L) st s x t)"
  shows "m \<in> set (st_memories st) \<Longrightarrow> me_id m \<noteq> pr_target_id x \<Longrightarrow> m \<in> set (st_memories st')"
    "v \<in> set (st_versions st) \<Longrightarrow> mv_memory_id v \<noteq> pr_target_id x \<Longrightarrow> v \<in> set (st_versions st')"
    "me_id ` set (st_memories st') = me_id ` set (st_memories st)"
proof -
  have "(m \<in> set (st_memories st) \<longrightarrow> me_id m \<noteq> pr_target_id x \<longrightarrow> m \<in> set (st_memories st')) \<and>
    (v \<in> set (st_versions st) \<longrightarrow> mv_memory_id v \<noteq> pr_target_id x \<longrightarrow> v \<in> set (st_versions st')) \<and>
    me_id ` set (st_memories st') = me_id ` set (st_memories st)"
  proof (rule service_state_change [OF kind, of L pol st s t])
    fix st1 m1 v1 ms vs remove ops
    assume a: "apply_state L st x (Some s) ms vs remove = Inr (st1, m1, v1)"
      and st': "fst (service_apply L pol (apply_proposal_authorized L) st s x t) = st1\<lparr>st_operations := ops\<rparr>"
    from a obtain m0 v0 where load: "load_current_memory st (pr_target_id x) = Inr (m0, v0)"
      and rows: "st_memories st1 = update_rows (\<lambda>m. me_id m = me_id m0) (\<lambda>m. m\<lparr>me_state := ms\<rparr>) (st_memories st)"
        "st_versions st1 = update_rows (\<lambda>v. mv_id v = mv_id v0) (\<lambda>v. v\<lparr>mv_state := vs\<rparr>) (st_versions st)"
      unfolding apply_state_Inr by force
    note l = load_current_memoryD [OF load]
    have "mv_id v \<noteq> mv_id v0" if "v \<in> set (st_versions st)" "mv_memory_id v \<noteq> pr_target_id x"
      using keys_version_unique [of st v v0] ok that l by (auto simp: store_ok_def)
    moreover have "me_id ` set (st_memories st1) = me_id ` set (st_memories st)"
      unfolding rows(1) set_map [symmetric] by (subst map_key_update_rows) simp_all
    ultimately show ?thesis using rows l by (auto simp: run st' update_rows_def)
  qed (simp add: run)
  then show "m \<in> set (st_memories st) \<Longrightarrow> me_id m \<noteq> pr_target_id x \<Longrightarrow> m \<in> set (st_memories st')"
    "v \<in> set (st_versions st) \<Longrightarrow> mv_memory_id v \<noteq> pr_target_id x \<Longrightarrow> v \<in> set (st_versions st')"
    "me_id ` set (st_memories st') = me_id ` set (st_memories st)" by blast+
qed

lemma enqueue_frame:
  "\<exists>js os rs. fst (enqueue_observation L b j receipt now st) = st\<lparr>st_jobs := js, st_observations := os, st_receipts := rs\<rparr>"
proof -
  have "\<exists>js os rs. st = st\<lparr>st_jobs := js, st_observations := os, st_receipts := rs\<rparr>"
    by (intro exI [of _ "st_jobs st"] exI [of _ "st_observations st"] exI [of _ "st_receipts st"]) simp
  moreover have "\<exists>js os rs. st1 = st\<lparr>st_jobs := js, st_observations := os, st_receipts := rs\<rparr>"
    if "enqueue_rows L b j receipt now st = Inr st1" for st1
    using that
    by (cases receipt; intro exI [of _ "st_jobs st1"] exI [of _ "st_observations st1"] exI [of _ "st_receipts st1"])
      (auto simp: enqueue_rows_def insert_observation_def insert_receipt_def result_simps)
  ultimately show ?thesis using enqueue_shape [of L b j receipt now st] by metis
qed

lemma create_token_frame:
  "fst (create_api_token L spec secret st) = st \<or>
   (\<exists>r. fst (create_api_token L spec secret st) = st\<lparr>st_tokens := st_tokens st @ [r]\<rparr> \<and> tk_spec r = spec)"
proof (cases "create_api_token L spec secret st")
  case (Pair st' r)
  show ?thesis
  proof (cases r)
    case (Inl e)
    then have "st' = st" using Pair unfolding create_api_token_def transaction_Inl by simp
    then show ?thesis using Pair by simp
  next
    case (Inr raw)
    then show ?thesis using Pair [unfolded Inr create_api_token_Inr] Pair by auto
  qed
qed

lemma purge_failed: "purge_memory rid ns actor i at' st = (st', Inl e) \<Longrightarrow> st' = st"
  by (simp add: purge_memory_def purge_memory_with_mode_def)

lemma erase_frame: "lifecycle_only st (erase ids ns st)"
  by (simp add: lifecycle_only_def erase_def delete_memories_def detach_artifacts_def delete_index_rows_def Let_def)

lemma purge_frame: "lifecycle_only st (fst (purge_memory rid ns actor i at' st))"
proof (cases "purge_memory rid ns actor i at' st")
  case (Pair st' a)
  show ?thesis
  proof (cases a)
    case (Inl e)
    then show ?thesis using purge_failed [OF Pair [unfolded Inl]] Pair by (simp add: lifecycle_only_def)
  next
    case (Inr r)
    then obtain ms q where "purge_rows_of ms q st = Inr (st', r)"
      using Pair by (auto simp: purge_memory_def purge_memory_with_mode_def guard_check_Inr split: prod.splits)
    then have "\<exists>ids ns x. st' = (erase ids ns st)\<lparr>st_purge_receipts := x\<rparr>" by (auto simp: purge_rows_of_Inr)
    then show ?thesis using erase_frame Pair by (auto simp: lifecycle_only_def)
  qed
qed

lemma purge_outcome:
  assumes ok: "store_ok st"
  obtains (same) "fst (purge_memory rid ns actor i at' st) = st"
  | (erased) ids r where "set ids = closure_memories st i" "one_namespace ids ns st"
      "fst (purge_memory rid ns actor i at' st) = (erase ids ns st)\<lparr>st_purge_receipts := st_purge_receipts st @ [r]\<rparr>"
      "store_ok (fst (purge_memory rid ns actor i at' st))"
proof (cases "purge_memory rid ns actor i at' st")
  case (Pair st' a)
  show thesis
  proof (cases a)
    case (Inl e)
    then show thesis using Pair same purge_failed by simp
  next
    case (Inr r)
    have "store_ok st'" using purge_ok [OF ok] Pair Inr unfolding purge_memory_def by blast
    then show thesis using cascade_run [OF ok Pair [unfolded Inr]] erased Pair by (metis fst_conv)
  qed
qed

section \<open>Requests keep the invariants\<close>

text \<open>The lifecycle invariant does not read the tables of the queue, the traces and the credentials.\<close>

lemma store_ok_tables [simp]:
  "store_ok (st\<lparr>st_observations := os\<rparr>) = store_ok st" "store_ok (st\<lparr>st_receipts := rs\<rparr>) = store_ok st"
  "store_ok (st\<lparr>st_traces := xs\<rparr>) = store_ok st" "store_ok (st\<lparr>st_tokens := ts\<rparr>) = store_ok st"
  by (rule store_ok_cong; simp)+

lemma store_ok_queue: "store_ok (st\<lparr>st_jobs := js, st_observations := os, st_receipts := rs\<rparr>) = store_ok st"
  by (rule store_ok_cong) simp_all

lemma request_step_ok:
  assumes step: "request_step en sv p call st st'" and ok: "store_ok st" "jobs_ok st" "tokens_ok st"
  shows "store_ok st' \<and> jobs_ok st' \<and> tokens_ok st'"
  using step
proof cases
  case (captured q b j receipt)
  obtain js os rs where st': "st' = st\<lparr>st_jobs := js, st_observations := os, st_receipts := rs\<rparr>"
    using captured enqueue_frame by metis
  have "store_ok st' = store_ok st" "tokens_ok st' = tokens_ok st"
    by (simp_all only: st' store_ok_queue) (simp add: tokens_ok_def)
  then show ?thesis using ok queue_step_ok [OF queue_step.enqueue ok(2)] captured by blast
next
  case (traced ts)
  then have "store_ok st' = store_ok st" "jobs_ok st' = jobs_ok st" "tokens_ok st' = tokens_ok st"
    by (simp_all add: jobs_ok_def tokens_ok_def)
  then show ?thesis using ok by simp
next
  case (minted spec secret)
  then have "store_ok st' = store_ok st" "jobs_ok st' = jobs_ok st"
    using create_token_frame [of "en_lib en" spec secret st] by (auto simp: jobs_ok_def)
  then show ?thesis using ok token_step_ok [OF token_step.created ok(3)] minted by blast
next
  case (changed i m x)
  have "lifecycle_only st st'" using changed state_change_frame by blast
  then have "jobs_ok st' = jobs_ok st" "tokens_ok st' = tokens_ok st"
    by (simp_all add: lifecycle_only_def jobs_ok_def tokens_ok_def)
  moreover have "store_ok st'"
    using changed service_state apply_authorized_ok [OF ok(1)] ok(1) by metis
  ultimately show ?thesis using ok by simp
next
  case (purged i m rid at')
  show ?thesis
  proof (rule purge_outcome [OF ok(1), of rid "pn_namespace p" "pn_principal_id p" "me_id m" at'])
    fix ids r assume e: "fst (purge_memory rid (pn_namespace p) (pn_principal_id p) (me_id m) at' st) =
        (erase ids (pn_namespace p) st)\<lparr>st_purge_receipts := st_purge_receipts st @ [r]\<rparr>"
      and "store_ok (fst (purge_memory rid (pn_namespace p) (pn_principal_id p) (me_id m) at' st))"
    then show ?thesis
      using ok erase_frame [of st ids "pn_namespace p"] purged by (simp add: lifecycle_only_def jobs_ok_def tokens_ok_def)
  qed (use ok purged in simp)
qed (use ok in simp)

lemma authenticate_ok:
  assumes "authenticate en sv pe st = (st1, Inr p)" and ok: "store_ok st" "jobs_ok st" "tokens_ok st"
  shows "store_ok st1 \<and> jobs_ok st1 \<and> tokens_ok st1"
proof -
  obtain ts where st1: "st1 = st\<lparr>st_tokens := ts\<rparr>" using authenticate_known [OF assms(1)] by blast
  have "store_ok st1 = store_ok st" "jobs_ok st1 = jobs_ok st" by (simp_all add: st1 jobs_ok_def)
  moreover have "tokens_ok st1"
    by (rule authenticate_cases [of en sv pe st])
      (use assms token_step_ok [OF token_step.used ok(3)] in \<open>auto dest: arg_cong [where f = fst]\<close>)
  ultimately show ?thesis using ok by simp
qed

text \<open>
  C3. Every request of the API, whoever sends it and whatever it carries, keeps the
  whole database well formed: the version chains and dependencies of its memories, its
  job queue and its credentials.
\<close>

theorem requests_keep_invariants:
  assumes "store_ok st" and "jobs_ok st" and "tokens_ok st" and "serve en sv pe call st = (st', r)"
  shows "store_ok st' \<and> jobs_ok st' \<and> tokens_ok st'"
  by (rule serve_step [OF assms(4)]) (use assms(1-3) in \<open>blast dest: authenticate_ok request_step_ok\<close>)+

section \<open>Each table changes under its scope only\<close>

text \<open>What the scopes of a principal let a request change, table by table.\<close>

definition within_scopes :: "principal \<Rightarrow> store \<Rightarrow> store \<Rightarrow> bool" where
  "within_scopes p st st' \<longleftrightarrow>
     (has_scope p ScopeMemoryRead \<or> st_traces st' = st_traces st) \<and>
     (has_scope p ScopeMemoryWrite \<or>
       st_observations st' = st_observations st \<and> st_jobs st' = st_jobs st \<and> st_receipts st' = st_receipts st \<and>
       st_operations st' = st_operations st) \<and>
     (has_scope p ScopeMemoryWrite \<or> has_scope p ScopeMemoryPurge \<or>
       st_memories st' = st_memories st \<and> st_versions st' = st_versions st \<and> st_fts st' = st_fts st \<and>
       st_embeddings st' = st_embeddings st) \<and>
     (has_scope p ScopeMemoryPurge \<or> erases_nothing st st') \<and>
     (has_scope p ScopeAdmin \<or> credentials st' = credentials st) \<and>
     st_episodes st' = st_episodes st \<and> st_outcomes st' = st_outcomes st \<and> st_working_sets st' = st_working_sets st"

lemma request_step_scopes:
  assumes step: "request_step en sv p call st st'" and ok: "store_ok st"
  shows "within_scopes p st st'"
  using step
proof cases
  case (captured q b j receipt)
  then obtain js os rs where "st' = st\<lparr>st_jobs := js, st_observations := os, st_receipts := rs\<rparr>"
    using enqueue_frame by metis
  then show ?thesis using captured by (simp add: within_scopes_def erases_nothing_def credentials_def)
next
  case (minted spec secret)
  then show ?thesis
    using create_token_frame [of "en_lib en" spec secret st] by (auto simp: within_scopes_def erases_nothing_def)
next
  case (changed i m x)
  let ?s = "(me_scope m)\<lparr>sc_actor := pn_principal_id p\<rparr>"
  show ?thesis
    using changed state_change_frame [OF changed(5), of st "en_lib en" "owner_policy (en_lib en)" ?s "en_later en"]
    by (simp add: within_scopes_def lifecycle_only_def credentials_def)
next
  case (purged i m rid at')
  show ?thesis
    by (rule purge_outcome [OF ok, of rid "pn_namespace p" "pn_principal_id p" "me_id m" at'])
      (use purged erase_frame [of st _ "pn_namespace p"] in
        \<open>auto simp: within_scopes_def erases_nothing_def lifecycle_only_def credentials_def\<close>)
qed (simp_all add: within_scopes_def erases_nothing_def credentials_def)

text \<open>
  C4. Credentials bound what a request changes, over REST and over the MCP tools. Without
  valid credentials nothing changes and, the health check apart, the reply is the
  refusal. With them each of the seventeen tables is bound to a scope: traces change only
  under the read scope; observations, jobs, event receipts and operations under the write
  scope; memories, versions, index rows and embeddings under the write or the purge
  scope; dependencies, feedback, artifact references and purge receipts under the purge
  scope; credentials, apart from the instant of their last use, which authentication
  itself records under any scope, under the admin scope; episodes, outcomes and working
  sets under none.
\<close>

theorem effects_need_scopes:
  assumes ok: "store_ok st" and run: "serve en sv pe call st = (st', r)"
  shows "case snd (authenticate en sv pe st) of
      Inl e \<Rightarrow> st' = st \<and> (r = unauthorized \<or> call = CallHealth)
    | Inr p \<Rightarrow>
        (has_scope p ScopeMemoryRead \<or> st_traces st' = st_traces st) \<and>
        (has_scope p ScopeMemoryWrite \<or>
          st_observations st' = st_observations st \<and> st_jobs st' = st_jobs st \<and> st_receipts st' = st_receipts st \<and>
          st_operations st' = st_operations st) \<and>
        (has_scope p ScopeMemoryWrite \<or> has_scope p ScopeMemoryPurge \<or>
          st_memories st' = st_memories st \<and> st_versions st' = st_versions st \<and> st_fts st' = st_fts st \<and>
          st_embeddings st' = st_embeddings st) \<and>
        (has_scope p ScopeMemoryPurge \<or>
          st_dependencies st' = st_dependencies st \<and> st_feedback st' = st_feedback st \<and>
          st_artifact_refs st' = st_artifact_refs st \<and> st_purge_receipts st' = st_purge_receipts st) \<and>
        (has_scope p ScopeAdmin \<or> credentials st' = credentials st) \<and>
        st_episodes st' = st_episodes st \<and> st_outcomes st' = st_outcomes st \<and> st_working_sets st' = st_working_sets st"
proof (cases "authenticate en sv pe st")
  case (Pair st1 a)
  show ?thesis
  proof (cases a)
    case (Inl e)
    moreover have "st1 = st" using Pair Inl authenticate_refused by auto
    ultimately show ?thesis
      using run Pair by (cases call) (auto simp: serve_def authorize_def authorize_any_def)
  next
    case (Inr p)
    obtain ts where st1: "st1 = st\<lparr>st_tokens := ts\<rparr>" and ts: "map unused ts = credentials st"
      using Pair Inr authenticate_known by blast
    have "st' = st \<or> request_step en sv p call st1 st'" by (rule serve_step [OF run]) (simp_all add: Pair Inr)
    then show ?thesis
    proof
      assume "request_step en sv p call st1 st'"
      moreover have "store_ok st1" using ok by (simp add: st1)
      ultimately show ?thesis
        using request_step_scopes [of en sv p call st1 st'] ts
        by (simp add: Pair Inr st1 within_scopes_def erases_nothing_def credentials_def)
    qed (simp add: Pair Inr)
  qed
qed

section \<open>Memories change for their owner only\<close>

text \<open>
  What a request may change: an archive or forget its memory, a purge its memory and
  what is derived from it, when the memory belongs to the namespace and to a private
  owner of an authenticated principal with the scope.
\<close>

definition owns :: "principal \<Rightarrow> store \<Rightarrow> ident \<Rightarrow> bool" where
  "owns p st i \<longleftrightarrow> (\<exists>m \<in> set (st_memories st). me_id m = i \<and> sc_namespace (me_scope m) = pn_namespace p \<and>
     sc_owner (me_scope m) \<in> set (pn_private_owners p))"

definition may_change :: "principal \<Rightarrow> api_call \<Rightarrow> store \<Rightarrow> ident set" where
  "may_change p call st =
     (case call of
        CallArchive i \<Rightarrow> if has_scope p ScopeMemoryWrite \<and> owns p st i then {i} else {}
      | CallForget i \<Rightarrow> if has_scope p ScopeMemoryWrite \<and> owns p st i then {i} else {}
      | CallPurge i \<Rightarrow> if has_scope p ScopeMemoryPurge \<and> owns p st i then closure_memories st i else {}
      | _ \<Rightarrow> {})"

lemma owned_memory_owns:
  assumes "owned_memory p st i = Some m"
  shows "owns p st i" "me_id m = i"
proof -
  from assms obtain v where "load_current_memory st i = Inr (m, v)" "sc_namespace (me_scope m) = pn_namespace p"
      "sc_owner (me_scope m) \<in> set (pn_private_owners p)"
    by (auto simp: owned_memory_def get_memory_def split: sum.splits prod.splits if_splits)
  moreover from this have "m \<in> set (st_memories st)" "me_id m = i" by (auto dest: load_current_memoryD)
  ultimately show "owns p st i" "me_id m = i" by (auto simp: owns_def)
qed

lemma request_step_spares:
  assumes step: "request_step en sv p call st st'" and ok: "store_ok st"
  shows "(\<forall>m \<in> set (st_memories st). me_id m \<in> may_change p call st \<or> m \<in> set (st_memories st')) \<and>
    (\<forall>v \<in> set (st_versions st). mv_memory_id v \<in> may_change p call st \<or> v \<in> set (st_versions st')) \<and>
    me_id ` set (st_memories st') \<subseteq> me_id ` set (st_memories st)"
  using step
proof cases
  case (captured q b j receipt)
  then obtain js os rs where "st' = st\<lparr>st_jobs := js, st_observations := os, st_receipts := rs\<rparr>"
    using enqueue_frame by metis
  then show ?thesis by simp
next
  case (minted spec secret)
  then show ?thesis using create_token_frame [of "en_lib en" spec secret st] by auto
next
  case (changed i m x)
  then have "may_change p call st = {pr_target_id x}"
    using owned_memory_owns [OF changed(4)] by (auto simp: may_change_def)
  then show ?thesis using state_change_spares [OF ok changed(5,1)] by blast
next
  case (purged i m rid at')
  have may: "may_change p call st = closure_memories st (me_id m)"
    using purged owned_memory_owns [OF purged(4)] by (simp add: may_change_def)
  show ?thesis
  proof (rule purge_outcome [OF ok, of rid "pn_namespace p" "pn_principal_id p" "me_id m" at'])
    fix ids r assume e: "set ids = closure_memories st (me_id m)" "one_namespace ids (pn_namespace p) st"
      and "fst (purge_memory rid (pn_namespace p) (pn_principal_id p) (me_id m) at' st) =
        (erase ids (pn_namespace p) st)\<lparr>st_purge_receipts := st_purge_receipts st @ [r]\<rparr>"
    then show ?thesis
      using purged(1) erase_memories [OF e(2)] erase_versions [OF ok e(2)] by (auto simp: may simp del: erase_sel)
  qed (use purged in simp)
qed auto

text \<open>
  C5. A request changes memories for their owner only: every memory and version row
  outside what the caller may change is still there as it was, and no request brings a
  memory into being; an unauthenticated one may change nothing.
\<close>

theorem only_owners_change_memories:
  assumes ok: "store_ok st" and run: "serve en sv pe call st = (st', r)"
    and touched: "touched = (case snd (authenticate en sv pe st) of Inl e \<Rightarrow> {} | Inr p \<Rightarrow> may_change p call st)"
  shows "set (filter (\<lambda>m. me_id m \<notin> touched) (st_memories st)) \<subseteq> set (st_memories st') \<and>
    set (filter (\<lambda>v. mv_memory_id v \<notin> touched) (st_versions st)) \<subseteq> set (st_versions st') \<and>
    me_id ` set (st_memories st') \<subseteq> me_id ` set (st_memories st)"
proof (rule serve_step [OF run])
  fix st1 p assume p: "authenticate en sv pe st = (st1, Inr p)" and step: "request_step en sv p call st1 st'"
  obtain ts where st1: "st1 = st\<lparr>st_tokens := ts\<rparr>" using authenticate_known [OF p] by blast
  have "tainted st1 = tainted st" by (intro ext) (simp add: st1 tainted_def)
  then have "closure_memories st1 = closure_memories st" "owns p st1 = owns p st"
    by (auto simp: st1 owns_def closure_memories_def)
  then have "may_change p call st1 = may_change p call st" by (cases call) (simp_all add: may_change_def)
  moreover have "store_ok st1" using ok by (simp add: st1)
  ultimately show ?thesis using request_step_spares [OF step] by (auto simp: touched p st1)
qed auto

section \<open>Evidence is attributed to its sender\<close>

lemma prepare_remember_Inr:
  assumes "prepare_remember en sv p q = Inr (b, j)"
  shows "sc_namespace (ob_scope b) = pn_namespace p" "sc_owner (ob_scope b) \<in> set (pn_private_owners p)"
    "sc_actor (ob_scope b) = pn_principal_id p" "ob_evidence_class b = EvidencePolicy \<Longrightarrow> has_scope p ScopeAdmin"
    "observation_validate b = None" "jb_namespace j = pn_namespace p"
    "encode_formation_job (en_codec en) (remember_payload q b) = Inr (jb_payload j)"
proof -
  from assms obtain sc where sc: "domain_scope p (rb_owner q) (rb_subject q) (rb_context q) (remember_visibility q) = Inr sc"
      and policy: "remember_class q = EvidencePolicy \<longrightarrow> has_scope p ScopeAdmin"
      and b: "b = remember_observation en q sc" and valid: "observation_validate b = None"
      and enc: "encode_formation_job (en_codec en) (remember_payload q b) = Inr (jb_payload j)"
      and j: "\<exists>encoded. j = remember_job en p q b encoded"
    unfolding prepare_remember_def bind_result_Inr guard_check_Inr Let_def by (auto simp: remember_job_def)
  from sc have "sc_namespace sc = pn_namespace p" "sc_owner sc \<in> set (pn_private_owners p)" "sc_actor sc = pn_principal_id p"
    by (auto simp: domain_scope_def guard_check_Inr Let_def simp del: scope_validate_None)
  then show "sc_namespace (ob_scope b) = pn_namespace p" "sc_owner (ob_scope b) \<in> set (pn_private_owners p)"
    "sc_actor (ob_scope b) = pn_principal_id p" by (simp_all add: b remember_observation_def)
  show "ob_evidence_class b = EvidencePolicy \<Longrightarrow> has_scope p ScopeAdmin"
    using policy by (simp add: b remember_observation_def)
  show "jb_namespace j = pn_namespace p" using j by (auto simp: remember_job_def)
  show "observation_validate b = None" "encode_formation_job (en_codec en) (remember_payload q b) = Inr (jb_payload j)"
    by (fact valid, fact enc)
qed

text \<open>
  C6. Evidence is attributed to its sender: an observation that a request adds is valid,
  lies in the namespace and with a private owner of the authenticated principal, names
  it as the actor, is of the policy class only for an admin, and comes with a new queued
  job of the namespace whose payload forms exactly this observation in its scope.
\<close>

theorem captured_evidence_is_attributed:
  assumes run: "serve en sv pe call st = (st', r)"
    and new: "(b, t) \<in> set (st_observations st')" "(b, t) \<notin> set (st_observations st)"
  shows "\<exists>p j payload. snd (authenticate en sv pe st) = Inr p \<and> has_scope p ScopeMemoryWrite \<and>
    observation_validate b = None \<and> sc_namespace (ob_scope b) = pn_namespace p \<and>
    sc_owner (ob_scope b) \<in> set (pn_private_owners p) \<and> sc_actor (ob_scope b) = pn_principal_id p \<and>
    (ob_evidence_class b = EvidencePolicy \<longrightarrow> has_scope p ScopeAdmin) \<and>
    st_jobs st' = st_jobs st @ [j] \<and> jb_state j = JobQueued \<and> jb_namespace j = pn_namespace p \<and>
    encode_formation_job (en_codec en) payload = Inr (jb_payload j) \<and>
    fj_observation_id payload = ob_id b \<and> fj_apply_scope payload = ob_scope b"
proof (rule serve_step [OF run])
  fix st1 p assume p: "authenticate en sv pe st = (st1, Inr p)" and step: "request_step en sv p call st1 st'"
  obtain ts where st1: "st1 = st\<lparr>st_tokens := ts\<rparr>" using authenticate_known [OF p] by blast
  have old: "(b, t) \<notin> set (st_observations st1)" using new(2) by (simp add: st1)
  from step show ?thesis
  proof cases
    case (captured q c j receipt)
    then have "enqueue_rows (en_lib en) c j receipt (en_stored_at en) st1 = Inr st'"
      using enqueue_shape [of "en_lib en" c j receipt "en_stored_at en" st1] new(1) old by auto
    note rows = enqueue_rows_Inr [OF this]
    have c: "c = b" using rows(3) new(1) old by auto
    have "jb_state (queued_job j now) = JobQueued" "jb_namespace (queued_job j now) = jb_namespace j"
        "jb_payload (queued_job j now) = jb_payload j" for now
      by (simp_all add: queued_job_def)
    then show ?thesis
      using prepare_remember_Inr [OF captured(3)] captured(2) rows(1)
      by (intro exI [of _ p] exI [of _ "queued_job j (en_stored_at en)"] exI [of _ "remember_payload q b"])
        (auto simp: p c st1 remember_payload_def)
  next
    case (minted spec secret)
    then show ?thesis using create_token_frame [of "en_lib en" spec secret st1] new(1) old by auto
  next
    case (changed i m x)
    let ?s = "(me_scope m)\<lparr>sc_actor := pn_principal_id p\<rparr>"
    show ?thesis
      using changed(1) new(1) old
        state_change_frame [OF changed(5), of st1 "en_lib en" "owner_policy (en_lib en)" ?s "en_later en"]
      by (simp add: lifecycle_only_def)
  next
    case (purged i m rid at')
    then show ?thesis
      using purge_frame [of st1 rid "pn_namespace p" "pn_principal_id p" "me_id m" at'] new(1) old
      by (simp add: lifecycle_only_def)
  qed (use new(1) old in simp_all)
qed (use new in simp)

section \<open>A server on concrete requests\<close>

definition api_env :: environment where
  "api_env = \<lparr>en_lib = sample_lib,
     en_codec = \<lparr>jc_encode_job = (\<lambda>j. ''form''), jc_decode_job = (\<lambda>s. Inl (Errorf ''json'')), jc_unmarshal_create = (\<lambda>s. Inl (Errorf ''json''))\<rparr>,
     en_unicode = \<lparr>uc_letter = (\<lambda>c. True), uc_number = (\<lambda>c. False), uc_lower = (\<lambda>c. c)\<rparr>, en_fts = (\<lambda>m rows r. None),
     en_auth_time = sample_time 300, en_now = sample_time 301, en_later = sample_time 302, en_stored_at = sample_time 303,
     en_recall_started = sample_time 304, en_recall_completed = sample_time 305, en_bytes = replicate 16 (CHR ''b''),
     en_job_bytes = replicate 32 (CHR ''j''), en_waits = []\<rparr>"

definition api_principal :: principal where
  "api_principal = \<lparr>pn_token_id = ''local'', pn_principal_id = ''alice'', pn_namespace = ''ns'', pn_private_owners = [''alice''],
     pn_scopes = [ScopeMemoryRead, ScopeMemoryWrite], pn_allow_shared = False, pn_allow_public = False\<rparr>"

definition api_server :: server_config where
  "api_server = \<lparr>sv_retriever = \<lparr>rv_repository = sqlite_repository sample_lib (en_unicode api_env) (en_fts api_env) empty_store,
       rv_embedder = None, rv_provider = '''', rv_model = '''', rv_dimensions = 0, rv_rrf_constant = 60\<rparr>,
     sv_worker = \<lparr>wk_generator = None, wk_generator_provider = '''', wk_generator_model = '''', wk_embedder = None,
       wk_embedding_provider = '''', wk_embedding_model = '''', wk_embedding_dimensions = 0,
       wk_lease = 60000000000, wk_poll_interval = 100000000\<rparr>,
     sv_loopback_principal = api_principal, sv_allow_loopback = True, sv_enable_agent_events = False\<rparr>"

definition local_peer :: peer where "local_peer = \<lparr>pe_authorization = '''', pe_loopback = True\<rparr>"

definition remote_peer :: peer where "remote_peer = \<lparr>pe_authorization = ''Basic x'', pe_loopback = False\<rparr>"

definition api_remember :: remember_request where
  "api_remember = \<lparr>rb_observation_id = '''', rb_idempotency_key = ''k'', rb_owner = ''alice'', rb_subject = ''sub'', rb_context = '''',
     rb_visibility = VisibilityOther '''', rb_source_kind = '''', rb_source_reference = '''', rb_content = sample_text ''tea'',
     rb_evidence_class = EvidenceOther '''', rb_policy_authority = '''', rb_captured_at = None, rb_metadata = Map.empty,
     rb_function = FunctionFactual, rb_strategy = '''', rb_working_ttl_seconds = 0, rb_working_global_recall = False,
     rb_wait_milliseconds = 0\<rparr>"

definition forget_call :: api_call where "forget_call = CallForget (sample_id ''mem'' ''p1'')"

definition store_told :: store where
  "store_told = fst (serve api_env api_server local_peer (CallRemember (Body api_remember)) empty_store)"

lemma store_derived_side: "jobs_ok store_derived" "tokens_ok store_derived"
proof -
  have "st_jobs store_derived = [] \<and> st_receipts store_derived = [] \<and> st_tokens store_derived = [] \<and>
      map (ob_id \<circ> fst) (st_observations store_derived) = []"
    by code_simp
  then show "jobs_ok store_derived" "tokens_ok store_derived" by (simp_all add: jobs_ok_def tokens_ok_def)
qed

theorem requests_keep_invariants_witness:
  "store_ok (fst (serve api_env api_server local_peer forget_call store_derived)) \<and>
   map me_state (st_memories (fst (serve api_env api_server local_peer forget_call store_derived))) = [MemoryForgotten, MemoryActive]"
proof
  show "store_ok (fst (serve api_env api_server local_peer forget_call store_derived))"
    using requests_keep_invariants [OF store_derived_ok store_derived_side surjective_pairing] by blast
qed code_simp

theorem effects_need_scopes_witness:
  "fst (serve api_env api_server remote_peer forget_call store_derived) = store_derived \<and>
   st_purge_receipts (fst (serve api_env api_server local_peer forget_call store_derived)) = st_purge_receipts store_derived"
proof -
  have "snd (authenticate api_env api_server remote_peer store_derived) = Inl ErrInvalidToken"
    by (simp add: authenticate_def remote_peer_def has_prefix_def)
  moreover have "snd (authenticate api_env api_server local_peer store_derived) = Inr api_principal"
    by (simp add: authenticate_def local_peer_def api_server_def)
  moreover have "has_scope api_principal ScopeMemoryPurge = False" by code_simp
  ultimately show ?thesis
    using effects_need_scopes [where en = api_env and sv = api_server and pe = remote_peer and call = forget_call,
        OF store_derived_ok surjective_pairing]
      effects_need_scopes [where en = api_env and sv = api_server and pe = local_peer and call = forget_call,
        OF store_derived_ok surjective_pairing]
    by simp
qed

theorem only_owners_change_memories_witness:
  "set (filter (\<lambda>m. me_id m \<notin> {sample_id ''mem'' ''p1''}) (st_memories store_derived))
     \<subseteq> set (st_memories (fst (serve api_env api_server local_peer forget_call store_derived)))"
proof -
  have "list_ex (\<lambda>m. me_id m = sample_id ''mem'' ''p1'' \<and> sc_namespace (me_scope m) = ''ns'' \<and> sc_owner (me_scope m) = ''alice'')
      (st_memories store_derived)" by code_simp
  then have "owns api_principal store_derived (sample_id ''mem'' ''p1'')" by (simp add: owns_def list_ex_iff api_principal_def)
  moreover have "has_scope api_principal ScopeMemoryWrite" by code_simp
  moreover have "snd (authenticate api_env api_server local_peer store_derived) = Inr api_principal"
    by (simp add: authenticate_def local_peer_def api_server_def)
  ultimately show ?thesis
    using only_owners_change_memories [where en = api_env and sv = api_server and pe = local_peer and call = forget_call,
        OF store_derived_ok surjective_pairing refl]
    by (simp add: forget_call_def may_change_def)
qed

theorem captured_evidence_is_attributed_witness:
  "\<exists>b t p. (b, t) \<in> set (st_observations store_told) \<and> snd (authenticate api_env api_server local_peer empty_store) = Inr p \<and>
     sc_owner (ob_scope b) \<in> set (pn_private_owners p)"
proof -
  have "length (st_observations store_told) = 1" by code_simp
  then obtain b t where new: "(b, t) \<in> set (st_observations store_told)"
    by (metis length_0_conv list.set_intros(1) neq_Nil_conv surj_pair zero_neq_one)
  moreover have "(b, t) \<notin> set (st_observations empty_store)" by (simp add: empty_store_def)
  moreover have "serve api_env api_server local_peer (CallRemember (Body api_remember)) empty_store =
      (store_told, snd (serve api_env api_server local_peer (CallRemember (Body api_remember)) empty_store))"
    by (simp add: store_told_def)
  ultimately show ?thesis using captured_evidence_is_attributed by blast
qed

end
