(* ===== verification/EvolutionProps.thy ===== *)
theory EvolutionProps
  imports Evolution FormationProps
begin

text \<open>
  What evolution guarantees: typed update proposals of the compared memory whatever the
  generator answers, candidates that keep the memory's identity, history and
  dependencies, and a baseline that is silent exactly when nothing changed.
\<close>

section \<open>Strategies and candidates\<close>

lemma new_evolution_shape:
  assumes "new_evolution f = Inr s \<or> new_assisted_evolution f gen provider model = Inr s"
  shows "known_function f" "es_function s = f"
    "es_mode s = ModeGeneratorFree \<and> es_provider s = '''' \<or> es_mode s = ModeAssisted \<and> es_provider s \<noteq> ''''"
  using assms
  by (auto simp: new_evolution_def new_assisted_evolution_def guard_check_Inr validate_evolution_function_def
      split: memory_function.splits)

lemma payload_of_Inr [simp]: "payload_of x = Inr y \<longleftrightarrow> x = Some y"
  by (cases x) (simp_all add: payload_of_def)

lemma propose_evolution_Inr:
  "propose_evolution L fr enc s m v b = Inr p \<longleftrightarrow>
     memory_validate m = None \<and> version_validate (me_function m) v = None \<and> observation_validate b = None \<and>
     me_function m = es_function s \<and> mv_memory_id v = me_id m \<and>
     sc_namespace (me_scope m) = sc_namespace (ob_scope b) \<and> sc_subject (me_scope m) = sc_subject (ob_scope b) \<and>
     (\<exists>e hash. evolution_candidate L fr enc s v b = Inr e \<and> evolution_validate (es_function s) e = None \<and>
        evolution_encodable e \<and> package_hash L (es_definition s) = Inr hash \<and>
        p = evolution_proposal L s m v b (lb_encode_evolution L e) hash \<and> proposal_validate L p = None)"
  unfolding propose_evolution_def guard_check_Inr bind_result_Inr Let_def by auto

text \<open>
  How a candidate continues the payload it replaces: a fact stays about its subject, a
  lesson keeps its evidence and feedback and gains the observation's episode, a task
  memory stays with its task and set and remembers everything it was compacted from.
\<close>

definition continues :: "lib \<Rightarrow> observation \<Rightarrow> memory_payload \<Rightarrow> memory_payload \<Rightarrow> bool" where
  "continues L b old new \<longleftrightarrow>
     (\<exists>x y. pl_factual old = Some x \<and> pl_factual new = Some y \<and> fm_claim_subject y = fm_claim_subject x) \<or>
     (\<exists>x y. pl_experiential old = Some x \<and> pl_experiential new = Some y \<and> em_feedback y = em_feedback x \<and>
        em_evidence y = em_evidence x @ [\<lparr>le_episode_id = evolution_id L ''episode'' [ob_id b],
          le_outcome_ids = [evolution_id L ''outcome'' [ob_id b]]\<rparr>]) \<or>
     (\<exists>x y. pl_working old = Some x \<and> pl_working new = Some y \<and> wm_working_set_id y = wm_working_set_id x \<and>
        wm_task_id y = wm_task_id x \<and> sc_context (ob_scope b) = wm_task_id x \<and>
        set (wm_compacted_from y) = insert (ob_id b) (set (wm_compacted_from x)))"

lemmas payload_literals = factual_payload_def experiential_payload_def working_payload_def

lemma set_compacted: "set (compacted w b) = insert (ob_id b) (set (wm_compacted_from w))"
  by (auto simp: compacted_def)

lemma baseline_update_continues:
  "known_function f \<Longrightarrow> baseline_update L fr f v b = Inr q \<Longrightarrow> continues L b (mv_payload v) q"
  by (cases f)
    (auto simp: baseline_update_def continues_def bind_result_Inr guard_check_Inr new_evidence_def next_working_def
      set_compacted payload_literals split: if_splits)

lemma assisted_update_continues:
  "known_function f \<Longrightarrow> assisted_update L f v b out = Inr q \<Longrightarrow> continues L b (mv_payload v) q"
  by (cases f)
    (auto simp: assisted_update_def continues_def bind_result_Inr guard_check_Inr new_evidence_def next_working_def
      set_compacted payload_literals split: if_splits)

lemma evolution_candidate_shape:
  assumes "known_function (es_function s)" and "evolution_candidate L fr enc s v b = Inr e"
  shows "ev_mode e \<in> {EvolutionSupersede, EvolutionConflict}" "ev_provenance e = evolution_evidence b"
    "ev_derived_from e = mv_derived_from v" "ev_conflict_group e = ''''" "tr_to (ev_valid_time e) = None"
    "tr_from (ev_valid_time e) \<in> {ob_captured_at b, tr_from (mv_valid_time v)}"
    "continues L b (mv_payload v) (ev_payload e)"
  using assms
  by (auto simp: evolution_candidate_def baseline_evolution_def assisted_evolution_def bind_result_Inr guard_check_Inr
      baseline_mode_def baseline_valid_from_def assisted_mode_def wrap_result_Inr
      dest: baseline_update_continues assisted_update_continues split: if_splits)

text \<open>
  C24. Whatever a generator answers, an evolution strategy built by either constructor
  proposes only well-typed updates of the memory it was given: the payload encodes an
  evolution that passes the validation of the lifecycle, supersedes or conflicts,
  keeps the dependencies of the compared version and rests on every part of the
  observation; the observation is of the memory's namespace and subject, the proposal
  validates, is marked untrusted unless the observation is policy, names a provider
  exactly when a model assisted, and the owner policy lets it through.
\<close>

theorem evolution_proposals_are_typed:
  assumes "new_evolution f = Inr s \<or> new_assisted_evolution f gen provider model = Inr s"
    and "propose_evolution L fr enc s m v b = Inr p"
  shows "\<exists>e. pr_payload p = lb_encode_evolution L e \<and> evolution_validate f e = None \<and>
      ev_mode e \<in> {EvolutionSupersede, EvolutionConflict} \<and> ev_derived_from e = mv_derived_from v \<and>
      map er_part_index (ev_provenance e) = map int [0..<length (co_parts (ob_content b))] \<and>
      er_observation_id ` set (ev_provenance e) = {ob_id b} \<and>
      proposal_validate L p = None \<and> pr_kind p = ProposalUpdate \<and> pr_target_id p = me_id m \<and> me_function m = f \<and>
      pr_namespace p = sc_namespace (me_scope m) \<and> sc_namespace (me_scope m) = sc_namespace (ob_scope b) \<and>
      sc_subject (me_scope m) = sc_subject (ob_scope b) \<and>
      (pr_untrusted p \<longleftrightarrow> ob_evidence_class b \<noteq> EvidencePolicy) \<and>
      (pr_provider p = '''' \<longleftrightarrow> es_mode s = ModeGeneratorFree) \<and>
      owner_policy L (me_scope m) p = Inr (decision True ''owner_evolve'')"
proof -
  note shape = new_evolution_shape [OF assms(1)]
  obtain e hash where ok: "observation_validate b = None" "me_function m = es_function s"
      "sc_namespace (me_scope m) = sc_namespace (ob_scope b)" "sc_subject (me_scope m) = sc_subject (ob_scope b)"
    and e: "evolution_candidate L fr enc s v b = Inr e" "evolution_validate (es_function s) e = None"
    and p: "p = evolution_proposal L s m v b (lb_encode_evolution L e) hash" "proposal_validate L p = None"
    using assms(2) unfolding propose_evolution_Inr by blast
  have known: "known_function (es_function s)" using shape(1,2) by simp
  note c = evolution_candidate_shape [OF known e(1)]
  have "co_parts (ob_content b) \<noteq> []"
    using ok(1) content_validate_parts by (auto simp: observation_validate_def)
  then have "er_observation_id ` set (evolution_evidence b) = {ob_id b}"
    by (force simp: evolution_evidence_def)
  moreover have "map er_part_index (evolution_evidence b) = map int [0..<length (co_parts (ob_content b))]"
    by (simp add: evolution_evidence_def)
  moreover have "owner_policy L (me_scope m) p = Inr (decision True ''owner_evolve'')"
    by (simp add: p(1) evolution_proposal_def owner_policy_def)
  ultimately show ?thesis
    using shape(2,3) ok e(2) p c(1-3) by (intro exI [of _ e]) (auto simp: evolution_proposal_def)
qed

text \<open>
  C25. Evolution forgets nothing it builds on: the proposed payload continues the one it
  replaces (subject of a fact, evidence and feedback of a lesson, task, set and
  compaction history of a task memory), its validity starts at the observation or,
  for a correction, where the replaced version started; and the generator-free
  strategy answers \<open>ErrNoChange\<close> exactly for a fact whose text the observation
  repeats up to case and spacing.
\<close>

theorem evolution_continues_memory:
  assumes "new_evolution f = Inr s \<or> new_assisted_evolution f gen provider model = Inr s"
    and "version_validate f v = None"
  shows "(\<forall>e. evolution_candidate L fr enc s v b = Inr e \<longrightarrow>
      continues L b (mv_payload v) (ev_payload e) \<and> tr_to (ev_valid_time e) = None \<and>
      tr_from (ev_valid_time e) = (if es_mode s = ModeGeneratorFree \<and> metadata_at b ''evolution'' = ''correction''
        then tr_from (mv_valid_time v) else ob_captured_at b)) \<and>
    (es_mode s = ModeGeneratorFree \<longrightarrow>
      (evolution_candidate L fr enc s v b = Inl ErrNoChange \<longleftrightarrow>
        f = FunctionFactual \<and> equivalent fr (fm_object (the (pl_factual (mv_payload v)))) (ob_content b)))"
proof (intro conjI allI impI)
  note shape = new_evolution_shape [OF assms(1)]
  fix e assume e: "evolution_candidate L fr enc s v b = Inr e"
  have known: "known_function (es_function s)" using shape(1,2) by simp
  from evolution_candidate_shape(5,7) [OF known e]
  show "continues L b (mv_payload v) (ev_payload e)" "tr_to (ev_valid_time e) = None" by simp_all
  show "tr_from (ev_valid_time e) = (if es_mode s = ModeGeneratorFree \<and> metadata_at b ''evolution'' = ''correction''
      then tr_from (mv_valid_time v) else ob_captured_at b)"
    using e
    by (auto simp: evolution_candidate_def baseline_evolution_def assisted_evolution_def bind_result_Inr guard_check_Inr
        baseline_valid_from_def wrap_result_Inr split: if_splits)
next
  assume mode: "es_mode s = ModeGeneratorFree"
  have "payload_validate f (mv_payload v) = None" using assms(2) by (simp add: version_validate_def)
  then have "f = FunctionFactual \<Longrightarrow> pl_factual (mv_payload v) \<noteq> None" by (auto elim: payload_validate_cases)
  then show "evolution_candidate L fr enc s v b = Inl ErrNoChange \<longleftrightarrow>
       f = FunctionFactual \<and> equivalent fr (fm_object (the (pl_factual (mv_payload v)))) (ob_content b)"
    using new_evolution_shape(2) [OF assms(1)] mode
    by (cases f) (auto simp: evolution_candidate_def baseline_evolution_def baseline_update_def payload_of_def bind_result_def
        guard_check_def err_if_def split: option.splits sum.splits)
qed

section \<open>A model that proposes a change\<close>

definition evolving_generator :: generator where
  "evolving_generator r = Inr \<lparr>gs_text = ''{\"mode\":\"conflict\",\"text\":\" coffee \"}'', gs_finish_reason = ''stop'',
     gs_usage = \<lparr>us_input_tokens = 1, us_output_tokens = 1, us_total_tokens = 2\<rparr>\<rparr>"

definition assisted_evolver :: evolution_strategy where
  "assisted_evolver = projr (new_assisted_evolution FunctionFactual (Some evolving_generator) ''local'' ''model-1'')"

definition baseline_evolver :: evolution_strategy where
  "baseline_evolver = projr (new_evolution FunctionFactual)"

definition tea_memory :: memory where "tea_memory = hd (st_memories store_tea)"
definition tea_version :: memory_version where "tea_version = hd (st_versions store_tea)"

definition ascii_fold :: "int \<Rightarrow> int" where
  "ascii_fold c = (if 65 \<le> c \<and> c \<le> 90 then c + 32 else c)"

definition shouted_tea :: observation where
  "shouted_tea = sample_observation\<lparr>ob_content := sample_text '' TEA''\<rparr>"

theorem evolution_proposals_are_typed_witness:
  "\<exists>e p. propose_evolution sample_lib ascii_fold (\<lambda>x c. ''input'') assisted_evolver tea_memory tea_version sample_observation = Inr p \<and>
     evolution_validate FunctionFactual e = None \<and> pr_kind p = ProposalUpdate \<and> pr_target_id p = me_id tea_memory \<and>
     pr_provider p \<noteq> ''''"
proof -
  have "\<not> isl (new_assisted_evolution FunctionFactual (Some evolving_generator) ''local'' ''model-1'')" by code_simp
  then have new: "new_assisted_evolution FunctionFactual (Some evolving_generator) ''local'' ''model-1'' = Inr assisted_evolver"
    by (simp add: assisted_evolver_def)
  let ?r = "propose_evolution sample_lib ascii_fold (\<lambda>x c. ''input'') assisted_evolver tea_memory tea_version sample_observation"
  have "\<not> isl ?r" by code_simp
  then obtain p where p: "?r = Inr p" by (cases ?r) simp_all
  have "es_mode assisted_evolver = ModeAssisted" by code_simp
  with evolution_proposals_are_typed [OF disjI2 [OF new] p] p show ?thesis by auto
qed

theorem evolution_continues_memory_witness:
  "evolution_candidate sample_lib ascii_fold (\<lambda>x c. ''input'') baseline_evolver tea_version shouted_tea = Inl ErrNoChange"
proof -
  have "\<not> isl (new_evolution FunctionFactual)" by code_simp
  then have new: "new_evolution FunctionFactual = Inr baseline_evolver" by (simp add: baseline_evolver_def)
  have "version_validate FunctionFactual tea_version = None" "es_mode baseline_evolver = ModeGeneratorFree"
    "equivalent ascii_fold (fm_object (the (pl_factual (mv_payload tea_version)))) (ob_content shouted_tea)"
    by code_simp+
  with evolution_continues_memory [OF disjI1 [OF new]] show ?thesis by blast
qed

end
