(* ===== verification/AugmentationProps.thy ===== *)
theory AugmentationProps
  imports Augmentation "HOL-Library.Multiset"
begin

text \<open>
  What the optional stages guarantee whatever the model answers: a reranker permutes, a
  synthesis cites what was recalled, a rewriter returns a few distinct queries.
\<close>

lemma filter_other_version:
  assumes "distinct (map ri_version_id items)" and "x \<in> set items"
  shows "mset items = add_mset x (mset (filter (\<lambda>y. ri_version_id y \<noteq> ri_version_id x) items))"
  using assms
proof (induction items)
  case (Cons a items)
  have "filter (\<lambda>y. ri_version_id y \<noteq> ri_version_id a) items = items"
    using Cons.prems(1) by (intro filter_True) (auto simp: image_iff)
  then show ?case using Cons by (auto simp del: mset_filter)
qed simp

lemma find_version:
  assumes "distinct (map ri_version_id items)" and "x \<in> set items"
  shows "find (\<lambda>y. ri_version_id y = ri_version_id x) items = Some x"
  using assms by (induction items) (auto simp: image_iff)

lemma place_Inr:
  assumes "distinct (map ri_version_id items)" and "place ids items = Inr (placed, rest)"
  shows "map ri_version_id placed = ids \<and> mset items = mset placed + mset rest"
  using assms
proof (induction ids arbitrary: items placed)
  case (Cons i ids)
  then obtain x where x: "find (\<lambda>x. ri_version_id x = i) items = Some x" by (auto split: option.splits)
  then have mem: "x \<in> set items" "ri_version_id x = i" by (auto simp: find_Some_iff)
  let ?others = "filter (\<lambda>y. ri_version_id y \<noteq> i) items"
  obtain q where q: "place ids ?others = Inr (q, rest)" "placed = x # q"
    using Cons.prems(2) x by (auto simp: bind_result_Inr)
  have "distinct (map ri_version_id ?others)" using Cons.prems(1) by (simp add: distinct_map_filter)
  from Cons.IH [OF this q(1)] filter_other_version [OF Cons.prems(1) mem(1)] q(2) mem(2)
  show ?case by (simp del: mset_filter)
qed simp

lemma place_total:
  assumes "distinct (map ri_version_id items)" and "map ri_version_id out = ids" "mset out = mset items"
  shows "place ids items = Inr (out, [])"
  using assms
proof (induction out arbitrary: ids items)
  case (Cons x out)
  have mem: "x \<in> set items" using Cons.prems(3) by (metis list.set_intros(1) mset_eq_setD)
  then have "find (\<lambda>y. ri_version_id y = ri_version_id x) items = Some x"
    using find_version [OF Cons.prems(1)] by simp
  moreover have "mset out = mset (filter (\<lambda>y. ri_version_id y \<noteq> ri_version_id x) items)"
    using filter_other_version [OF Cons.prems(1) mem] Cons.prems(3) by (simp del: mset_filter)
  then have "place (map ri_version_id out) (filter (\<lambda>y. ri_version_id y \<noteq> ri_version_id x) items) = Inr (out, [])"
    using Cons.prems(1) by (intro Cons.IH) (simp_all add: distinct_map_filter)
  ultimately show ?case using Cons.prems(2) by (auto simp: bind_result_Inr)
qed simp

text \<open>
  C26. A reranker permutes: it answers with exactly the candidates it was given, in the
  order of the versions that the model named, and it answers exactly when that is
  possible, for present arguments within the size bound, candidates of distinct
  versions and an answer that names each of their versions once.
\<close>

theorem rerank_permutes:
  "rerank enc s query items = Inr out \<longleftrightarrow>
     trim_space query \<noteq> '''' \<and> items \<noteq> [] \<and> distinct (map ri_version_id items) \<and>
     (\<exists>input answer. enc query items = Inr input \<and> length input \<le> max_augmentation_input \<and>
        generate_json s ''VERSION_IDS'' False input = Inr answer \<and>
        map ri_version_id out = so_list answer \<and> mset out = mset items)"
    (is "?run \<longleftrightarrow> ?args")
proof
  assume ?run
  then obtain input answer where *: "trim_space query \<noteq> ''''" "items \<noteq> []" "distinct (map ri_version_id items)"
      "enc query items = Inr input" "length input \<le> max_augmentation_input"
      "generate_json s ''VERSION_IDS'' False input = Inr answer" "place (so_list answer) items = Inr (out, [])"
    unfolding rerank_def guard_check_Inr bind_result_Inr wrap_result_Inr
    by (auto simp: guard_check_Inr simp del: distinct_map)
  from place_Inr [OF *(3,7)] * show ?args by auto
next
  assume ?args
  then obtain input answer where *: "trim_space query \<noteq> ''''" "items \<noteq> []" "distinct (map ri_version_id items)"
      "enc query items = Inr input" "length input \<le> max_augmentation_input"
      "generate_json s ''VERSION_IDS'' False input = Inr answer" "map ri_version_id out = so_list answer" "mset out = mset items"
    by blast
  have "length (so_list answer) = length items" using *(7,8) by (metis length_map size_mset)
  moreover have "place (so_list answer) items = Inr (out, [])" by (rule place_total [OF *(3,7,8)])
  ultimately show ?run
    unfolding rerank_def guard_check_Inr bind_result_Inr wrap_result_Inr
    using *(1-6) by (intro conjI exI [of _ input] exI [of _ answer] exI [of _ "(out, [])"])
      (simp_all add: guard_check_Inr del: distinct_map)
qed

text \<open>A synthesis cites only versions it was given, each once, and at least one.\<close>

lemma synthesis_cites_evidence:
  assumes "synthesize enc s bundle = Inr y"
  shows "sy_citations y \<noteq> [] \<and> distinct (sy_citations y) \<and>
    set (sy_citations y) \<subseteq> ri_version_id ` set (bu_items bundle) \<and> trim_space (sy_text y) \<noteq> ''''"
  using assms unfolding synthesize_def guard_check_Inr bind_result_Inr by auto

text \<open>A rewriter returns one to five queries, pairwise different up to case.\<close>

lemma rewrite_bounded:
  assumes "rewrite uc s query = Inr r"
  shows "rw_original r = query \<and> 1 \<le> length (rw_queries r) \<and> length (rw_queries r) \<le> 5 \<and>
    distinct (map (query_key uc) (rw_queries r)) \<and> [] \<notin> query_key uc ` set (rw_queries r)"
  using assms unfolding rewrite_def guard_check_Inr bind_result_Inr Let_def by (auto simp: Suc_le_eq) (metis)

end
