(* ===== verification/Spec2Isabelle.thy ===== *)
theory Spec2Isabelle
  imports WorkerProps LifecycleProps JobProps PurgeProps TokenProps WorkingProps Episodes RecallStore PortableProps ApiProps EvolutionProps AugmentationProps
begin

text \<open>
  MemXplore keeps typed memories in a SQLite database. Observations are captured as
  evidence; a worker forms memories from them, with or without a language model, as
  proposals; a policy decides on each proposal; a repository applies it in one
  transaction, as a new immutable version. Recall finds versions under the caller's
  authorization and the two times (valid and system), purge erases a memory with all
  that derives from it, and a subject's data can be exported and imported. This
  development models that core from the Go sources under \<open>src/internal\<close>, definition by
  definition under the names of the sources, and proves what makes each part correct.

  \<^bold>\<open>How the code is read.\<close> A struct is a record, an enumeration a datatype with one
  constructor for the values outside it (the zero value and whatever a decoder lets
  through), a Go string a list of bytes, an \<open>int\<close> of the code an unbounded integer with
  its range checks, float64 exact IEEE arithmetic, an instant the nanoseconds since the
  zero \<open>time.Time\<close>, a vector component the 32-bit pattern of its float32. An error is a
  value: a fallible call returns \<open>go_error + 'a\<close>, a validation \<open>go_error option\<close>, and
  every early return of the code is a branch in its order; messages that the code
  formats from values are kept as their fixed part. The database is the record
  \<open>store\<close> of its tables, each a list of rows in insertion order; a statement that a
  constraint refuses is an error, \<open>transaction\<close> keeps the old tables on an error, and a
  handler takes the store and returns the next one beside its outcome. What a call reads
  from outside (the clock, random bytes, another worker's database) is an argument.

  \<^bold>\<open>The theories.\<close>
  \<^item> The language: \<open>Prelude\<close> (errors, checks, calls, tables and the simplification
    collections), \<open>GoText\<close> (runes, trimming, hex, identifier patterns), \<open>GoTime\<close>
    (calendar and stored text of an instant, with its order), \<open>GoFloat\<close> (float64),
    \<open>GoJson\<close> (encoding/json: parsing, encoding, maps), \<open>Closure\<close> (recursive SQL
    queries compute a transitive closure), \<open>DepGraph\<close> (the depth-first cycle check of
    \<open>application/portable.go\<close> ends and is exact).
  \<^item> Data: \<open>Domain\<close> and \<open>Trace\<close> (\<open>domain/*.go\<close>), \<open>Proposals\<close>
    (\<open>application/lifecycle.go\<close>, \<open>proposal.go\<close>, \<open>policy/owner.go\<close>: payloads, proposals, the
    owner policy, \<open>LifecycleService.Apply\<close>), \<open>Store\<close> (the tables, with
    \<open>sqlite/records.go\<close>).
  \<^item> Memory lifecycle: \<open>Lifecycle\<close> (\<open>sqlite/lifecycle.go\<close>: create, supersede,
    rebuild, conflict, archive, forget, replay), \<open>LifecycleInv\<close> (the invariant \<open>store_ok\<close>
    and its preservation), \<open>LifecycleLaws\<close> (consequences), \<open>LifecycleProps\<close>.
  \<^item> The queue and its worker: \<open>Jobs\<close> (\<open>application/jobs.go\<close>, \<open>sqlite/jobs.go\<close>,
    \<open>agent_events.go\<close>, \<open>read.go\<close>), \<open>JobInv\<close>, \<open>JobProps\<close>; \<open>Worker\<close>
    (\<open>application/formation_job.go\<close>, \<open>daemon/formation.go\<close>), \<open>WorkerInv\<close>, \<open>WorkerProps\<close>.
  \<^item> Strategies: \<open>Strategy\<close> (\<open>strategy/package.go\<close>), \<open>Formation\<close>
    (\<open>application/provider.go\<close>, \<open>strategy/formation\<close>), \<open>Evolution\<close>
    (\<open>strategy/evolution\<close>), \<open>Augmentation\<close> (\<open>strategy/augmentation\<close>), each with its
    \<open>Props\<close> theory.
  \<^item> Retrieval: \<open>Vectors\<close> (\<open>sqlite/embeddings.go\<close> and the vector checks and cosine of
    recall), \<open>Candidates\<close> (\<open>sqlite/retrieval.go\<close>), \<open>Recall\<close>
    (\<open>application/retrieval.go\<close>), then \<open>RecallProps\<close> (any repository), \<open>RecallTrace\<close> (traces
    validate) and \<open>RecallStore\<close> (over SQLite).
  \<^item> Other tables: \<open>Working\<close> (\<open>sqlite/working.go\<close>, \<open>existence.go\<close>), \<open>Episodes\<close>
    (\<open>experiential.go\<close>), \<open>Tokens\<close> (\<open>auth/auth.go\<close>, \<open>sqlite/auth.go\<close>), \<open>Purge\<close>
    (\<open>purge.go\<close>), \<open>Portable\<close> (\<open>application/portable.go\<close>, \<open>sqlite/portable.go\<close>) with
    \<open>PortableImport\<close>, and their \<open>Props\<close>.
  \<^item> The servers: \<open>AgentEvent\<close> (\<open>agentevent/*.go\<close>), \<open>Api\<close> (\<open>api/*.go\<close>: \<open>serve\<close> is the
    router, one definition per handler, \<open>handle_mcp\<close> and the two MCP transports),
    \<open>ApiProps\<close>.
  \<^item> \<open>Samples\<close> computes the databases the witnesses run on.

  \<^bold>\<open>How the parts meet.\<close> \<open>serve\<close> authenticates (\<open>Tokens\<close>), prepares an observation and a
  job and enqueues them (\<open>Jobs\<close>); \<open>process_one\<close> claims the job, proposes (\<open>Formation\<close>),
  creates the rows the payload refers to (\<open>Episodes\<close>, \<open>Working\<close>), applies the proposal
  through the service, policy and repository (\<open>Proposals\<close>, \<open>Lifecycle\<close>), stores an
  embedding (\<open>Vectors\<close>) and completes or fails the job; recall reads the same store
  through \<open>sqlite_repository\<close> and stores its trace; archive, forget and purge go through
  \<open>Lifecycle\<close> and \<open>Purge\<close>. Interfaces are locales, interpreted on these definitions: the
  repository behind the lifecycle service (\<open>lifecycle_repository\<close>, by
  \<open>apply_proposal_authorized\<close>), the candidates behind recall (\<open>candidate_source\<close>, by
  \<open>sqlite_repository\<close>) and relations that every call of the worker keeps
  (\<open>call_relation\<close>, for appending, the job rows, one job row, memories, embeddings, the
  lifecycle tables and the invariant).

  \<^bold>\<open>What is shown.\<close> Invariants: every lifecycle mutation, every request and every pass of
  the worker keeps \<open>store_ok\<close> (unique keys, acyclic dependencies that respect
  visibility, one open version per memory at the end of its chain, indexes without
  forgotten content), the queue and the credentials well formed. Safety: isolation of
  owners, immutable content, a system time whose past no mutation changes, private
  content stays private through any sequence of mutations, models cannot destroy,
  leases exclude other workers until their last second, recall returns only what the
  caller may see, each table changes only under its scopes, memories change for their
  owner only, evidence is attributed to its sender, a pass of the worker rewrites nothing
  but its job and an embedding, purge erases the whole closure and nothing else. Function
  and error behaviour: replay, supersession, greedy selection, claims resolved unless
  their lease runs out, deliveries of one job formed once at most for a generator that
  answers alike, the baseline, automatic recall and purge exactly when possible, the
  expiry sweep in order and exact but for a second, evolution and reranking exactly as
  the answer allows. Equivalence and refinement: the recursive queries against the transitive
  closure, ranking against a sort, canonical JSON against content, queue calls against
  the machine of one job. Round trips of vectors and of exported subjects; bounds on an
  early takeover of a lease; the worker's loop (while its passes keep their leases) and the cycle check end.

  \<^bold>\<open>Fuel and bounds.\<close> \<open>json_parse\<close> runs on fuel twice the length of the text plus two, where
  a value and each element or member behind it take one unit and at least one byte, and
  keeps Go's nesting limit of 10000; every text the encoder writes within that limit is
  proved to parse back.
  \<open>visit_all\<close> is a partial function that may not end and is proved to end for every
  graph. The worker's loop and the waiting for a job run over the list of clock
  readings or of databases they see.

  \<^bold>\<open>Parameters.\<close> SHA-256 and the JSON codec of the typed payloads (\<open>lib\<close>, \<open>job_codec\<close>),
  the Unicode tables of letters and cases, the match and rank of FTS5 (\<open>fts_engine\<close>),
  embedders and generators, the text of an error, the outcomes of integrity check and
  backup, and what the HTTP decoder makes of a body. No theorem assumes anything about
  them but the stated hypotheses (the length of a digest, validity of encoded JSON, a
  rank that is a number), each satisfied by the instance its witness runs on.

  \<^bold>\<open>Not modelled.\<close> The evaluation harness and its benchmark adapters (they measure the
  program), opening, migrating, checking and copying the database file (SQLite's own
  behaviour; their outcomes are arguments of the import), the provider clients, the
  command line and the SDK (network and terminal I/O around modelled operations),
  telemetry and release scripts; of the servers the \<open>net/http\<close> plumbing, headers that
  carry no decision, and the JSON schemas of the tool list. Concurrency is that of
  SQLite's single writer: transactions are atomic steps, in any order.
\<close>

end
